(* ===== verification/Prelude.thy ===== *)
theory Prelude
imports Main "HOL-Library.Word" "HOL-Library.Sublist"
begin

text \<open>
  What every component shares: the machine integers and byte strings of the agent, Go's
  run-time panics as values, checked slicing, and the little-endian and big-endian readers
  of \<open>encoding/binary\<close>.

  A Go \<open>[]byte\<close> and a Go \<open>string\<close> are both sequences of bytes, and the conversions
  between them copy the bytes; both are the type \<open>bytes\<close> here, a list of HOL's 8-bit
  characters. Offsets and lengths (Go's 64-bit \<open>int\<close>) that the code only compares with
  and adds to the length of a slice are naturals.
\<close>

named_theorems go_defs \<open>definitions of the Go library operations, for evaluation\<close>
named_theorems go_panic \<open>when a checked operation returns and when it panics\<close>
named_theorems go_cut \<open>how the string operations behave on assembled inputs\<close>
named_theorems go_num \<open>round trips of the number encodings\<close>

type_synonym bytes = string
type_synonym u8 = "8 word"
type_synonym u16 = "16 word"
type_synonym u32 = "32 word"
type_synonym u64 = "64 word"

section \<open>Panics\<close>

datatype panic =
    SliceOutOfRange
  | IndexOutOfRange
  | NilDereference
  | NilMapWrite

text \<open>A computation that may panic: \<open>Inl\<close> a panic, \<open>Inr\<close> the value returned.\<close>

type_synonym 'a go = "panic + 'a"

definition go_bind :: "'e + 'a \<Rightarrow> ('a \<Rightarrow> 'e + 'b) \<Rightarrow> 'e + 'b" where
  "go_bind m f = (case m of Inl e \<Rightarrow> Inl e | Inr x \<Rightarrow> f x)"

lemma go_bind_Inl [simp]: "go_bind (Inl e) f = Inl e"
  by (simp add: go_bind_def)

lemma go_bind_Inr [simp]: "go_bind (Inr x) f = f x"
  by (simp add: go_bind_def)

lemma go_bind_eq_Inr:
  "go_bind m f = Inr y \<longleftrightarrow> (\<exists>x. m = Inr x \<and> f x = Inr y)"
  by (cases m) auto

lemma go_bind_eq_Inl:
  "go_bind m f = Inl e \<longleftrightarrow> m = Inl e \<or> (\<exists>x. m = Inr x \<and> f x = Inl e)"
  by (cases m) auto

lemma go_bind_cong [fundef_cong]:
  "m = m' \<Longrightarrow> (\<And>x. m' = Inr x \<Longrightarrow> f x = g x) \<Longrightarrow> go_bind m f = go_bind m' g"
  by (cases m') auto

definition no_panic :: "'a go \<Rightarrow> bool" where
  "no_panic m = (case m of Inl e \<Rightarrow> False | Inr x \<Rightarrow> True)"

lemma no_panic_simps [simp]: "no_panic (Inr x)" "\<not> no_panic (Inl e)"
  by (simp_all add: no_panic_def)

lemma no_panic_iff: "no_panic m \<longleftrightarrow> (\<exists>x. m = Inr x)"
  by (cases m) auto

lemma no_panic_bind:
  "no_panic m \<Longrightarrow> (\<And>x. m = Inr x \<Longrightarrow> no_panic (f x)) \<Longrightarrow> no_panic (go_bind m f)"
  by (cases m) auto

section \<open>Indexing and slicing\<close>

text \<open>\<open>s[i]\<close>, \<open>s[i:]\<close> and \<open>s[i:j]\<close> for a slice whose capacity is its length (a string).\<close>

definition idx :: "'a list \<Rightarrow> nat \<Rightarrow> 'a go" where
  "idx s i = (if i < length s then Inr (s ! i) else Inl IndexOutOfRange)"

definition slice_from :: "'a list \<Rightarrow> nat \<Rightarrow> 'a list go" where
  "slice_from s i = (if i \<le> length s then Inr (drop i s) else Inl SliceOutOfRange)"

definition slice :: "'a list \<Rightarrow> nat \<Rightarrow> nat \<Rightarrow> 'a list go" where
  "slice s i j =
     (if i \<le> j \<and> j \<le> length s then Inr (drop i (take j s)) else Inl SliceOutOfRange)"

lemma idx_Inr [go_panic]: "i < length s \<Longrightarrow> idx s i = Inr (s ! i)"
  by (simp add: idx_def)

lemma slice_from_Inr [go_panic]: "i \<le> length s \<Longrightarrow> slice_from s i = Inr (drop i s)"
  by (simp add: slice_from_def)

lemma slice_Inr [go_panic]:
  "i \<le> j \<Longrightarrow> j \<le> length s \<Longrightarrow> slice s i j = Inr (drop i (take j s))"
  by (simp add: slice_def)

lemma slice_middle [go_panic]: "slice (a @ b @ c) (length a) (length a + length b) = Inr b"
  by (simp add: slice_def)

declare idx_def [go_defs] slice_from_def [go_defs] slice_def [go_defs]

section \<open>Fixed-width integers in bytes\<close>

definition byte_val :: "char \<Rightarrow> nat" where
  "byte_val c = of_char c"

definition byte_of :: "nat \<Rightarrow> char" where
  "byte_of n = char_of n"

lemma byte_val_less [simp]: "byte_val c < 256"
  by (simp add: byte_val_def)

lemma byte_val_byte_of [simp]: "byte_val (byte_of n) = n mod 256"
  by (simp add: byte_val_def byte_of_def)

lemma byte_of_byte_val [simp]: "byte_of (byte_val c) = c"
  by (simp add: byte_val_def byte_of_def)

lemma byte_val_eq_iff [simp]: "byte_val c = byte_val d \<longleftrightarrow> c = d"
  by (simp add: byte_val_def)

fun le_nat :: "bytes \<Rightarrow> nat" where
  "le_nat [] = 0"
| "le_nat (b # bs) = byte_val b + 256 * le_nat bs"

fun le_bytes :: "nat \<Rightarrow> nat \<Rightarrow> bytes" where
  "le_bytes 0 n = []"
| "le_bytes (Suc k) n = byte_of n # le_bytes k (n div 256)"

definition be_nat :: "bytes \<Rightarrow> nat" where
  "be_nat bs = le_nat (rev bs)"

definition be_bytes :: "nat \<Rightarrow> nat \<Rightarrow> bytes" where
  "be_bytes k n = rev (le_bytes k n)"

lemma length_le_bytes [simp]: "length (le_bytes k n) = k"
  by (induction k arbitrary: n) auto

lemma length_be_bytes [simp]: "length (be_bytes k n) = k"
  by (simp add: be_bytes_def)

lemma le_nat_le_bytes [go_num]: "le_nat (le_bytes k n) = n mod 256 ^ k"
proof (induction k arbitrary: n)
  case 0
  then show ?case by simp
next
  case (Suc k)
  have "n mod 256 ^ Suc k = n mod 256 + 256 * (n div 256 mod 256 ^ k)"
    using mod_mult2_eq [of n 256 "256 ^ k"] by simp
  then show ?case by (simp add: Suc.IH)
qed

lemma be_nat_be_bytes [go_num]: "be_nat (be_bytes k n) = n mod 256 ^ k"
  by (simp add: be_nat_def be_bytes_def le_nat_le_bytes)

lemma le_nat_bound: "le_nat bs < 256 ^ length bs"
proof (induction bs)
  case Nil
  then show ?case by simp
next
  case (Cons b bs)
  have "byte_val b + 256 * le_nat bs < 256 + 256 * le_nat bs" by simp
  also have "\<dots> = 256 * Suc (le_nat bs)" by simp
  also have "\<dots> \<le> 256 * 256 ^ length bs"
    using Cons.IH by (intro mult_le_mono2) simp
  finally show ?case by simp
qed

lemma be_nat_bound: "be_nat bs < 256 ^ length bs"
  using le_nat_bound [of "rev bs"] by (simp add: be_nat_def)

lemma le_bytes_le_nat [go_num]: "length bs = k \<Longrightarrow> le_bytes k (le_nat bs) = bs"
proof (induction bs arbitrary: k)
  case Nil
  then show ?case by simp
next
  case (Cons b bs)
  then obtain j where k: "k = Suc j" and j: "length bs = j" by auto
  have "byte_of (byte_val b + 256 * le_nat bs) = byte_of (byte_val b)"
    by (simp add: byte_of_def)
  then show ?case using Cons.IH [OF j] by (simp add: k)
qed

text \<open>
  \<open>binary.LittleEndian.Uint32(s)\<close> and its kin read the first bytes of \<open>s\<close> and panic
  when \<open>s\<close> is too short.
\<close>

definition LE_u32 :: "bytes \<Rightarrow> u32 go" where
  "LE_u32 s =
     (if 4 \<le> length s then Inr (word_of_nat (le_nat (take 4 s))) else Inl IndexOutOfRange)"

definition BE_u32 :: "bytes \<Rightarrow> u32 go" where
  "BE_u32 s =
     (if 4 \<le> length s then Inr (word_of_nat (be_nat (take 4 s))) else Inl IndexOutOfRange)"

definition BE_u16 :: "bytes \<Rightarrow> u16 go" where
  "BE_u16 s =
     (if 2 \<le> length s then Inr (word_of_nat (be_nat (take 2 s))) else Inl IndexOutOfRange)"

declare LE_u32_def [go_defs] BE_u32_def [go_defs] BE_u16_def [go_defs]

lemma LE_u32_Inr [go_panic]:
  "4 \<le> length s \<Longrightarrow> LE_u32 s = Inr (word_of_nat (le_nat (take 4 s)))"
  by (simp add: LE_u32_def)

lemma BE_u32_Inr [go_panic]:
  "4 \<le> length s \<Longrightarrow> BE_u32 s = Inr (word_of_nat (be_nat (take 4 s)))"
  by (simp add: BE_u32_def)

lemma LE_u32_le_bytes [go_num]: "LE_u32 (le_bytes 4 (unat w) @ s) = Inr (w :: u32)"
proof -
  have "unat w < 2 ^ 32" using unsigned_less [of w] by simp
  then have "unat w mod 256 ^ 4 = unat w" by simp
  then show ?thesis by (simp add: LE_u32_def le_nat_le_bytes)
qed

lemma BE_u32_be_bytes [go_num]: "BE_u32 (be_bytes 4 (unat w) @ s) = Inr (w :: u32)"
proof -
  have "unat w < 2 ^ 32" using unsigned_less [of w] by simp
  then have "unat w mod 256 ^ 4 = unat w" by simp
  then show ?thesis by (simp add: BE_u32_def be_nat_be_bytes)
qed

section \<open>Lists and maps\<close>

lemma takeWhile_append_sep [simp]:
  "c \<notin> set xs \<Longrightarrow> takeWhile (\<lambda>x. x \<noteq> c) (xs @ c # ys) = xs"
  by (induction xs) auto

lemma dropWhile_append_sep [simp]:
  "c \<notin> set xs \<Longrightarrow> dropWhile (\<lambda>x. x \<noteq> c) (xs @ c # ys) = c # ys"
  by (induction xs) auto

lemma takeWhile_notin [simp]: "c \<notin> set xs \<Longrightarrow> takeWhile (\<lambda>x. x \<noteq> c) xs = xs"
  by (induction xs) auto

lemma map_filter_cong:
  "(\<And>x. x \<in> set xs \<Longrightarrow> f x = g x) \<Longrightarrow> List.map_filter f xs = List.map_filter g xs"
  by (induction xs) (auto simp: map_filter_simps split: option.splits)

lemma in_set_map_filter: "y \<in> set (List.map_filter f xs) \<longleftrightarrow> (\<exists>x \<in> set xs. f x = Some y)"
  by (induction xs) (auto simp: map_filter_simps split: option.splits)

text \<open>Deleting a key of a Go map.\<close>

definition map_delete :: "('k \<rightharpoonup> 'v) \<Rightarrow> 'k \<Rightarrow> ('k \<rightharpoonup> 'v)" where
  "map_delete m k = m(k := None)"

lemma map_delete_apply [simp]: "map_delete m k k' = (if k' = k then None else m k')"
  by (simp add: map_delete_def)

lemma dom_map_delete [simp]: "dom (map_delete m k) = dom m - {k}"
  by (auto simp: map_delete_def)

text \<open>Reading a Go map whose values have the zero value \<open>z\<close>: a missing key reads as \<open>z\<close>.\<close>

definition map_get :: "'v \<Rightarrow> ('k \<rightharpoonup> 'v) \<Rightarrow> 'k \<Rightarrow> 'v" where
  "map_get z m k = (case m k of None \<Rightarrow> z | Some v \<Rightarrow> v)"

lemma map_get_update [simp]: "map_get z (m(k \<mapsto> v)) k' = (if k' = k then v else map_get z m k')"
  by (simp add: map_get_def)

lemma map_get_empty [simp]: "map_get z Map.empty k = z"
  by (simp add: map_get_def)

lemma map_get_delete [simp]:
  "map_get z (map_delete m k) k' = (if k' = k then z else map_get z m k')"
  by (simp add: map_get_def)

end
