(* ===== verification/Go_Numbers.thy ===== *)
theory Go_Numbers
imports Prelude
begin

text \<open>
  The number conversions of Go's \<open>strconv\<close> the agent calls: \<open>FormatUint\<close> and \<open>Itoa\<close> in
  base 10, \<open>ParseUint\<close> with a base and a bit size, and the values \<open>ParseInt\<close> and \<open>Atoi\<close>
  return also when they report an error the caller ignores. Also \<open>hex.Decode\<close>.
\<close>

section \<open>Printing\<close>

definition digit_char :: "nat \<Rightarrow> char" where
  "digit_char d = byte_of (48 + d)"

fun format_uint :: "nat \<Rightarrow> bytes" where
  "format_uint n =
     (if n < 10 then [digit_char n] else format_uint (n div 10) @ [digit_char (n mod 10)])"

declare format_uint.simps [simp del]

definition itoa :: "int \<Rightarrow> bytes" where
  "itoa i = (if i < 0 then CHR ''-'' # format_uint (nat (- i)) else format_uint (nat i))"

section \<open>Parsing\<close>

datatype num_error = ErrSyntax | ErrRange

definition is_digit :: "char \<Rightarrow> bool" where
  "is_digit c = (48 \<le> byte_val c \<and> byte_val c \<le> 57)"

definition digit_val :: "char \<Rightarrow> nat" where
  "digit_val c = byte_val c - 48"

text \<open>
  The loop of \<open>ParseUint\<close>: the range error is reported at the first digit that passes the
  bound, before the characters after it are looked at. (Digits above 9 need a base above
  10, which the agent never asks for.)
\<close>

fun parse_digits :: "nat \<Rightarrow> nat \<Rightarrow> nat \<Rightarrow> bytes \<Rightarrow> num_error + nat" where
  "parse_digits base mx n [] = Inr n"
| "parse_digits base mx n (c # cs) =
     (if is_digit c \<and> digit_val c < base
      then if mx < n * base + digit_val c then Inl ErrRange
           else parse_digits base mx (n * base + digit_val c) cs
      else Inl ErrSyntax)"

definition parse_uint :: "nat \<Rightarrow> nat \<Rightarrow> bytes \<Rightarrow> num_error + nat" where
  "parse_uint base bits s =
     (if s = [] then Inl ErrSyntax else parse_digits base (2 ^ bits - 1) 0 s)"

text \<open>
  The value \<open>ParseInt(s, base, bits)\<close> returns, error or not: zero for a syntax error, the
  nearest bound for a number out of range.
\<close>

definition signed_value :: "nat \<Rightarrow> bool \<Rightarrow> num_error + nat \<Rightarrow> int" where
  "signed_value bits neg r =
     (case r of
        Inl ErrSyntax \<Rightarrow> 0
      | Inl ErrRange \<Rightarrow> if neg then - (2 ^ (bits - 1)) else 2 ^ (bits - 1) - 1
      | Inr un \<Rightarrow>
          if \<not> neg \<and> 2 ^ (bits - 1) \<le> int un then 2 ^ (bits - 1) - 1
          else if neg \<and> 2 ^ (bits - 1) < int un then - (2 ^ (bits - 1))
          else if neg then - int un else int un)"

definition parse_int_value :: "nat \<Rightarrow> nat \<Rightarrow> bytes \<Rightarrow> int" where
  "parse_int_value base bits s =
     (case s of
        [] \<Rightarrow> 0
      | c # t \<Rightarrow>
          if c = CHR ''-'' then signed_value bits True (parse_uint base bits t)
          else if c = CHR ''+'' then signed_value bits False (parse_uint base bits t)
          else signed_value bits False (parse_uint base bits s))"

definition atoi_value :: "bytes \<Rightarrow> int" where
  "atoi_value s = parse_int_value 10 64 s"

declare is_digit_def [go_defs] digit_val_def [go_defs] digit_char_def [go_defs]
  parse_uint_def [go_defs] parse_int_value_def [go_defs] signed_value_def [go_defs] atoi_value_def [go_defs]

section \<open>Round trips\<close>

lemma digit_chars [go_num]:
  "digit_char 0 = CHR ''0''" "digit_char 1 = CHR ''1''" "digit_char 2 = CHR ''2''"
  "digit_char 3 = CHR ''3''" "digit_char 4 = CHR ''4''" "digit_char 5 = CHR ''5''"
  "digit_char 6 = CHR ''6''" "digit_char 7 = CHR ''7''" "digit_char 8 = CHR ''8''"
  "digit_char 9 = CHR ''9''"
  by code_simp+

lemma format_uint_small [go_num]: "n < 10 \<Longrightarrow> format_uint n = [digit_char n]"
  by (subst format_uint.simps) simp

lemma format_uint_big [go_num]:
  "10 \<le> n \<Longrightarrow> format_uint n = format_uint (n div 10) @ [digit_char (n mod 10)]"
  by (subst format_uint.simps) simp

lemma digit_char_digit [simp]: "d < 10 \<Longrightarrow> is_digit (digit_char d)"
  by (simp add: is_digit_def digit_char_def)

lemma digit_val_digit_char [simp]: "d < 10 \<Longrightarrow> digit_val (digit_char d) = d"
  by (simp add: digit_val_def digit_char_def)

lemma format_uint_nonempty [simp]: "format_uint n \<noteq> []"
  by (subst format_uint.simps) simp

lemma format_uint_digits: "\<forall>c \<in> set (format_uint n). is_digit c"
proof (induction n rule: format_uint.induct)
  case (1 n)
  then show ?case by (subst format_uint.simps) auto
qed

lemma format_uint_not_in: "\<not> is_digit c \<Longrightarrow> c \<notin> set (format_uint n)"
  using format_uint_digits by blast

lemma parse_digits_append:
  "parse_digits b mx n (s @ t) = go_bind (parse_digits b mx n s) (\<lambda>m. parse_digits b mx m t)"
  by (induction s arbitrary: n) auto

lemma parse_last_digit:
  "d < 10 \<Longrightarrow> a * 10 + d \<le> mx \<Longrightarrow> parse_digits 10 mx a [digit_char d] = Inr (a * 10 + d)"
  by simp

lemma parse_digits_format_uint: "n \<le> mx \<Longrightarrow> parse_digits 10 mx 0 (format_uint n) = Inr n"
proof (induction n rule: format_uint.induct)
  case (1 n)
  show ?case
  proof (cases "n < 10")
    case True
    with 1 show ?thesis by (subst format_uint.simps) simp
  next
    case False
    have "n div 10 \<le> mx" using "1.prems" by (meson div_le_dividend order_trans)
    with False "1.IH" have "parse_digits 10 mx 0 (format_uint (n div 10)) = Inr (n div 10)"
      by simp
    moreover have "parse_digits 10 mx (n div 10) [digit_char (n mod 10)] = Inr n"
      using parse_last_digit [of "n mod 10" "n div 10" mx] "1.prems" by simp
    moreover have "format_uint n = format_uint (n div 10) @ [digit_char (n mod 10)]"
      using False by (subst format_uint.simps) simp
    ultimately show ?thesis by (simp only: parse_digits_append go_bind_Inr)
  qed
qed

lemma parse_format_uint [go_num]: "n < 2 ^ bits \<Longrightarrow> parse_uint 10 bits (format_uint n) = Inr n"
  by (simp add: parse_uint_def parse_digits_format_uint)

lemma format_uint_inj: "format_uint m = format_uint n \<longleftrightarrow> m = n"
proof
  assume eq: "format_uint m = format_uint n"
  have "parse_digits 10 (m + n) 0 (format_uint m) = Inr m"
    by (rule parse_digits_format_uint) simp
  moreover have "parse_digits 10 (m + n) 0 (format_uint n) = Inr n"
    by (rule parse_digits_format_uint) simp
  ultimately show "m = n" unfolding eq by simp
qed simp

lemma parse_digits_bound: "n \<le> mx \<Longrightarrow> parse_digits b mx n s = Inr m \<Longrightarrow> m \<le> mx"
  by (induction s arbitrary: n) (auto split: if_splits simp: not_less)

lemma parse_digits_is_digit: "parse_digits b mx n s = Inr m \<Longrightarrow> \<forall>c \<in> set s. is_digit c"
  by (induction s arbitrary: n) (auto split: if_splits)

lemma parse_uint_bound: "parse_uint b bits s = Inr m \<Longrightarrow> m < 2 ^ bits"
proof -
  assume "parse_uint b bits s = Inr m"
  then have "parse_digits b (2 ^ bits - 1) 0 s = Inr m"
    by (simp add: parse_uint_def split: if_splits)
  from parse_digits_bound [OF _ this] have "m \<le> 2 ^ bits - 1" by simp
  moreover have "(0::nat) < 2 ^ bits" by simp
  ultimately show ?thesis by linarith
qed

lemma parse_uint_digits: "parse_uint b bits s = Inr m \<Longrightarrow> s \<noteq> [] \<and> (\<forall>c \<in> set s. is_digit c)"
  by (auto simp: parse_uint_def split: if_splits dest: parse_digits_is_digit)

lemma atoi_format_uint [go_num]: "n < 2 ^ 63 \<Longrightarrow> atoi_value (format_uint n) = int n"
proof -
  assume n: "n < 2 ^ 63"
  obtain c cs where f: "format_uint n = c # cs"
    by (meson format_uint_nonempty neq_Nil_conv)
  have "is_digit c" using format_uint_digits [of n] by (simp add: f)
  then have "c \<noteq> CHR ''-''" and "c \<noteq> CHR ''+''"
    by (auto simp: is_digit_def byte_val_def)
  moreover have "parse_uint 10 64 (c # cs) = Inr n"
    using parse_format_uint [of n 64] n by (simp add: f)
  ultimately have "atoi_value (format_uint n) = signed_value 64 False (Inr n)"
    by (simp add: atoi_value_def parse_int_value_def f)
  then show ?thesis using n by (simp add: signed_value_def)
qed

lemma signed_value_bounds:
  "- (2 ^ (bits - 1)) \<le> signed_value bits neg r \<and> signed_value bits neg r < 2 ^ (bits - 1)"
proof (cases r)
  case (Inl e)
  have "(0::int) < 2 ^ (bits - 1)" by simp
  with Inl show ?thesis by (cases e) (auto simp: signed_value_def)
next
  case (Inr un)
  have "- p \<le> v \<and> v < p"
    if "0 < p" and "0 \<le> u" and "v = (if \<not> neg \<and> p \<le> u then p - 1
      else if neg \<and> p < u then - p else if neg then - u else u)" for p u v :: int
    using that by (auto split: if_splits)
  from this [of "2 ^ (bits - 1)" "int un"] show ?thesis
    unfolding Inr signed_value_def sum.case by simp
qed

lemma parse_int_value_bounds:
  "- (2 ^ (bits - 1)) \<le> parse_int_value b bits s \<and> parse_int_value b bits s < 2 ^ (bits - 1)"
  using signed_value_bounds [of bits] by (cases s) (simp_all add: parse_int_value_def)

section \<open>Hexadecimal\<close>

definition hex_val :: "char \<Rightarrow> nat option" where
  "hex_val c =
     (let v = byte_val c
      in if 48 \<le> v \<and> v \<le> 57 then Some (v - 48)
         else if 97 \<le> v \<and> v \<le> 102 then Some (v - 87)
         else if 65 \<le> v \<and> v \<le> 70 then Some (v - 55)
         else None)"

text \<open>
  \<open>hex.Decode(dst, src)\<close> with \<open>len(dst) = n\<close>: it writes one byte of \<open>dst\<close> for each pair
  of digits and panics when \<open>dst\<close> is too short, reports an error at a byte that is no
  digit or for an odd length, and leaves the rest of \<open>dst\<close> as it was (zero here).
  \<open>Inr None\<close> is the error return.
\<close>

fun hex_decode :: "nat \<Rightarrow> bytes \<Rightarrow> bytes option go" where
  "hex_decode n [] = Inr (Some (replicate n (byte_of 0)))"
| "hex_decode n [c] = Inr None"
| "hex_decode n (c # d # s) =
     (case hex_val c of
        None \<Rightarrow> Inr None
      | Some a \<Rightarrow>
          (case hex_val d of
             None \<Rightarrow> Inr None
           | Some b \<Rightarrow>
               (case n of
                  0 \<Rightarrow> Inl IndexOutOfRange
                | Suc m \<Rightarrow>
                    go_bind (hex_decode m s)
                      (\<lambda>r. Inr (map_option (\<lambda>bs. byte_of (16 * a + b) # bs) r)))))"

declare hex_val_def [go_defs]

lemma hex_decode_length: "hex_decode n s = Inr (Some bs) \<Longrightarrow> length bs = n"
  by (induction n s arbitrary: bs rule: hex_decode.induct)
    (auto split: option.splits nat.splits simp: go_bind_eq_Inr)

lemma hex_decode_no_panic: "length s \<le> 2 * n + 1 \<Longrightarrow> no_panic (hex_decode n s)"
  by (induction n s rule: hex_decode.induct)
    (auto split: option.splits nat.splits intro!: no_panic_bind)

fun hex_encode :: "bytes \<Rightarrow> bytes" where
  "hex_encode [] = []"
| "hex_encode (b # bs) =
     ''0123456789ABCDEF'' ! (byte_val b div 16) # ''0123456789ABCDEF'' ! (byte_val b mod 16)
       # hex_encode bs"

lemma length_hex_encode [simp]: "length (hex_encode bs) = 2 * length bs"
  by (induction bs) auto

lemma hex_digit_cases: "v < 16 \<Longrightarrow>
  v = 0 \<or> v = 1 \<or> v = 2 \<or> v = 3 \<or> v = 4 \<or> v = 5 \<or> v = 6 \<or> v = 7 \<or> v = 8 \<or> v = 9 \<or>
  v = 10 \<or> v = 11 \<or> v = 12 \<or> v = 13 \<or> v = 14 \<or> v = (15::nat)"
  by arith

lemma hex_val_digit: "v < 16 \<Longrightarrow> hex_val (''0123456789ABCDEF'' ! v) = Some v"
  by (drule hex_digit_cases) (elim disjE; simp add: hex_val_def byte_val_def)

lemma hex_decode_encode [go_num]: "hex_decode (length bs) (hex_encode bs) = Inr (Some bs)"
proof (induction bs)
  case Nil
  then show ?case by simp
next
  case (Cons b bs)
  have "byte_val b div 16 < 16"
    using byte_val_less [of b] by (simp add: less_mult_imp_div_less)
  moreover have "byte_of (16 * (byte_val b div 16) + byte_val b mod 16) = b"
    by (simp add: mult_div_mod_eq)
  ultimately show ?case
    using Cons.IH by (simp add: hex_val_digit)
qed

lemma hex_encode_chars: "set (hex_encode bs) \<subseteq> set ''0123456789ABCDEF''"
proof (induction bs)
  case Nil
  then show ?case by simp
next
  case (Cons b bs)
  have "byte_val b div 16 < length ''0123456789ABCDEF''"
    using byte_val_less [of b] by (simp add: less_mult_imp_div_less)
  then have "''0123456789ABCDEF'' ! (byte_val b div 16) \<in> set ''0123456789ABCDEF''"
    by (rule nth_mem)
  moreover have "''0123456789ABCDEF'' ! (byte_val b mod 16) \<in> set ''0123456789ABCDEF''"
    by (rule nth_mem) simp
  ultimately show ?case
    using Cons.IH by (simp only: hex_encode.simps list.set insert_subset)
qed

end
