(* ===== verification/L7_Types.thy ===== *)
theory L7_Types
imports Go_Numbers
begin

text \<open>
  \<open>pkg/ebpftracer/l7/l7.go\<close>: the protocols, methods and statuses of a traced request, their
  names, and the request record the tracer hands to the containers. A protocol and a method
  are bytes of the kernel event, a status is a Go \<open>int\<close>.
\<close>

section \<open>Protocols\<close>

abbreviation (input) ProtocolHTTP :: u8 where "ProtocolHTTP \<equiv> 1"
abbreviation (input) ProtocolPostgres :: u8 where "ProtocolPostgres \<equiv> 2"
abbreviation (input) ProtocolRedis :: u8 where "ProtocolRedis \<equiv> 3"
abbreviation (input) ProtocolMemcached :: u8 where "ProtocolMemcached \<equiv> 4"
abbreviation (input) ProtocolMysql :: u8 where "ProtocolMysql \<equiv> 5"
abbreviation (input) ProtocolMongo :: u8 where "ProtocolMongo \<equiv> 6"
abbreviation (input) ProtocolKafka :: u8 where "ProtocolKafka \<equiv> 7"
abbreviation (input) ProtocolCassandra :: u8 where "ProtocolCassandra \<equiv> 8"
abbreviation (input) ProtocolRabbitmq :: u8 where "ProtocolRabbitmq \<equiv> 9"
abbreviation (input) ProtocolNats :: u8 where "ProtocolNats \<equiv> 10"
abbreviation (input) ProtocolHTTP2 :: u8 where "ProtocolHTTP2 \<equiv> 11"

definition Protocol_String :: "u8 \<Rightarrow> string" where
  "Protocol_String p =
     (if p = ProtocolHTTP then ''HTTP''
      else if p = ProtocolPostgres then ''Postgres''
      else if p = ProtocolRedis then ''Redis''
      else if p = ProtocolMemcached then ''Memcached''
      else if p = ProtocolMysql then ''Mysql''
      else if p = ProtocolMongo then ''Mongo''
      else if p = ProtocolKafka then ''Kafka''
      else if p = ProtocolCassandra then ''Cassandra''
      else if p = ProtocolRabbitmq then ''Rabbitmq''
      else if p = ProtocolNats then ''NATS''
      else if p = ProtocolHTTP2 then ''HTTP2''
      else ''UNKNOWN:'' @ itoa (uint p))"

section \<open>Methods\<close>

abbreviation (input) MethodUnknown :: u8 where "MethodUnknown \<equiv> 0"
abbreviation (input) MethodProduce :: u8 where "MethodProduce \<equiv> 1"
abbreviation (input) MethodConsume :: u8 where "MethodConsume \<equiv> 2"
abbreviation (input) MethodStatementPrepare :: u8 where "MethodStatementPrepare \<equiv> 3"
abbreviation (input) MethodStatementClose :: u8 where "MethodStatementClose \<equiv> 4"
abbreviation (input) MethodHttp2ClientFrames :: u8 where "MethodHttp2ClientFrames \<equiv> 5"
abbreviation (input) MethodHttp2ServerFrames :: u8 where "MethodHttp2ServerFrames \<equiv> 6"

definition Method_String :: "u8 \<Rightarrow> string" where
  "Method_String m =
     (if m = MethodUnknown then ''unknown''
      else if m = MethodProduce then ''produce''
      else if m = MethodConsume then ''consume''
      else if m = MethodStatementPrepare then ''statement_prepare''
      else if m = MethodStatementClose then ''statement_close''
      else if m = MethodHttp2ClientFrames then ''http2_client_frames''
      else if m = MethodHttp2ServerFrames then ''http2_server_frames''
      else ''UNKNOWN:'' @ itoa (uint m))"

section \<open>Statuses\<close>

abbreviation (input) StatusUnknown :: int where "StatusUnknown \<equiv> 0"
abbreviation (input) StatusOk :: int where "StatusOk \<equiv> 200"
abbreviation (input) StatusFailed :: int where "StatusFailed \<equiv> 500"

definition Status_String :: "int \<Rightarrow> string" where
  "Status_String s =
     (if s = StatusUnknown then ''unknown''
      else if s = StatusOk then ''ok''
      else if s = StatusFailed then ''failed''
      else itoa s)"

definition Status_Http :: "int \<Rightarrow> string" where
  "Status_Http s = itoa s"

definition Status_Error :: "int \<Rightarrow> bool" where
  "Status_Error s = (s = StatusFailed)"

section \<open>Requests\<close>

text \<open>A duration is Go's \<open>time.Duration\<close>, a signed 64-bit count of nanoseconds.\<close>

record RequestData =
  Protocol :: u8
  Status :: int
  Duration :: int
  Method :: u8
  StatementId :: u32
  Payload :: bytes

section \<open>Lemmas\<close>

lemma itoa_uint: "itoa (uint w) = format_uint (unat w)"
  by (simp add: itoa_def)

lemma format_uint_no_minus [simp]: "format_uint n \<noteq> CHR ''-'' # x" "CHR ''-'' # x \<noteq> format_uint n"
proof -
  have m: "CHR ''-'' \<notin> set (format_uint n)"
    by (rule format_uint_not_in) (simp add: is_digit_def byte_val_def)
  show "format_uint n \<noteq> CHR ''-'' # x"
  proof
    assume "format_uint n = CHR ''-'' # x"
    with m show False by simp
  qed
  then show "CHR ''-'' # x \<noteq> format_uint n" by (rule not_sym)
qed

lemma itoa_inj: "itoa i = itoa j \<longleftrightarrow> i = j"
proof (cases "i < 0"; cases "j < 0")
  assume "i < 0" "j < 0"
  moreover from this have "nat (- i) = nat (- j) \<longleftrightarrow> i = j" by linarith
  ultimately show ?thesis by (simp add: itoa_def format_uint_inj)
next
  assume "i < 0" "\<not> j < 0"
  then show ?thesis by (auto simp: itoa_def format_uint_no_minus)
next
  assume "\<not> i < 0" "j < 0"
  then show ?thesis by (auto simp: itoa_def format_uint_no_minus)
next
  assume "\<not> i < 0" "\<not> j < 0"
  moreover from this have "nat i = nat j \<longleftrightarrow> i = j" by linarith
  ultimately show ?thesis by (simp add: itoa_def format_uint_inj)
qed

lemma itoa_letter: "c \<noteq> CHR ''-'' \<Longrightarrow> \<not> is_digit c \<Longrightarrow> c \<notin> set (itoa i)"
  by (simp add: itoa_def format_uint_not_in)

lemma Protocol_String_known:
  "Protocol_String p = ''UNKNOWN:'' @ s \<Longrightarrow> s = itoa (uint p)"
  by (simp add: Protocol_String_def split: if_splits)

end
