(* ===== verification/Go_Strings.thy ===== *)
theory Go_Strings
imports Prelude
begin

text \<open>
  The functions of Go's \<open>bytes\<close> and \<open>strings\<close> packages the agent calls, written as their
  documentation describes them: \<open>Cut\<close>, \<open>HasPrefix\<close>, \<open>HasSuffix\<close>, \<open>Contains\<close>,
  \<open>Split\<close>, \<open>SplitN\<close>, \<open>Fields\<close>, \<open>TrimLeft\<close>, \<open>TrimSpace\<close> and the trimming of a prefix.
\<close>

section \<open>Searching\<close>

definition has_prefix :: "bytes \<Rightarrow> bytes \<Rightarrow> bool" where
  "has_prefix s p = (take (length p) s = p)"

definition has_suffix :: "bytes \<Rightarrow> bytes \<Rightarrow> bool" where
  "has_suffix s p = has_prefix (rev s) (rev p)"

declare has_prefix_def [go_defs] has_suffix_def [go_defs]

lemma has_prefix_append [simp]: "has_prefix (p @ s) p"
  by (simp add: has_prefix_def)

lemma has_prefix_iff: "has_prefix s p \<longleftrightarrow> (\<exists>r. s = p @ r)"
  unfolding has_prefix_def by (metis append_eq_conv_conj append_take_drop_id)

lemma has_suffix_iff: "has_suffix s p \<longleftrightarrow> (\<exists>r. s = r @ p)"
proof -
  have "has_suffix s p \<longleftrightarrow> (\<exists>r. rev s = rev p @ r)"
    by (simp add: has_suffix_def has_prefix_iff)
  also have "\<dots> \<longleftrightarrow> (\<exists>r. s = r @ p)"
    by (metis rev_append rev_rev_ident)
  finally show ?thesis .
qed

text \<open>\<open>bytes.Index\<close>: where \<open>sep\<close> first occurs.\<close>

fun index_of :: "bytes \<Rightarrow> bytes \<Rightarrow> nat option" where
  "index_of [] sep = (if sep = [] then Some 0 else None)"
| "index_of (x # xs) sep =
     (if has_prefix (x # xs) sep then Some 0 else map_option Suc (index_of xs sep))"

definition contains :: "bytes \<Rightarrow> bytes \<Rightarrow> bool" where
  "contains s sub = (index_of s sub \<noteq> None)"

text \<open>\<open>bytes.IndexByte\<close>.\<close>

definition index_byte :: "bytes \<Rightarrow> char \<Rightarrow> nat option" where
  "index_byte s c = index_of s [c]"

declare contains_def [go_defs] index_byte_def [go_defs]

lemma index_of_SomeD:
  "index_of s sep = Some i \<Longrightarrow> i + length sep \<le> length s \<and> take (length sep) (drop i s) = sep"
proof (induction s sep arbitrary: i rule: index_of.induct)
  case (1 sep)
  then show ?case by (auto split: if_splits)
next
  case (2 x xs sep)
  show ?case
  proof (cases "has_prefix (x # xs) sep")
    case True
    then have "length sep \<le> length (x # xs)"
      unfolding has_prefix_iff by (metis le_add1 length_append)
    with True 2 show ?thesis by (auto simp: has_prefix_def)
  next
    case False
    with 2 show ?thesis by (auto split: if_splits)
  qed
qed

lemma index_of_iff: "contains s sub \<longleftrightarrow> (\<exists>p q. s = p @ sub @ q)"
proof
  assume "contains s sub"
  then obtain i where "index_of s sub = Some i" by (auto simp: contains_def)
  from index_of_SomeD [OF this] have "take (length sub) (drop i s) = sub" by simp
  then have "s = take i s @ sub @ drop (length sub) (drop i s)"
    by (metis append_take_drop_id)
  then show "\<exists>p q. s = p @ sub @ q" by blast
next
  assume "\<exists>p q. s = p @ sub @ q"
  then obtain p q where s: "s = p @ sub @ q" by blast
  have "index_of (p @ sub @ q) sub \<noteq> None"
  proof (induction p)
    case Nil
    have "has_prefix (sub @ q) sub" by simp
    then show ?case by (cases "sub @ q") auto
  next
    case (Cons a p)
    then show ?case by simp
  qed
  then show "contains s sub" by (simp add: contains_def s)
qed

section \<open>Cutting and splitting\<close>

text \<open>\<open>bytes.Cut(s, sep)\<close>: what is before and after the first \<open>sep\<close>, and whether it was found.\<close>

definition cut :: "bytes \<Rightarrow> bytes \<Rightarrow> bytes \<times> bytes \<times> bool" where
  "cut s sep =
     (case index_of s sep of
        Some i \<Rightarrow> (take i s, drop (i + length sep) s, True)
      | None \<Rightarrow> (s, [], False))"

declare cut_def [go_defs]

lemma index_of_char: "index_of s [c] = (if c \<in> set s then Some (length (takeWhile (\<lambda>x. x \<noteq> c) s)) else None)"
  by (induction s) (auto simp: has_prefix_def)

lemma index_of_append_head:
  "c \<notin> set k \<Longrightarrow> index_of (k @ (c # d) @ r) (c # d) = Some (length k)"
  by (induction k) (auto simp: has_prefix_def)

lemma index_of_absent_head: "c \<notin> set s \<Longrightarrow> index_of s (c # d) = None"
  by (induction s) (auto simp: has_prefix_def)

lemma cut_found [go_cut]: "c \<notin> set k \<Longrightarrow> cut (k @ (c # d) @ r) (c # d) = (k, r, True)"
  unfolding cut_def index_of_append_head by simp

lemma cut_found1 [go_cut]: "c \<notin> set k \<Longrightarrow> cut (k @ c # r) [c] = (k, r, True)"
  using cut_found [of c k "[]" r] by simp

lemma cut_found2 [go_cut]: "c \<notin> set k \<Longrightarrow> cut (k @ c # d # r) [c, d] = (k, r, True)"
  using cut_found [of c k "[d]" r] by simp

lemma cut_absent [go_cut]: "c \<notin> set s \<Longrightarrow> cut s (c # d) = (s, [], False)"
  by (simp add: cut_def index_of_absent_head)

lemma cut_char: "cut s [c] =
  (if c \<in> set s then (takeWhile (\<lambda>x. x \<noteq> c) s, tl (dropWhile (\<lambda>x. x \<noteq> c) s), True)
   else (s, [], False))"
proof (cases "c \<in> set s")
  case True
  then obtain k r where s: "s = k @ c # r" and k: "c \<notin> set k"
    by (meson split_list_first)
  then show ?thesis by (simp add: cut_found1)
next
  case False
  then show ?thesis by (simp add: cut_absent)
qed

lemma cut_joins: "cut s sep = (a, b, True) \<Longrightarrow> s = a @ sep @ b"
  unfolding cut_def
  by (auto split: option.splits dest!: index_of_SomeD)
    (metis add.commute append_take_drop_id drop_drop)

lemma cut_not_found: "cut s sep = (a, b, False) \<Longrightarrow> a = s \<and> b = []"
  unfolding cut_def by (auto split: option.splits)

lemma cut_length: "cut s sep = (a, b, ok) \<Longrightarrow> length a + length b \<le> length s"
  by (cases ok) (auto dest: cut_joins cut_not_found)

text \<open>\<open>strings.Split(s, string(c))\<close> for a one-byte separator.\<close>

fun split_char :: "char \<Rightarrow> bytes \<Rightarrow> bytes list" where
  "split_char c [] = [[]]"
| "split_char c (x # xs) =
     (if x = c then [] # split_char c xs
      else (case split_char c xs of [] \<Rightarrow> [[x]] | p # ps \<Rightarrow> (x # p) # ps))"

lemma split_char_not_Nil [simp]: "split_char c s \<noteq> []"
  by (cases s) (auto split: list.splits)

lemma split_char_absent [go_cut]: "c \<notin> set s \<Longrightarrow> split_char c s = [s]"
  by (induction s) auto

lemma split_char_append [go_cut]:
  "c \<notin> set k \<Longrightarrow> split_char c (k @ c # s) = k # split_char c s"
  by (induction k) auto

lemma split_char_parts: "p \<in> set (split_char c s) \<Longrightarrow> c \<notin> set p"
  by (induction s arbitrary: p) (auto split: list.splits if_splits)

text \<open>The parts of a split, joined with the separator, are the string that was split.\<close>

fun join_char :: "char \<Rightarrow> bytes list \<Rightarrow> bytes" where
  "join_char c [] = []"
| "join_char c [p] = p"
| "join_char c (p # q # ps) = p @ c # join_char c (q # ps)"

lemma join_char_Cons: "ps \<noteq> [] \<Longrightarrow> join_char c (p # ps) = p @ c # join_char c ps"
  by (cases ps) auto

lemma join_split_char: "join_char c (split_char c s) = s"
proof (induction s)
  case Nil
  then show ?case by simp
next
  case (Cons x xs)
  obtain p ps where sp: "split_char c xs = p # ps"
    by (meson neq_Nil_conv split_char_not_Nil)
  show ?case
    using Cons.IH by (cases ps) (auto simp: sp)
qed

lemma join_char_absent:
  "x \<noteq> c \<Longrightarrow> \<forall>p \<in> set ps. x \<notin> set p \<Longrightarrow> x \<notin> set (join_char c ps)"
  by (induction c ps rule: join_char.induct) auto

lemma split_join_char [go_cut]:
  "ps \<noteq> [] \<Longrightarrow> \<forall>p \<in> set ps. c \<notin> set p \<Longrightarrow> split_char c (join_char c ps) = ps"
  by (induction ps rule: join_char.induct) (auto simp: split_char_append split_char_absent)

text \<open>\<open>strings.SplitN(s, string(c), n)\<close> for \<open>n > 0\<close>: at most \<open>n\<close> parts.\<close>

fun splitn_char :: "char \<Rightarrow> nat \<Rightarrow> bytes \<Rightarrow> bytes list" where
  "splitn_char c 0 s = []"
| "splitn_char c (Suc 0) s = [s]"
| "splitn_char c (Suc (Suc n)) s =
     (case cut s [c] of (a, b, ok) \<Rightarrow> if ok then a # splitn_char c (Suc n) b else [a])"

lemma length_splitn_char: "length (splitn_char c n s) \<le> n"
  by (induction c n s rule: splitn_char.induct) (auto split: prod.splits)

section \<open>White space and trimming\<close>

text \<open>The ASCII white space of \<open>strings.Fields\<close> and \<open>strings.TrimSpace\<close>.\<close>

definition is_space :: "char \<Rightarrow> bool" where
  "is_space c = (c = CHR '' '' \<or> byte_val c \<in> {9, 10, 11, 12, 13})"

definition trim_space :: "bytes \<Rightarrow> bytes" where
  "trim_space s = rev (dropWhile is_space (rev (dropWhile is_space s)))"

definition trim_prefix :: "bytes \<Rightarrow> bytes \<Rightarrow> bytes" where
  "trim_prefix s p = (if has_prefix s p then drop (length p) s else s)"

text \<open>\<open>strings.TrimLeft(s, string(c))\<close>.\<close>

definition trim_left :: "bytes \<Rightarrow> char \<Rightarrow> bytes" where
  "trim_left s c = dropWhile (\<lambda>x. x = c) s"

function fields :: "bytes \<Rightarrow> bytes list" where
  "fields s =
     (let t = dropWhile is_space s
      in if t = [] then []
         else takeWhile (\<lambda>x. \<not> is_space x) t # fields (dropWhile (\<lambda>x. \<not> is_space x) t))"
  by pat_completeness auto
termination
proof (relation "measure length")
  fix s t :: bytes
  assume t: "t = dropWhile is_space s" and ne: "t \<noteq> []"
  have "\<not> is_space (hd t)"
    using ne unfolding t by (metis (full_types) hd_dropWhile dropWhile_eq_Nil_conv)
  then have "length (dropWhile (\<lambda>x. \<not> is_space x) t) < length t"
    using ne by (cases t) (auto simp: length_dropWhile_le less_Suc_eq_le)
  also have "length t \<le> length s" by (simp add: t length_dropWhile_le)
  finally show "(dropWhile (\<lambda>x. \<not> is_space x) t, s) \<in> measure length" by simp
qed simp

declare fields.simps [simp del]
declare is_space_def [go_defs] trim_space_def [go_defs] trim_prefix_def [go_defs]
  trim_left_def [go_defs]

end
