(* ===== verification/L7_Text.thy ===== *)
theory L7_Text
imports L7_Types Go_Strings
begin

text \<open>
  The stateless parsers of \<open>pkg/ebpftracer/l7\<close>: \<open>http.go\<close>, \<open>memcached.go\<close>, \<open>redis.go\<close>
  and \<open>mongo.go\<close>, with the checks on HTTP methods, paths and schemes of \<open>http2.go\<close>. Each
  takes the captured start of a request and returns what the agent reports; Go's nil slice of
  items is the empty list. Wire encoders of the protocols, stated beside the parsers, give the
  round trips.
\<close>

section \<open>HTTP\<close>

abbreviation (input) space :: bytes where "space \<equiv> '' ''"
abbreviation (input) crlf :: bytes where "crlf \<equiv> [CHR 0x0D, CHR 0x0A]"

definition isHttpMethod :: "string \<Rightarrow> bool" where
  "isHttpMethod s =
     (s \<in> {''GET'', ''HEAD'', ''POST'', ''PUT'', ''PATCH'', ''DELETE'', ''CONNECT'', ''OPTIONS'',
           ''TRACE''})"

definition isHttpPath :: "string \<Rightarrow> bool" where
  "isHttpPath s = (has_prefix s ''/'' \<or> s = ''*'')"

definition isHttpScheme :: "string \<Rightarrow> bool" where
  "isHttpScheme s = (s = ''http'' \<or> s = ''https'')"

definition ParseHttp :: "bytes \<Rightarrow> string \<times> string" where
  "ParseHttp payload =
     (case cut payload space of
        (method, rest, ok) \<Rightarrow>
          if \<not> ok then ('''', '''')
          else if \<not> isHttpMethod method then ('''', '''')
          else (case cut rest space of
                  (uri, _, ok') \<Rightarrow> (method, if ok' then uri else uri @ ''...'')))"

lemma isHttpMethod_no_space: "isHttpMethod m \<Longrightarrow> CHR '' '' \<notin> set m"
  by (auto simp: isHttpMethod_def)

lemma isHttpMethod_nonempty: "isHttpMethod m \<Longrightarrow> m \<noteq> []"
  by (auto simp: isHttpMethod_def)

lemma ParseHttp_complete:
  assumes "isHttpMethod m" and "CHR '' '' \<notin> set uri"
  shows "ParseHttp (m @ CHR '' '' # uri @ CHR '' '' # rest) = (m, uri)"
    and "ParseHttp (m @ CHR '' '' # uri) = (m, uri @ ''...'')"
  using assms by (simp_all add: ParseHttp_def go_cut isHttpMethod_no_space)

lemma ParseHttp_sound:
  assumes "ParseHttp payload = (m, u)" and "m \<noteq> []"
  shows "isHttpMethod m \<and>
    ((\<exists>rest. payload = m @ CHR '' '' # u @ CHR '' '' # rest \<and> CHR '' '' \<notin> set u) \<or>
     (\<exists>uri. payload = m @ CHR '' '' # uri \<and> CHR '' '' \<notin> set uri \<and> u = uri @ ''...''))"
proof -
  obtain rest where c: "cut payload space = (m, rest, True)" and meth: "isHttpMethod m"
    using assms by (auto simp: ParseHttp_def split: prod.splits if_splits)
  from cut_joins [OF c] have p: "payload = m @ CHR '' '' # rest" by simp
  show ?thesis
  proof (cases "CHR '' '' \<in> set rest")
    case True
    then obtain uri rest' where r: "rest = uri @ CHR '' '' # rest'" and n: "CHR '' '' \<notin> set uri"
      by (meson split_list_first)
    have "u = uri" using assms c meth n by (simp add: ParseHttp_def r go_cut)
    with p r n meth show ?thesis by auto
  next
    case False
    then have "u = rest @ ''...''" using assms c meth by (simp add: ParseHttp_def go_cut)
    with False p meth show ?thesis by auto
  qed
qed

section \<open>Memcached\<close>

definition memcached_storage :: "string \<Rightarrow> bool" where
  "memcached_storage command =
     (command \<in> {''set'', ''add'', ''cas'', ''append'', ''prepend'', ''replace'', ''delete'',
                 ''incr'', ''decr'', ''touch''})"

definition ParseMemcached :: "bytes \<Rightarrow> string \<times> string list" where
  "ParseMemcached payload =
     (case cut payload space of
        (command, rest, ok) \<Rightarrow>
          if \<not> ok then ('''', [])
          else if memcached_storage command then
            (case cut rest space of
               (key, _, ok') \<Rightarrow> if ok' then (command, [key]) else ('''', []))
          else if command \<in> {''gat'', ''gats''} then
            (case cut rest space of
               (_, rest', ok') \<Rightarrow>
                 if ok' then
                   (case cut rest' crlf of
                      (keys, _, ok'') \<Rightarrow>
                        if ok'' then (command, split_char (CHR '' '') keys) else ('''', []))
                 else ('''', []))
          else if command \<in> {''get'', ''gets''} then
            (case cut rest crlf of
               (keys, _, ok') \<Rightarrow>
                 if ok' then (command, split_char (CHR '' '') keys) else ('''', []))
          else ('''', []))"

text \<open>A key of the text protocol holds no space and no control character.\<close>

definition memcached_key :: "bytes \<Rightarrow> bool" where
  "memcached_key k = (CHR '' '' \<notin> set k \<and> CHR 0x0D \<notin> set k)"

lemma memcached_join_no_cr:
  "\<forall>k \<in> set ks. memcached_key k \<Longrightarrow> CHR 0x0D \<notin> set (join_char (CHR '' '') ks)"
  by (rule join_char_absent) (auto simp: memcached_key_def)

lemma memcached_split_join:
  "ks \<noteq> [] \<Longrightarrow> \<forall>k \<in> set ks. memcached_key k \<Longrightarrow>
   split_char (CHR '' '') (join_char (CHR '' '') ks) = ks"
  by (rule split_join_char) (auto simp: memcached_key_def)

lemma memcached_storage_no_space: "memcached_storage c \<Longrightarrow> CHR '' '' \<notin> set c"
  by (auto simp: memcached_storage_def)

section \<open>Redis\<close>

text \<open>
  \<open>readString\<close> of \<open>ParseRedis\<close>: the closure reads a length line and then the string up to the
  next line end, and moves \<open>rest\<close> on. Where a read fails it returns the empty string.
\<close>

definition redis_readString :: "bytes \<Rightarrow> string \<times> bytes" where
  "redis_readString rest =
     (case cut rest crlf of
        (v, rest1, ok) \<Rightarrow>
          if \<not> ok \<or> \<not> has_prefix v ''$'' then ('''', rest1)
          else (case cut rest1 crlf of
                  (v', rest2, ok') \<Rightarrow> (if ok' then v' else '''', rest2)))"

definition ParseRedis :: "bytes \<Rightarrow> string \<times> string" where
  "ParseRedis payload =
     (case cut payload crlf of
        (v, rest, ok) \<Rightarrow>
          if \<not> ok \<or> \<not> has_prefix v ''*'' then ('''', '''')
          else (case parse_uint 10 32 (drop 1 v) of
                  Inl e \<Rightarrow> ('''', '''')
                | Inr arrayLen \<Rightarrow>
                    (case redis_readString rest of
                       (cmd, rest1) \<Rightarrow>
                         if cmd = '''' then (cmd, '''')
                         else if arrayLen > 1 then
                           (case redis_readString rest1 of
                              (args, rest2) \<Rightarrow>
                                (cmd, if arrayLen > 2 then args @ '' ...'' else args))
                         else (cmd, ''''))))"

text \<open>The wire form of a command: an array of bulk strings.\<close>

definition redis_bulk :: "bytes \<Rightarrow> bytes" where
  "redis_bulk s = ''$'' @ format_uint (length s) @ crlf @ s @ crlf"

definition redis_command :: "bytes list \<Rightarrow> bytes" where
  "redis_command ws = ''*'' @ format_uint (length ws) @ crlf @ concat (map redis_bulk ws)"

lemma format_uint_no_cr: "CHR 0x0D \<notin> set (format_uint n)"
  by (rule format_uint_not_in) (simp add: is_digit_def byte_val_def)

text \<open>Cutting at the first CRLF, when a CRLF is known to follow.\<close>

lemma index_of_crlf:
  "index_of (s @ crlf @ r) crlf = Some (case index_of s crlf of None \<Rightarrow> length s | Some i \<Rightarrow> i)"
proof (induction s)
  case Nil
  then show ?case by (simp add: has_prefix_def)
next
  case (Cons x s)
  then show ?case by (cases s) (auto simp: has_prefix_def split: option.split)
qed

lemma cut_crlf:
  "fst (cut (s @ crlf @ r) crlf) = fst (cut s crlf)" "snd (snd (cut (s @ crlf @ r) crlf))"
  "\<not> contains s crlf \<Longrightarrow> cut (s @ crlf @ r) crlf = (s, r, True)"
proof -
  show "fst (cut (s @ crlf @ r) crlf) = fst (cut s crlf)" "snd (snd (cut (s @ crlf @ r) crlf))"
    unfolding cut_def index_of_crlf using index_of_SomeD [of s crlf]
    by (auto split: option.split)
  show "\<not> contains s crlf \<Longrightarrow> cut (s @ crlf @ r) crlf = (s, r, True)"
    unfolding cut_def index_of_crlf contains_def by simp
qed
lemma redis_readString_bulk:
  shows "fst (redis_readString (redis_bulk s @ r)) = fst (cut s crlf)"
    and "\<not> contains s crlf \<Longrightarrow> redis_readString (redis_bulk s @ r) = (s, r)"
proof -
  have "CHR 0x0D \<notin> set (''$'' @ format_uint (length s))" by (simp add: format_uint_no_cr)
  from cut_found2 [OF this]
  have "cut (redis_bulk s @ r) crlf = (''$'' @ format_uint (length s), s @ crlf @ r, True)"
    by (simp add: redis_bulk_def)
  then show "fst (redis_readString (redis_bulk s @ r)) = fst (cut s crlf)"
    and "\<not> contains s crlf \<Longrightarrow> redis_readString (redis_bulk s @ r) = (s, r)"
    using cut_crlf [of s r]
    unfolding redis_readString_def by (auto simp: has_prefix_def split: prod.split)
qed

lemma redis_header:
  "cut (redis_command ws @ r) crlf =
     (''*'' @ format_uint (length ws), concat (map redis_bulk ws) @ r, True)"
proof -
  have "CHR 0x0D \<notin> set (''*'' @ format_uint (length ws))" by (simp add: format_uint_no_cr)
  from cut_found2 [OF this] show ?thesis by (simp add: redis_command_def)
qed

section \<open>Mongo\<close>

abbreviation (input) MongoOpMSG :: u32 where "MongoOpMSG \<equiv> 2013"
abbreviation (input) mongoHeaderLength :: nat where "mongoHeaderLength \<equiv> 20"
abbreviation (input) mongoOpCodeOffset :: nat where "mongoOpCodeOffset \<equiv> 12"
abbreviation (input) mongoSectionKindLength :: nat where "mongoSectionKindLength \<equiv> 1"
abbreviation (input) mongoSectionSizeLength :: nat where "mongoSectionSizeLength \<equiv> 4"
abbreviation (input) mongoSectionKindBody :: nat where "mongoSectionKindBody \<equiv> 0"

text \<open>\<open>bson_String\<close> is \<open>bson.Raw.String\<close> of the MongoDB driver.\<close>

definition ParseMongo :: "(bytes \<Rightarrow> string) \<Rightarrow> bytes \<Rightarrow> string go" where
  "ParseMongo bson_String payload =
     (if length payload < mongoHeaderLength + mongoSectionKindLength + mongoSectionSizeLength
      then Inr ''<truncated>''
      else
        go_bind (slice_from payload mongoOpCodeOffset) (\<lambda>tl_op.
        go_bind (LE_u32 tl_op) (\<lambda>opCode.
          if opCode \<noteq> MongoOpMSG then Inr ''<truncated>''
          else
            go_bind (idx payload mongoHeaderLength) (\<lambda>sectionKind.
              if byte_val sectionKind \<noteq> mongoSectionKindBody then Inr ''<truncated>''
              else
                go_bind (slice_from payload (mongoHeaderLength + mongoSectionKindLength)) (\<lambda>sectionData.
                go_bind (LE_u32 sectionData) (\<lambda>sectionLength.
                  if sectionLength < 1 \<or> unat sectionLength > length sectionData
                  then Inr ''<truncated>''
                  else Inr (bson_String sectionData)))))))"

text \<open>
  The message the driver sends: the header words up to the operation code, the code, the flags,
  the kind of the section and its document, whose first word is its own length.
\<close>

definition mongo_op_msg :: "bytes \<Rightarrow> u32 \<Rightarrow> u32 \<Rightarrow> bytes \<Rightarrow> bytes" where
  "mongo_op_msg hdr op flags doc =
     hdr @ le_bytes 4 (unat op) @ le_bytes 4 (unat flags) @ byte_of 0 # doc"

definition bson_doc :: "bytes \<Rightarrow> bytes" where
  "bson_doc body = le_bytes 4 (length body + 4) @ body"

lemma mongo_msg_parts:
  assumes "length hdr = 12" and "25 \<le> n" and "n \<le> length (mongo_op_msg hdr op flags (bson_doc body))"
  shows "take 4 (drop 12 (take n (mongo_op_msg hdr op flags (bson_doc body)))) = le_bytes 4 (unat op)"
    and "take n (mongo_op_msg hdr op flags (bson_doc body)) ! 20 = byte_of 0"
    and "drop 21 (take n (mongo_op_msg hdr op flags (bson_doc body))) =
      le_bytes 4 (length body + 4) @ take (n - 25) body"
proof -
  let ?m = "mongo_op_msg hdr op flags (bson_doc body)"
  obtain j where n: "n = 25 + j" using assms(2) le_Suc_ex by blast
  show "take 4 (drop 12 (take n ?m)) = le_bytes 4 (unat op)"
    using assms(1) by (simp add: n mongo_op_msg_def take_drop)
  show "take n ?m ! 20 = byte_of 0"
    using assms(1) by (simp add: n mongo_op_msg_def nth_append)
  show "drop 21 (take n ?m) = le_bytes 4 (length body + 4) @ take (n - 25) body"
    using assms(1) by (simp add: n mongo_op_msg_def bson_doc_def drop_take)
qed

lemma word_of_nat_small: "k < 2 ^ 32 \<Longrightarrow> unat (word_of_nat k :: u32) = k"
  by (simp add: unat_of_nat)

section \<open>Properties\<close>

text \<open>C13: \<open>ParseHttp\<close> reports a method exactly when the payload is a request line that starts with
  one of the nine HTTP methods and a space, and then the URI is what stands before the next
  space, or, when the capture ends inside the URI, all of the rest with an ellipsis.\<close>
theorem http_request_line:
  "(ParseHttp payload = (m, u) \<and> m \<noteq> '''') =
   (isHttpMethod m \<and>
    ((\<exists>rest. payload = m @ CHR '' '' # u @ CHR '' '' # rest \<and> CHR '' '' \<notin> set u) \<or>
     (\<exists>uri. payload = m @ CHR '' '' # uri \<and> CHR '' '' \<notin> set uri \<and> u = uri @ ''...'')))"
  using ParseHttp_complete ParseHttp_sound isHttpMethod_nonempty by blast

text \<open>\<open>ParseMemcached\<close> inverts the text protocol for the retrieval commands: a \<open>get\<close> or
  \<open>gets\<close> line, and a \<open>gat\<close> or \<open>gats\<close> line with its expiration time, give back all of their
  keys in order, whatever follows the line.\<close>
theorem memcached_retrieval_roundtrip:
  assumes "ks \<noteq> []" and "\<forall>k \<in> set ks. memcached_key k" and "memcached_key exptime"
  shows "(c = ''get'' \<or> c = ''gets'' \<longrightarrow>
      ParseMemcached (c @ '' '' @ join_char (CHR '' '') ks @ crlf @ rest) = (c, ks)) \<and>
    (c = ''gat'' \<or> c = ''gats'' \<longrightarrow>
      ParseMemcached (c @ '' '' @ exptime @ '' '' @ join_char (CHR '' '') ks @ crlf @ rest) = (c, ks))"
proof -
  let ?j = "join_char (CHR '' '') ks"
  have l: "cut (?j @ crlf @ rest) crlf = (?j, rest, True)"
    using cut_found2 [OF memcached_join_no_cr [OF assms(2)]] by simp
  have sp: "split_char (CHR '' '') ?j = ks" by (rule memcached_split_join [OF assms(1,2)])
  have e: "cut (exptime @ CHR '' '' # ?j @ crlf @ rest) space = (exptime, ?j @ crlf @ rest, True)"
    using assms(3) by (intro cut_found1) (simp add: memcached_key_def)
  have get: "ParseMemcached (c @ CHR '' '' # ?j @ crlf @ rest) = (c, ks)"
    if "c \<in> {''get'', ''gets''}"
  proof -
    have "cut (c @ CHR '' '' # ?j @ crlf @ rest) space = (c, ?j @ crlf @ rest, True)"
      using that by (intro cut_found1) auto
    moreover have "\<not> memcached_storage c \<and> c \<notin> {''gat'', ''gats''}"
      using that by (auto simp: memcached_storage_def)
    ultimately show ?thesis using that l sp by (simp add: ParseMemcached_def)
  qed
  have gat: "ParseMemcached (c @ CHR '' '' # exptime @ CHR '' '' # ?j @ crlf @ rest) = (c, ks)"
    if "c \<in> {''gat'', ''gats''}"
  proof -
    have "cut (c @ CHR '' '' # exptime @ CHR '' '' # ?j @ crlf @ rest) space =
        (c, exptime @ CHR '' '' # ?j @ crlf @ rest, True)"
      using that by (intro cut_found1) auto
    moreover have "\<not> memcached_storage c"
      using that by (auto simp: memcached_storage_def)
    ultimately show ?thesis using that l sp e by (simp add: ParseMemcached_def)
  qed
  show ?thesis using get gat by simp
qed

theorem memcached_retrieval_roundtrip_witness:
  "ParseMemcached (''gets'' @ '' '' @ join_char (CHR '' '') [''1111'', ''2222''] @ crlf @ ''x'') =
     (''gets'', [''1111'', ''2222''])"
  using memcached_retrieval_roundtrip [of "[''1111'', ''2222'']" "''0''" "''gets''" "''x''"]
  by (simp add: memcached_key_def)

text \<open>The storage commands need a space after the key. One with an argument after the key is
  reported with that key, but a request line that ends right after the key is not recognised at
  all: so \<open>delete <key>\<close>, the usual form of that command, is dropped.\<close>
theorem memcached_key_needs_argument:
  assumes "memcached_storage c" and "memcached_key k"
  shows "ParseMemcached (c @ '' '' @ k @ '' '' @ args) = (c, [k]) \<and>
    ParseMemcached (c @ '' '' @ k @ crlf) = ('''', [])"
proof -
  have k: "CHR '' '' \<notin> set k" using assms(2) by (simp add: memcached_key_def)
  have c: "cut (c @ CHR '' '' # x) space = (c, x, True)" for x
    by (rule cut_found1 [OF memcached_storage_no_space [OF assms(1)]])
  have "cut (k @ crlf) space = (k @ crlf, [], False)"
    by (rule cut_absent) (use k in simp)
  then show ?thesis
    using assms(1) by (simp add: ParseMemcached_def c cut_found1 [OF k])
qed

theorem memcached_key_needs_argument_witness:
  "ParseMemcached (''incr'' @ '' '' @ ''1111'' @ '' '' @ ''2'') = (''incr'', [''1111'']) \<and>
   ParseMemcached (''incr'' @ '' '' @ ''1111'' @ crlf) = ('''', [])"
  by (rule memcached_key_needs_argument) (simp_all add: memcached_storage_def memcached_key_def)

text \<open>C14: \<open>ParseRedis\<close> on a command in the wire form of the protocol (an array of bulk strings,
  whatever follows it), whose name is not empty and has no CRLF in it. The command is read back as its name and its first
  argument, with an ellipsis when there are more arguments. The arguments are arbitrary bytes; of
  the first, the parser reports the part before its first CRLF, which is the whole argument
  exactly when there is no CRLF in it, since the code looks for a CRLF and does not use
  the string's length.\<close>
theorem redis_command_roundtrip:
  assumes "ws \<noteq> []" and "hd ws \<noteq> ''''" and "\<not> contains (hd ws) crlf" and "length ws < 2 ^ 32"
  shows "ParseRedis (redis_command ws @ r) =
    (hd ws, case tl ws of [] \<Rightarrow> '''' | [a] \<Rightarrow> fst (cut a crlf) | a # _ # _ \<Rightarrow> fst (cut a crlf) @ '' ...'') \<and>
    (\<forall>a. fst (cut a crlf) = a \<longleftrightarrow> \<not> contains a crlf)"
proof -
  obtain w ws' where ws: "ws = w # ws'" using assms(1) by (cases ws) auto
  have n: "parse_uint 10 32 (drop 1 (''*'' @ format_uint (length ws))) = Inr (length ws)"
    using assms(4) by (simp add: parse_format_uint)
  have p: "has_prefix (''*'' @ format_uint (length ws)) ''*''" by (rule has_prefix_append)
  have "fst (cut a crlf) = a \<longleftrightarrow> \<not> contains a crlf" for a
    using index_of_SomeD [of a crlf] by (auto simp: cut_def contains_def split: option.split)
  moreover have "ParseRedis (redis_command ws @ r) =
    (hd ws, case tl ws of [] \<Rightarrow> '''' | [a] \<Rightarrow> fst (cut a crlf) | a # _ # _ \<Rightarrow> fst (cut a crlf) @ '' ...'')"
    using assms(2,3) n p
    by (cases ws'; cases "tl ws'")
      (auto simp: ParseRedis_def redis_header ws redis_readString_bulk case_prod_unfold split: list.splits)
  ultimately show ?thesis by blast
qed

theorem redis_command_roundtrip_witness:
  "ParseRedis (redis_command [''SET'', ''my'' @ crlf @ ''list'', ''xy''] @ []) = (''SET'', ''my ...'')"
proof -
  have "fst (cut (''my'' @ crlf @ ''list'') crlf) = ''my''"
    by (simp add: go_defs)
  then show ?thesis
    using redis_command_roundtrip [of "[''SET'', ''my'' @ crlf @ ''list'', ''xy'']" "[]"]
    by (simp add: contains_def has_prefix_def)
qed

text \<open>\<open>ParseMongo\<close> on any prefix of an \<open>OP_MSG\<close> message with one body section: it never
  panics, it reports the document when the whole message was captured, and \<open><truncated>\<close> for
  every shorter prefix, whatever the flags and the rest of the header are.\<close>
theorem mongo_truncation:
  assumes "length hdr = 12" and "length body + 4 < 2 ^ 32"
    and "n \<le> length (mongo_op_msg hdr MongoOpMSG flags (bson_doc body))"
  shows "ParseMongo bson_String (take n (mongo_op_msg hdr MongoOpMSG flags (bson_doc body))) =
    Inr (if n = length (mongo_op_msg hdr MongoOpMSG flags (bson_doc body))
         then bson_String (bson_doc body) else ''<truncated>'')"
proof -
  let ?m = "mongo_op_msg hdr MongoOpMSG flags (bson_doc body)"
  have len: "length ?m = 25 + length body"
    using assms(1) by (simp add: mongo_op_msg_def bson_doc_def)
  show ?thesis
  proof (cases "n < 25")
    case True
    then show ?thesis using assms(3) len by (simp add: ParseMongo_def)
  next
    case False
    then have n: "25 \<le> n" by simp
    note parts = mongo_msg_parts [OF assms(1) n assms(3)]
    have op: "LE_u32 (drop 12 (take n ?m)) = Inr MongoOpMSG"
      using LE_u32_Inr [of "drop 12 (take n ?m)"] parts(1) n len assms(3)
      by (simp add: le_nat_le_bytes)
    obtain sz where sec: "LE_u32 (drop 21 (take n ?m)) = Inr sz" and w: "unat sz = length body + 4"
    proof
      show "LE_u32 (drop 21 (take n ?m)) = Inr (word_of_nat (length body + 4))"
        using assms(2) by (simp add: parts(3) LE_u32_def le_nat_le_bytes)
      show "unat (word_of_nat (length body + 4) :: u32) = length body + 4"
        by (rule word_of_nat_small [OF assms(2)])
    qed
    have "\<not> sz < 1"
      using w by (metis add_is_0 less_one word_less_nat_alt unat_1 zero_neq_numeral)
    moreover have "drop 21 (take n ?m) = bson_doc body" if "n = 25 + length body"
      using parts(3) that by (simp add: bson_doc_def)
    ultimately show ?thesis
      using n assms(3) len parts(2)
      by (auto simp: ParseMongo_def slice_from_Inr idx_Inr op sec w)
  qed
qed

theorem mongo_truncation_witness:
  "ParseMongo (\<lambda>d. ''doc'') (take 25 (mongo_op_msg (replicate 12 (byte_of 0)) MongoOpMSG 0 (bson_doc ''a'')))
     = Inr ''<truncated>''"
  using mongo_truncation [of "replicate 12 (byte_of 0)" "''a''" 25 0 "\<lambda>d. ''doc''"]
  by (simp add: mongo_op_msg_def bson_doc_def)

end
