(* ===== verification/L7_Http2.thy ===== *)
theory L7_Http2
imports L7_Text "HOL-Library.AList" "HOL-Library.Multiset"
begin

unbundle bit_operations_syntax

text \<open>
  \<open>pkg/ebpftracer/l7/http2.go\<close>: the HTTP/2 parser of one connection. It walks the frames of a
  captured buffer, feeds the header blocks to an HPACK decoder, keeps the requests that wait for
  their response, matches the responses of server buffers to them, and drops requests that stay
  unanswered for ten minutes.

  The HPACK decoder is not part of the repository: its state is the type \<open>'d\<close>, and \<open>hp_Write\<close>
  gives its new state, the header fields it emits in order, and whether it reports an error.
  \<open>hp_WriteNil\<close> is the same method called on a nil decoder, which happens when the method is
  neither of the two HTTP/2 ones. Times are the kernel's 64-bit nanoseconds and wrap around.
\<close>

section \<open>Data\<close>

type_synonym header_field = "string \<times> string"

record 'd hpack_api =
  hp_New :: 'd
  hp_Write :: "'d \<Rightarrow> bytes \<Rightarrow> 'd \<times> header_field list \<times> bool"
  hp_WriteNil :: "bytes \<Rightarrow> bool go"

abbreviation (input) http2FrameHeaderLength :: nat where "http2FrameHeaderLength \<equiv> 9"
abbreviation (input) http2DecoderGcInterval :: u64 where "http2DecoderGcInterval \<equiv> 600000000000"
text \<open>The type of a HEADERS frame, in the numbering of RFC 9113.\<close>

definition FrameHeaders :: nat where
  "FrameHeaders = 1"

definition ClientPreface :: bytes where
  "ClientPreface = ''PRI * HTTP/2.0'' @ crlf @ crlf @ ''SM'' @ crlf @ crlf"

record Http2FrameHeader =
  fh_Type :: nat
  fh_Flags :: nat
  fh_Length :: nat
  fh_StreamId :: u32

record Http2Request =
  h2_Method :: string
  h2_Path :: string
  h2_Scheme :: string
  h2_Status :: int
  h2_Duration :: int
  h2_kernelTime :: u64

record 'd Http2Parser =
  clientDecoder :: 'd
  serverDecoder :: 'd
  activeRequests :: "u32 \<rightharpoonup> Http2Request"
  lastGcTime :: u64

definition NewHttp2Parser :: "'d hpack_api \<Rightarrow> 'd Http2Parser" where
  "NewHttp2Parser api =
     \<lparr>clientDecoder = hp_New api, serverDecoder = hp_New api, activeRequests = Map.empty,
      lastGcTime = 0\<rparr>"

definition newRequest :: "u64 \<Rightarrow> Http2Request" where
  "newRequest kernelTime =
     \<lparr>h2_Method = '''', h2_Path = '''', h2_Scheme = '''', h2_Status = 0, h2_Duration = 0,
      h2_kernelTime = kernelTime\<rparr>"

section \<open>Frames\<close>

definition h2_frame_header :: "bytes \<Rightarrow> nat \<Rightarrow> Http2FrameHeader go" where
  "h2_frame_header payload offset =
     go_bind (slice_from payload offset) (\<lambda>s.
     go_bind (BE_u32 s) (\<lambda>w.
     go_bind (idx payload (offset + 3)) (\<lambda>t.
     go_bind (idx payload (offset + 4)) (\<lambda>f.
     go_bind (slice_from payload (offset + 5)) (\<lambda>s'.
     go_bind (BE_u32 s') (\<lambda>sid.
       Inr \<lparr>fh_Type = byte_val t, fh_Flags = byte_val f, fh_Length = unat (drop_bit 8 w),
            fh_StreamId = sid AND 0x7FFFFFFF\<rparr>))))))"

text \<open>The two functions set to receive the decoder's header fields.\<close>

definition emit_client :: "header_field \<Rightarrow> Http2Request \<Rightarrow> Http2Request" where
  "emit_client hf req =
     (case hf of (name, val) \<Rightarrow>
        if name = '':method'' then
          (if h2_Method req = '''' \<and> isHttpMethod val then req\<lparr>h2_Method := val\<rparr> else req)
        else if name = '':path'' then
          (if h2_Path req = '''' \<and> isHttpPath val then req\<lparr>h2_Path := val\<rparr> else req)
        else if name = '':scheme'' then
          (if h2_Scheme req = '''' \<and> isHttpScheme val then req\<lparr>h2_Scheme := val\<rparr> else req)
        else req)"

definition emit_server :: "u32 \<Rightarrow> header_field \<Rightarrow> (u32 \<times> int) list \<Rightarrow> (u32 \<times> int) list" where
  "emit_server sid hf statuses =
     (case hf of (name, val) \<Rightarrow>
        if name = '':status'' then AList.update sid (atoi_value val) statuses else statuses)"

text \<open>
  A HEADERS frame whose block starts at \<open>offset\<close>: the new decoder, requests and statuses, and
  whether the decoder reported an error.
\<close>

definition h2_headers ::
  "'d hpack_api \<Rightarrow> u8 \<Rightarrow> u64 \<Rightarrow> u32 \<Rightarrow> bytes \<Rightarrow> 'd Http2Parser \<Rightarrow> (u32 \<times> int) list \<Rightarrow>
   ('d Http2Parser \<times> (u32 \<times> int) list \<times> bool) go" where
  "h2_headers api meth kernelTime sid block p statuses =
     (if meth = MethodHttp2ClientFrames then
        (let req = (case activeRequests p sid of None \<Rightarrow> newRequest kernelTime | Some r \<Rightarrow> r)
         in case hp_Write api (clientDecoder p) block of
              (d, hfs, err) \<Rightarrow>
                Inr (p\<lparr>clientDecoder := d,
                       activeRequests := (activeRequests p)(sid \<mapsto> fold emit_client hfs req)\<rparr>,
                     statuses, err))
      else if meth = MethodHttp2ServerFrames then
        (let statuses' = (if map_of statuses sid = None then AList.update sid 0 statuses else statuses)
         in case hp_Write api (serverDecoder p) block of
              (d, hfs, err) \<Rightarrow>
                Inr (p\<lparr>serverDecoder := d\<rparr>, fold (emit_server sid) hfs statuses', err))
      else go_bind (hp_WriteNil api block) (\<lambda>err. Inr (p, statuses, err)))"

text \<open>
  One round of the loop: \<open>None\<close> leaves the loop, \<open>Some\<close> goes on from a new offset. After a
  decoding error the offset is the one after the frame's header.
\<close>

definition h2_frame ::
  "'d hpack_api \<Rightarrow> u8 \<Rightarrow> bytes \<Rightarrow> u64 \<Rightarrow> nat \<Rightarrow> 'd Http2Parser \<Rightarrow> (u32 \<times> int) list \<Rightarrow>
   (nat \<times> 'd Http2Parser \<times> (u32 \<times> int) list) option go" where
  "h2_frame api meth payload kernelTime offset p statuses =
     (if length payload < offset + http2FrameHeaderLength then Inr None
      else
        go_bind (h2_frame_header payload offset) (\<lambda>h.
          let offset = offset + http2FrameHeaderLength in
          if fh_Type h \<noteq> FrameHeaders then
            (if length payload < offset + fh_Length h then Inr None
             else Inr (Some (offset + fh_Length h, p, statuses)))
          else
            let next = min (offset + fh_Length h) (length payload) in
            go_bind (slice payload offset next) (\<lambda>block.
            go_bind (h2_headers api meth kernelTime (fh_StreamId h) block p statuses) (\<lambda>(p', statuses', err).
              Inr (Some (if err then offset else next, p', statuses'))))))"

lemma h2_frame_progress:
  "h2_frame api meth payload kt offset p st = Inr (Some (offset', p', st')) \<Longrightarrow>
   offset + 9 \<le> offset' \<and> offset' \<le> length payload"
  by (auto simp: h2_frame_def go_bind_eq_Inr Let_def split: if_splits)

function h2_loop ::
  "'d hpack_api \<Rightarrow> u8 \<Rightarrow> bytes \<Rightarrow> u64 \<Rightarrow> nat \<Rightarrow> 'd Http2Parser \<Rightarrow> (u32 \<times> int) list \<Rightarrow>
   ('d Http2Parser \<times> (u32 \<times> int) list) go" where
  "h2_loop api meth payload kernelTime offset p statuses =
     (case h2_frame api meth payload kernelTime offset p statuses of
        Inl e \<Rightarrow> Inl e
      | Inr None \<Rightarrow> Inr (p, statuses)
      | Inr (Some (offset', p', statuses')) \<Rightarrow>
          h2_loop api meth payload kernelTime offset' p' statuses')"
  by pat_completeness auto
termination
  by (relation "measure (\<lambda>(api, meth, payload, kt, offset, p, st). length payload - offset)")
    (auto dest!: h2_frame_progress)

declare h2_loop.simps [simp del]

section \<open>Responses, garbage collection and the whole buffer\<close>

text \<open>The loop over the statuses, for one order in which Go's map iteration visits them.\<close>

fun h2_responses ::
  "u64 \<Rightarrow> (u32 \<times> int) list \<Rightarrow> (u32 \<rightharpoonup> Http2Request) \<Rightarrow> Http2Request list \<times> (u32 \<rightharpoonup> Http2Request)" where
  "h2_responses kernelTime [] active = ([], active)"
| "h2_responses kernelTime ((streamId, status) # sts) active =
     (case active streamId of
        None \<Rightarrow> h2_responses kernelTime sts active
      | Some r \<Rightarrow>
          (case h2_responses kernelTime sts (map_delete active streamId) of
             (res, active') \<Rightarrow>
               (r\<lparr>h2_Status := status, h2_Duration := sint (kernelTime - h2_kernelTime r)\<rparr> # res,
                active')))"

definition h2_expired :: "u64 \<Rightarrow> Http2Request \<Rightarrow> bool" where
  "h2_expired kernelTime r = (http2DecoderGcInterval < kernelTime - h2_kernelTime r)"

definition h2_gc :: "u64 \<Rightarrow> 'd Http2Parser \<Rightarrow> 'd Http2Parser" where
  "h2_gc kernelTime p =
     (if http2DecoderGcInterval < kernelTime - lastGcTime p then
        (let p' = (if 0 < lastGcTime p
                   then p\<lparr>activeRequests := (\<lambda>streamId. case activeRequests p streamId of
                            None \<Rightarrow> None
                          | Some r \<Rightarrow> if h2_expired kernelTime r then None else Some r)\<rparr>
                   else p)
         in p'\<lparr>lastGcTime := kernelTime\<rparr>)
      else p)"

text \<open>\<open>order\<close> is the order in which Go's iteration over the map of statuses visits its entries.\<close>

definition Http2_Parse ::
  "'d hpack_api \<Rightarrow> ((u32 \<times> int) list \<Rightarrow> (u32 \<times> int) list) \<Rightarrow> 'd Http2Parser \<Rightarrow> u8 \<Rightarrow> bytes \<Rightarrow> u64 \<Rightarrow>
   (Http2Request list \<times> 'd Http2Parser) go" where
  "Http2_Parse api order p meth payload kernelTime =
     (let payload =
        (if meth = MethodHttp2ClientFrames \<and> length ClientPreface \<le> length payload \<and>
            take (length ClientPreface) payload = ClientPreface
         then drop (length ClientPreface) payload else payload)
      in if payload = [] then Inr ([], p)
         else
           go_bind (h2_loop api meth payload kernelTime 0 p []) (\<lambda>(p', statuses).
             case h2_responses kernelTime (order statuses) (activeRequests p') of
               (res, active) \<Rightarrow> Inr (res, h2_gc kernelTime (p'\<lparr>activeRequests := active\<rparr>))))"

section \<open>Frames on the wire\<close>

definition h2_frame_bytes :: "nat \<Rightarrow> nat \<Rightarrow> u32 \<Rightarrow> bytes \<Rightarrow> bytes" where
  "h2_frame_bytes ft flags sid block =
     be_bytes 3 (length block) @ byte_of ft # byte_of flags # be_bytes 4 (unat sid) @ block"

text \<open>The nine bytes of a frame's header alone.\<close>

definition h2_header_bytes :: "nat \<Rightarrow> nat \<Rightarrow> u32 \<Rightarrow> nat \<Rightarrow> bytes" where
  "h2_header_bytes ft flags sid n = be_bytes 3 n @ byte_of ft # byte_of flags # be_bytes 4 (unat sid)"

lemma h2_frame_bytes_header: "h2_frame_bytes ft flags sid block = h2_header_bytes ft flags sid (length block) @ block"
  by (simp add: h2_frame_bytes_def h2_header_bytes_def)

lemma length_h2_header_bytes [simp]: "length (h2_header_bytes ft flags sid n) = 9"
  by (simp add: h2_header_bytes_def)

definition h2_wf_frame :: "nat \<times> nat \<times> u32 \<times> bytes \<Rightarrow> bool" where
  "h2_wf_frame f =
     (case f of (ft, flags, sid, block) \<Rightarrow>
        ft < 256 \<and> flags < 256 \<and> unat sid < 2 ^ 31 \<and> length block < 2 ^ 24)"

definition h2_skipped :: "nat \<times> nat \<times> u32 \<times> bytes \<Rightarrow> bool" where
  "h2_skipped f = (h2_wf_frame f \<and> fst f \<noteq> FrameHeaders)"

definition h2_frames_bytes :: "(nat \<times> nat \<times> u32 \<times> bytes) list \<Rightarrow> bytes" where
  "h2_frames_bytes fs = concat (map (\<lambda>(ft, flags, sid, block). h2_frame_bytes ft flags sid block) fs)"

lemma length_h2_frame_bytes [simp]: "length (h2_frame_bytes ft flags sid block) = 9 + length block"
  by (simp add: h2_frame_bytes_def)

lemma be_nat_4: "be_nat [a, b, c, d] = be_nat [a, b, c] * 256 + byte_val d"
  by (simp add: be_nat_def)

lemma be_nat_bound': "length s = k \<Longrightarrow> be_nat s < 256 ^ k"
  using be_nat_bound [of s] by simp

lemma stream_id_mask: "unat (sid :: u32) < 2 ^ 31 \<Longrightarrow> sid AND 0x7FFFFFFF = sid"
proof -
  assume "unat sid < 2 ^ 31"
  then have "take_bit 31 sid = sid"
    by (simp add: word_unat_eq_iff unsigned_take_bit_eq take_bit_nat_eq_self)
  moreover have "mask 31 = (0x7FFFFFFF :: u32)" by (simp add: mask_eq_exp_minus_1)
  ultimately show ?thesis by (metis take_bit_eq_mask)
qed

lemma frame_length_word: "n < 2 ^ 32 \<Longrightarrow> unat (drop_bit 8 (word_of_nat n :: u32)) = n div 256"
  by (simp only: unat_drop_bit_eq unat_of_nat) (simp add: drop_bit_eq_div)

lemma h2_frame_header_wire:
  assumes "h2_wf_frame (ft, flags, sid, block)"
  shows "h2_frame_header (pre @ h2_header_bytes ft flags sid (length block) @ post) (length pre) =
    Inr \<lparr>fh_Type = ft, fh_Flags = flags, fh_Length = length block, fh_StreamId = sid\<rparr>"
proof -
  have "\<exists>a b c. be_bytes 3 (length block) = [a, b, c]"
    by (simp add: be_bytes_def numeral_3_eq_3)
  then obtain a b c where abc: "be_bytes 3 (length block) = [a, b, c]" by blast
  have "be_nat [a, b, c] = length block"
    using assms by (simp add: abc [symmetric] be_nat_be_bytes h2_wf_frame_def)
  then have n: "be_nat [a, b, c, byte_of ft] = length block * 256 + ft"
    using assms by (simp add: be_nat_4 h2_wf_frame_def)
  have l: "unat (drop_bit 8 (word_of_nat (be_nat [a, b, c, byte_of ft]) :: u32)) = length block"
    using be_nat_bound' [of "[a, b, c, byte_of ft]" 4] assms
      frame_length_word [of "be_nat [a, b, c, byte_of ft]"]
    unfolding n by (simp add: h2_wf_frame_def)
  have w: "BE_u32 (a # b # c # byte_of ft # x) = Inr (word_of_nat (be_nat [a, b, c, byte_of ft]))" for x
    by (simp add: BE_u32_def)
  have s: "sid AND 0x7FFFFFFF = sid"
    using assms by (intro stream_id_mask) (simp add: h2_wf_frame_def)
  show ?thesis
    using assms s l unfolding h2_frame_header_def h2_header_bytes_def abc
    by (simp add: slice_from_def idx_def nth_append w BE_u32_be_bytes h2_wf_frame_def)
qed

lemma h2_frame_header_bytes:
  assumes "h2_wf_frame (ft, flags, sid, block)"
  shows "h2_frame_header (pre @ h2_frame_bytes ft flags sid block @ post) (length pre) =
    Inr \<lparr>fh_Type = ft, fh_Flags = flags, fh_Length = length block, fh_StreamId = sid\<rparr>"
  using h2_frame_header_wire [OF assms] by (simp add: h2_frame_bytes_header)

lemma h2_frame_not_headers:
  assumes "h2_wf_frame (ft, flags, sid, block)" and "ft \<noteq> FrameHeaders"
  shows "h2_frame api meth (pre @ h2_frame_bytes ft flags sid block @ post) kt (length pre) p st =
    Inr (Some (length (pre @ h2_frame_bytes ft flags sid block), p, st))"
  using assms by (simp add: h2_frame_def h2_frame_header_bytes)

lemma h2_loop_not_headers:
  assumes "h2_wf_frame (ft, flags, sid, block)" and "ft \<noteq> FrameHeaders"
  shows "h2_loop api meth (pre @ h2_frame_bytes ft flags sid block @ post) kt (length pre) p st =
    h2_loop api meth (pre @ h2_frame_bytes ft flags sid block @ post) kt
      (length (pre @ h2_frame_bytes ft flags sid block)) p st"
  by (subst h2_loop.simps) (simp only: h2_frame_not_headers [OF assms] sum.case option.case prod.case)

text \<open>Frames that are not HEADERS frames are stepped over.\<close>

lemma h2_loop_skip:
  assumes "\<forall>f \<in> set fs. h2_skipped f"
  shows "h2_loop api meth (pre @ h2_frames_bytes fs @ post) kt (length pre) p st =
    h2_loop api meth (pre @ h2_frames_bytes fs @ post) kt (length (pre @ h2_frames_bytes fs)) p st"
  using assms
proof (induction fs arbitrary: pre)
  case Nil
  then show ?case by (simp add: h2_frames_bytes_def)
next
  case (Cons f fs)
  obtain ft flags sid block where f: "f = (ft, flags, sid, block)" by (cases f) auto
  let ?f = "h2_frame_bytes ft flags sid block"
  have e: "h2_frames_bytes (f # fs) = ?f @ h2_frames_bytes fs" by (simp add: h2_frames_bytes_def f)
  have "h2_wf_frame (ft, flags, sid, block)" and "ft \<noteq> FrameHeaders" using Cons.prems f by (auto simp: h2_skipped_def)
  note step = h2_loop_not_headers [OF this, of api meth pre "h2_frames_bytes fs @ post" kt p st]
  have "\<forall>f \<in> set fs. h2_skipped f"
    using Cons.prems by simp
  from Cons.IH [OF this, of "pre @ ?f"] step show ?case by (simp add: e)
qed

lemma h2_frame_headers:
  assumes "h2_wf_frame (FrameHeaders, flags, sid, block)"
    and "h2_headers api meth kt sid block p st = Inr (p', st', False)"
  shows "h2_frame api meth (pre @ h2_frame_bytes FrameHeaders flags sid block @ post) kt (length pre) p st =
    Inr (Some (length (pre @ h2_frame_bytes FrameHeaders flags sid block), p', st'))"
proof -
  let ?b = "pre @ h2_frame_bytes FrameHeaders flags sid block @ post"
  have m: "min (length pre + 9 + length block) (length ?b) = length pre + 9 + length block" by simp
  obtain hd where hd: "h2_frame_bytes FrameHeaders flags sid block = hd @ block" and l: "length hd = 9"
  proof
    show "h2_frame_bytes FrameHeaders flags sid block =
        (be_bytes 3 (length block) @ byte_of FrameHeaders # byte_of flags # be_bytes 4 (unat sid)) @ block"
      by (simp add: h2_frame_bytes_def)
  qed simp
  have "slice ?b (length pre + 9) (length pre + 9 + length block) = Inr block"
    using slice_middle [of "pre @ hd" block post] unfolding hd by (simp add: l)
  then show ?thesis
    using assms(2) m by (simp add: h2_frame_def h2_frame_header_bytes [OF assms(1)] Let_def)
qed

lemma h2_loop_headers_last:
  assumes "h2_wf_frame (FrameHeaders, flags, sid, block)"
    and "h2_headers api meth kt sid block p st = Inr (p', st', False)"
  shows "h2_loop api meth (pre @ h2_frame_bytes FrameHeaders flags sid block) kt (length pre) p st =
    Inr (p', st')"
proof -
  note f = h2_frame_headers [OF assms, of pre "[]", unfolded append_Nil2]
  have "h2_frame api meth (pre @ h2_frame_bytes FrameHeaders flags sid block) kt
      (length (pre @ h2_frame_bytes FrameHeaders flags sid block)) p' st' = Inr None"
    by (simp add: h2_frame_def)
  then have "h2_loop api meth (pre @ h2_frame_bytes FrameHeaders flags sid block) kt
      (length (pre @ h2_frame_bytes FrameHeaders flags sid block)) p' st' = Inr (p', st')"
    by (simp add: h2_loop.simps)
  then show ?thesis
    by (subst h2_loop.simps) (simp only: f sum.case option.case prod.case)
qed

section \<open>What one header block and the loop do\<close>

lemma h2_headers_client:
  "h2_headers api MethodHttp2ClientFrames kt sid block p st =
   (case hp_Write api (clientDecoder p) block of (d, hfs, err) \<Rightarrow>
      Inr (p\<lparr>clientDecoder := d,
             activeRequests := (activeRequests p)(sid \<mapsto> fold emit_client hfs
               (case activeRequests p sid of None \<Rightarrow> newRequest kt | Some r \<Rightarrow> r))\<rparr>, st, err))"
  by (simp add: h2_headers_def)

lemma h2_headers_server:
  "h2_headers api MethodHttp2ServerFrames kt sid block p st =
   (case hp_Write api (serverDecoder p) block of (d, hfs, err) \<Rightarrow>
      Inr (p\<lparr>serverDecoder := d\<rparr>,
           fold (emit_server sid) hfs (if map_of st sid = None then AList.update sid 0 st else st), err))"
  by (simp add: h2_headers_def)

text \<open>What every header block keeps, the loop keeps.\<close>

lemma h2_frame_keeps:
  assumes step: "\<And>sid block p st p' st' err.
      h2_headers api meth kt sid block p st = Inr (p', st', err) \<Longrightarrow> P p st \<Longrightarrow> P p' st'"
    and "h2_frame api meth payload kt offset p st = Inr (Some (offset', p', st'))" and "P p st"
  shows "P p' st'"
proof -
  from assms(2) consider "p' = p" "st' = st"
    | sid block err where "h2_headers api meth kt sid block p st = Inr (p', st', err)"
    by (auto simp: h2_frame_def go_bind_eq_Inr Let_def split: if_splits)
  then show ?thesis by cases (use step assms(3) in auto)
qed

lemma h2_loop_invariant:
  assumes "\<And>sid block p st p' st' err.
      h2_headers api meth kt sid block p st = Inr (p', st', err) \<Longrightarrow> P p st \<Longrightarrow> P p' st'"
    and "h2_loop api meth payload kt offset p st = Inr (p', st')" and "P p st"
  shows "P p' st'"
  using assms
proof (induction api meth payload kt offset p st rule: h2_loop.induct)
  case (1 api meth payload kt offset p st)
  show ?case
  proof (cases "h2_frame api meth payload kt offset p st")
    case (Inl e)
    with "1.prems"(2) show ?thesis by (simp add: h2_loop.simps)
  next
    case (Inr o')
    show ?thesis
    proof (cases o')
      case None
      with Inr "1.prems"(2,3) show ?thesis by (simp add: h2_loop.simps)
    next
      case (Some q)
      obtain off1 p1 st1 where q: "q = (off1, p1, st1)" by (cases q) auto
      note fr = Inr [unfolded Some q]
      have "h2_loop api meth payload kt off1 p1 st1 = Inr (p', st')"
        using "1.prems"(2) fr by (simp add: h2_loop.simps [of api meth payload kt offset])
      moreover have "P p1 st1"
        by (rule h2_frame_keeps [where P = P, OF _ fr "1.prems"(3)]) (rule "1.prems"(1))
      ultimately show ?thesis
        using "1.IH" [OF Inr Some q [symmetric] refl] "1.prems"(1) by blast
    qed
  qed
qed

lemma h2_loop_client_statuses:
  assumes "h2_loop api MethodHttp2ClientFrames payload kt offset p st = Inr (p', st')"
  shows "st' = st"
  by (rule h2_loop_invariant [where P = "\<lambda>q s. s = st", OF _ assms])
    (auto simp: h2_headers_client split: prod.splits)

lemma h2_loop_server_active:
  assumes "h2_loop api MethodHttp2ServerFrames payload kt offset p st = Inr (p', st')"
  shows "activeRequests p' = activeRequests p"
  by (rule h2_loop_invariant [where P = "\<lambda>q s. activeRequests q = activeRequests p", OF _ assms])
    (auto simp: h2_headers_server split: prod.splits)

lemma emit_server_distinct: "distinct (map fst st) \<Longrightarrow> distinct (map fst (fold (emit_server sid) hfs st))"
  by (induction hfs arbitrary: st) (auto simp: emit_server_def distinct_update split: prod.splits)

lemma h2_loop_distinct:
  assumes "h2_loop api meth payload kt offset p st = Inr (p', st')" and "distinct (map fst st)"
  shows "distinct (map fst st')"
  by (rule h2_loop_invariant [where P = "\<lambda>q s. distinct (map fst s)", OF _ assms])
    (auto simp: h2_headers_def Let_def go_bind_eq_Inr emit_server_distinct distinct_update
      split: prod.splits if_splits)

lemma h2_loop_lastGcTime:
  assumes "h2_loop api meth payload kt offset p st = Inr (p', st')"
  shows "lastGcTime p' = lastGcTime p"
  by (rule h2_loop_invariant [where P = "\<lambda>q s. lastGcTime q = lastGcTime p", OF _ assms])
    (auto simp: h2_headers_def Let_def go_bind_eq_Inr split: prod.splits if_splits)

text \<open>The shape of every request under way: only checked methods, paths and schemes.\<close>

definition h2_wf_request :: "Http2Request \<Rightarrow> bool" where
  "h2_wf_request r =
     ((h2_Method r = '''' \<or> isHttpMethod (h2_Method r)) \<and>
      (h2_Path r = '''' \<or> isHttpPath (h2_Path r)) \<and>
      (h2_Scheme r = '''' \<or> isHttpScheme (h2_Scheme r)))"

definition h2_wf :: "'d Http2Parser \<Rightarrow> bool" where
  "h2_wf p = (\<forall>r \<in> ran (activeRequests p). h2_wf_request r)"

lemma h2_wf_new [simp]: "h2_wf_request (newRequest kt)"
  by (simp add: h2_wf_request_def newRequest_def)

lemma emit_client_wf: "h2_wf_request r \<Longrightarrow> h2_wf_request (emit_client hf r)"
  by (cases hf) (auto simp: emit_client_def h2_wf_request_def)

lemma fold_emit_client_wf: "h2_wf_request r \<Longrightarrow> h2_wf_request (fold emit_client hfs r)"
  by (induction hfs arbitrary: r) (auto simp: emit_client_wf)

lemma emit_client_kernelTime: "h2_kernelTime (fold emit_client hfs r) = h2_kernelTime r"
  by (induction hfs arbitrary: r) (auto simp: emit_client_def split: prod.splits)

lemma h2_wf_update: "h2_wf_request r \<Longrightarrow> \<forall>x \<in> ran m. h2_wf_request x \<Longrightarrow> \<forall>x \<in> ran (m(k \<mapsto> r)). h2_wf_request x"
  by (auto simp: ran_def split: if_splits)

lemma h2_headers_wf:
  assumes "h2_headers api meth kt sid block p st = Inr (p', st', err)" and "h2_wf p"
  shows "h2_wf p'"
proof -
  have "h2_wf_request (case activeRequests p sid of None \<Rightarrow> newRequest kt | Some r \<Rightarrow> r)"
    using assms(2) by (auto simp: h2_wf_def ran_def split: option.split)
  then show ?thesis
    using assms
    by (auto simp: h2_headers_def h2_wf_def Let_def go_bind_eq_Inr split: prod.splits if_splits
        intro: h2_wf_update [rule_format] fold_emit_client_wf)
qed

lemma h2_loop_wf:
  assumes "h2_loop api meth payload kt offset p st = Inr (p', st')" and "h2_wf p"
  shows "h2_wf p'"
  by (rule h2_loop_invariant [where P = "\<lambda>q s. h2_wf q", OF _ assms]) (rule h2_headers_wf)

section \<open>Responses in closed form\<close>

definition h2_response :: "u64 \<Rightarrow> (u32 \<rightharpoonup> Http2Request) \<Rightarrow> u32 \<times> int \<Rightarrow> Http2Request option" where
  "h2_response kt active s =
     map_option (\<lambda>r. r\<lparr>h2_Status := snd s, h2_Duration := sint (kt - h2_kernelTime r)\<rparr>) (active (fst s))"

lemma h2_response_cases:
  "active sid = None \<Longrightarrow> h2_response kt active (sid, status) = None"
  "active sid = Some r \<Longrightarrow> h2_response kt active (sid, status) =
     Some (r\<lparr>h2_Status := status, h2_Duration := sint (kt - h2_kernelTime r)\<rparr>)"
  by (simp_all add: h2_response_def)

lemma h2_responses_closed:
  "distinct (map fst sts) \<Longrightarrow>
   h2_responses kt sts active =
     (List.map_filter (h2_response kt active) sts, active |` (- fst ` set sts))"
proof (induction sts arbitrary: active)
  case Nil
  then show ?case by (simp add: map_filter_simps)
next
  case (Cons s sts)
  obtain sid status where s: "s = (sid, status)" by (cases s)
  have same: "List.map_filter (h2_response kt (map_delete active sid)) sts =
      List.map_filter (h2_response kt active) sts"
    using Cons.prems
    by (intro map_filter_cong) (auto simp: s h2_response_def rev_image_eqI)
  show ?case
  proof (cases "active sid")
    case None
    then have "active |` (- fst ` set sts) = active |` (- insert sid (fst ` set sts))"
      by (auto simp: restrict_map_def fun_eq_iff)
    with None Cons show ?thesis
      by (simp add: s map_filter_simps h2_response_cases)
  next
    case (Some r)
    have "map_delete active sid |` (- fst ` set sts) = active |` (- insert sid (fst ` set sts))"
      by (auto simp: restrict_map_def fun_eq_iff)
    with Some Cons same show ?thesis
      by (simp add: s map_filter_simps h2_response_cases)
  qed
qed

lemma mset_map_filter: "mset xs = mset ys \<Longrightarrow> mset (List.map_filter f xs) = mset (List.map_filter f ys)"
  unfolding map_filter_def by (metis mset_filter mset_map)

section \<open>The whole buffer\<close>

lemma h2_frame_header_no_panic:
  "offset + 9 \<le> length payload \<Longrightarrow> no_panic (h2_frame_header payload offset)"
  using add_leD1 [of offset 9 "length payload"]
  by (simp add: h2_frame_header_def slice_from_def idx_def BE_u32_def le_diff_conv2)

lemma h2_headers_no_panic:
  "meth = MethodHttp2ClientFrames \<or> meth = MethodHttp2ServerFrames \<Longrightarrow>
   no_panic (h2_headers api meth kt sid block p st)"
  by (auto simp: h2_headers_def Let_def split: prod.splits)

lemma h2_frame_no_panic:
  assumes "meth = MethodHttp2ClientFrames \<or> meth = MethodHttp2ServerFrames"
  shows "no_panic (h2_frame api meth payload kt offset p st)"
  unfolding h2_frame_def Let_def
  by (auto intro!: no_panic_bind h2_frame_header_no_panic h2_headers_no_panic [OF assms]
      simp: slice_def split: prod.splits)

lemma h2_loop_no_panic:
  assumes "meth = MethodHttp2ClientFrames \<or> meth = MethodHttp2ServerFrames"
  shows "no_panic (h2_loop api meth payload kt offset p st)"
  using assms
proof (induction api meth payload kt offset p st rule: h2_loop.induct)
  case (1 api meth payload kt offset p st)
  have "no_panic (h2_frame api meth payload kt offset p st)"
    by (rule h2_frame_no_panic [OF "1.prems"])
  then obtain q where q: "h2_frame api meth payload kt offset p st = Inr q"
    by (auto simp: no_panic_iff)
  show ?case
  proof (cases q)
    case None
    with q show ?thesis by (simp add: h2_loop.simps)
  next
    case (Some r)
    obtain off' p' st' where r: "r = (off', p', st')" by (cases r) auto
    from "1.IH" [OF q Some r [symmetric] refl "1.prems"] q Some r show ?thesis
      by (subst h2_loop.simps) simp
  qed
qed

text \<open>The payload the loop walks: without the client's connection preface.\<close>

definition h2_payload :: "u8 \<Rightarrow> bytes \<Rightarrow> bytes" where
  "h2_payload meth payload =
     (if meth = MethodHttp2ClientFrames \<and> length ClientPreface \<le> length payload \<and>
         take (length ClientPreface) payload = ClientPreface
      then drop (length ClientPreface) payload else payload)"

lemma Http2_Parse_cases:
  "Http2_Parse api order p meth payload kt =
   (if h2_payload meth payload = [] then Inr ([], p)
    else go_bind (h2_loop api meth (h2_payload meth payload) kt 0 p []) (\<lambda>(p', statuses).
      case h2_responses kt (order statuses) (activeRequests p') of
        (res, active) \<Rightarrow> Inr (res, h2_gc kt (p'\<lparr>activeRequests := active\<rparr>))))"
  by (simp add: Http2_Parse_def h2_payload_def Let_def)

lemma Http2_Parse_closed:
  assumes "\<forall>xs. mset (order xs) = mset xs" and "h2_payload meth payload \<noteq> []"
    and "h2_loop api meth (h2_payload meth payload) kt 0 p [] = Inr (p1, st)"
  shows "Http2_Parse api order p meth payload kt =
    Inr (List.map_filter (h2_response kt (activeRequests p1)) (order st),
         h2_gc kt (p1\<lparr>activeRequests := activeRequests p1 |` (- fst ` set st)\<rparr>))"
proof -
  have "mset (map fst (order st)) = mset (map fst st)" using assms(1) by simp
  moreover have "distinct (map fst st)" using h2_loop_distinct [OF assms(3)] by simp
  ultimately have d: "distinct (map fst (order st))" by (metis mset_eq_imp_distinct_iff)
  have s: "set (order st) = set st" using assms(1) by (metis mset_eq_setD)
  show ?thesis
    using assms(2,3) by (simp add: Http2_Parse_cases h2_responses_closed [OF d] s)
qed

lemma h2_gc_active:
  "activeRequests (h2_gc kt p) sid =
   (if http2DecoderGcInterval < kt - lastGcTime p \<and> 0 < lastGcTime p
    then Option.bind (activeRequests p sid) (\<lambda>r. if h2_expired kt r then None else Some r)
    else activeRequests p sid)"
  by (simp add: h2_gc_def Let_def split: option.split)

lemma h2_gc_lastGcTime:
  "lastGcTime (h2_gc kt p) =
   (if http2DecoderGcInterval < kt - lastGcTime p then kt else lastGcTime p)"
  by (simp add: h2_gc_def Let_def)

lemma h2_gc_wf: "h2_wf p \<Longrightarrow> h2_wf (h2_gc kt p)"
  unfolding h2_wf_def by (auto simp: ran_def h2_gc_active split: if_splits bind_splits)

lemma h2_response_wf:
  "h2_response kt active s = Some r \<Longrightarrow> \<forall>x \<in> ran active. h2_wf_request x \<Longrightarrow> h2_wf_request r"
  by (auto simp: h2_response_def h2_wf_request_def ran_def)

lemma h2_gc_restricted:
  "activeRequests (h2_gc kt (p\<lparr>activeRequests := m |` (- A)\<rparr>)) sid =
   (if sid \<in> A then None
    else if http2DecoderGcInterval < kt - lastGcTime p \<and> 0 < lastGcTime p
    then Option.bind (m sid) (\<lambda>r. if h2_expired kt r then None else Some r)
    else m sid)"
  by (simp add: h2_gc_active restrict_map_def)

text \<open>A buffer that ends with a HEADERS frame, after frames that are stepped over.\<close>

lemma h2_loop_buffer:
  assumes "\<forall>f \<in> set fs. h2_skipped f" and "h2_wf_frame (FrameHeaders, flags, sid, block)"
    and "h2_headers api meth kt sid block p [] = Inr (p', st', False)"
  shows "h2_loop api meth (h2_frames_bytes fs @ h2_frame_bytes FrameHeaders flags sid block) kt 0 p [] =
    Inr (p', st')"
  using h2_loop_skip [OF assms(1), of api meth "[]" "h2_frame_bytes FrameHeaders flags sid block" kt p "[]"]
    h2_loop_headers_last [OF assms(2,3), of "h2_frames_bytes fs"]
  by simp

text \<open>The status a block's header fields leave for its stream: the last one, or zero.\<close>

definition response_status :: "header_field list \<Rightarrow> int" where
  "response_status hfs = fold (\<lambda>(name, val) s. if name = '':status'' then atoi_value val else s) hfs 0"

lemma fold_emit_server:
  "fold (emit_server sid) hfs [(sid, s)] =
   [(sid, fold (\<lambda>(name, val) s. if name = '':status'' then atoi_value val else s) hfs s)]"
  by (induction hfs arbitrary: s) (auto simp: emit_server_def)

text \<open>
  What a server buffer of several frames means: the header blocks of its HEADERS frames, in order,
  as the decoder reads them, each with its stream. \<open>None\<close> is a decoding error. A capture may cut the
  buffer's last frame after \<open>k\<close> of its bytes: if its header is there, the block is what follows it.
\<close>

type_synonym h2_wire_frame = "nat \<times> nat \<times> u32 \<times> bytes"

fun server_blocks ::
  "'d hpack_api \<Rightarrow> 'd \<Rightarrow> h2_wire_frame list \<Rightarrow> ('d \<times> (u32 \<times> header_field list) list) option" where
  "server_blocks api d [] = Some (d, [])"
| "server_blocks api d ((ft, flags, sid, block) # fs) =
     (if ft \<noteq> FrameHeaders then server_blocks api d fs
      else case hp_Write api d block of (d', hfs, err) \<Rightarrow>
        if err then None
        else map_option (\<lambda>(d'', bs). (d'', (sid, hfs) # bs)) (server_blocks api d' fs))"

definition h2_cut_frame :: "nat \<Rightarrow> h2_wire_frame \<Rightarrow> h2_wire_frame list" where
  "h2_cut_frame k f = (case f of (ft, flags, sid, block) \<Rightarrow> if k < 9 then [] else [(ft, flags, sid, take (k - 9) block)])"

text \<open>All header fields of a stream, and the streams with their statuses.\<close>

definition stream_fields :: "(u32 \<times> header_field list) list \<Rightarrow> u32 \<Rightarrow> header_field list" where
  "stream_fields bs sid = concat (map snd (filter (\<lambda>b. fst b = sid) bs))"

definition stream_statuses :: "(u32 \<times> header_field list) list \<Rightarrow> (u32 \<times> int) list" where
  "stream_statuses bs = map (\<lambda>sid. (sid, response_status (stream_fields bs sid))) (remdups (map fst bs))"

definition note_block :: "u32 \<times> header_field list \<Rightarrow> (u32 \<times> int) list \<Rightarrow> (u32 \<times> int) list" where
  "note_block b st =
     fold (emit_server (fst b)) (snd b) (if map_of st (fst b) = None then AList.update (fst b) 0 st else st)"

definition status_from :: "int \<Rightarrow> header_field list \<Rightarrow> int" where
  "status_from s hfs = fold (\<lambda>(name, val) s. if name = '':status'' then atoi_value val else s) hfs s"

lemma map_of_emit_server:
  "map_of st sid = Some s \<Longrightarrow> map_of (fold (emit_server sid) hfs st) = (map_of st)(sid \<mapsto> status_from s hfs)"
proof (induction hfs arbitrary: st s)
  case Nil
  then show ?case by (auto simp: status_from_def)
next
  case (Cons hf hfs)
  obtain name val where hf: "hf = (name, val)" by (cases hf)
  show ?case
  proof (cases "name = '':status''")
    case True
    then have "map_of (emit_server sid hf st) = (map_of st)(sid \<mapsto> atoi_value val)"
      by (simp add: hf emit_server_def update_conv')
    then show ?thesis using Cons.IH [of "emit_server sid hf st" "atoi_value val"] True
      by (simp add: hf status_from_def fun_eq_iff)
  next
    case False
    then show ?thesis using Cons by (simp add: hf emit_server_def status_from_def)
  qed
qed

lemma map_of_note_block:
  "map_of (note_block (sid, hfs) st) =
   (map_of st)(sid \<mapsto> status_from (case map_of st sid of None \<Rightarrow> 0 | Some s \<Rightarrow> s) hfs)"
  by (cases "map_of st sid") (simp_all add: note_block_def map_of_emit_server [of _ _ 0] map_of_emit_server update_conv')

lemma map_of_note_blocks:
  "map_of (fold note_block bs st) sid =
   (if sid \<in> fst ` set bs
    then Some (status_from (case map_of st sid of None \<Rightarrow> 0 | Some s \<Rightarrow> s) (stream_fields bs sid))
    else map_of st sid)"
proof (induction bs arbitrary: st)
  case Nil
  then show ?case by simp
next
  case (Cons b bs)
  obtain i hfs where b: "b = (i, hfs)" by (cases b)
  have f: "stream_fields (b # bs) sid = (if i = sid then hfs @ stream_fields bs sid else stream_fields bs sid)"
    by (simp add: b stream_fields_def)
  have n: "sid \<notin> fst ` set bs \<Longrightarrow> stream_fields bs sid = []"
    by (force simp: stream_fields_def filter_empty_conv)
  show ?case
    using Cons [of "note_block b st"] n by (auto simp: b f [unfolded b] map_of_note_block status_from_def)
qed

lemma note_block_distinct: "distinct (map fst st) \<Longrightarrow> distinct (map fst (note_block b st))"
  by (simp add: note_block_def emit_server_distinct distinct_update)

lemma note_blocks_statuses: "mset (fold note_block bs []) = mset (stream_statuses bs)"
proof -
  have d: "distinct (map fst st) \<Longrightarrow> distinct (map fst (fold note_block bs st))" for st
    by (induction bs arbitrary: st) (simp_all add: note_block_distinct)
  have "distinct (map fst (fold note_block bs []))" by (rule d) simp
  moreover have "distinct (map fst (stream_statuses bs))" by (simp add: stream_statuses_def comp_def)
  moreover have "map_of (stream_statuses bs) = map_of (fold note_block bs [])"
    by (rule ext) (auto simp: map_of_note_blocks stream_statuses_def map_of_map_restrict restrict_map_def
        response_status_def status_from_def)
  ultimately show ?thesis
    by (metis distinct_map map_of_inject_set set_eq_iff_mset_eq_distinct)
qed

lemma h2_headers_note:
  "hp_Write api (serverDecoder p) block = (d, hfs, err) \<Longrightarrow>
   h2_headers api MethodHttp2ServerFrames kt sid block p st =
     Inr (p\<lparr>serverDecoder := d\<rparr>, note_block (sid, hfs) st, err)"
  by (simp add: h2_headers_server note_block_def)

lemma h2_loop_step:
  "h2_frame api meth payload kt offset p st = Inr (Some (offset', p', st')) \<Longrightarrow>
   h2_loop api meth payload kt offset p st = h2_loop api meth payload kt offset' p' st'"
  by (subst h2_loop.simps) simp

lemma h2_loop_end:
  "h2_frame api meth payload kt offset p st = Inr None \<Longrightarrow> h2_loop api meth payload kt offset p st = Inr (p, st)"
  by (subst h2_loop.simps) simp

text \<open>The walk over whole frames, and over the cut one behind them.\<close>

lemma h2_loop_frames:
  assumes "\<forall>f \<in> set fs. h2_wf_frame f" and "server_blocks api (serverDecoder p) (fs @ gs) = Some (d, bs)"
  shows "\<exists>d1 bs1 bs2. bs = bs1 @ bs2 \<and> server_blocks api d1 gs = Some (d, bs2) \<and>
    h2_loop api MethodHttp2ServerFrames (pre @ h2_frames_bytes fs @ post) kt (length pre) p st =
    h2_loop api MethodHttp2ServerFrames (pre @ h2_frames_bytes fs @ post) kt (length (pre @ h2_frames_bytes fs))
      (p\<lparr>serverDecoder := d1\<rparr>) (fold note_block bs1 st)"
  using assms
proof (induction fs arbitrary: pre p st bs)
  case Nil
  then show ?case by (intro exI [of _ "serverDecoder p"] exI [of _ "[]"] exI [of _ bs]) (simp add: h2_frames_bytes_def)
next
  case (Cons f fs)
  obtain ft flags sid block where f: "f = (ft, flags, sid, block)" by (cases f) auto
  let ?f = "h2_frame_bytes ft flags sid block"
  have e: "h2_frames_bytes (f # fs) = ?f @ h2_frames_bytes fs" by (simp add: h2_frames_bytes_def f)
  have w: "h2_wf_frame (ft, flags, sid, block)" "\<forall>f \<in> set fs. h2_wf_frame f" using Cons.prems(1) f by auto
  show ?case
  proof (cases "ft = FrameHeaders")
    case False
    then have "server_blocks api (serverDecoder p) (fs @ gs) = Some (d, bs)" using Cons.prems(2) f by simp
    from Cons.IH [OF w(2) this, of "pre @ ?f" st] show ?thesis
      using h2_loop_not_headers [OF w(1) False, of api MethodHttp2ServerFrames pre "h2_frames_bytes fs @ post" kt p st]
      by (simp add: e)
  next
    case True
    obtain d0 hfs err where wr: "hp_Write api (serverDecoder p) block = (d0, hfs, err)" by (metis surj_pair)
    obtain bs0 where bs0: "server_blocks api (serverDecoder (p\<lparr>serverDecoder := d0\<rparr>)) (fs @ gs) = Some (d, bs0)"
      "bs = (sid, hfs) # bs0" "err = False"
      using Cons.prems(2) f True wr by (auto split: if_splits)
    note h = h2_headers_note [OF wr [unfolded bs0(3)], of kt sid st]
    have "h2_loop api MethodHttp2ServerFrames (pre @ ?f @ h2_frames_bytes fs @ post) kt (length pre) p st =
        h2_loop api MethodHttp2ServerFrames (pre @ ?f @ h2_frames_bytes fs @ post) kt (length (pre @ ?f))
          (p\<lparr>serverDecoder := d0\<rparr>) (note_block (sid, hfs) st)"
      using h2_frame_headers [OF w(1) [unfolded True] h, of pre "h2_frames_bytes fs @ post"] True
      by (simp add: h2_loop_step)
    moreover obtain d1 bs1 bs2 where "bs0 = bs1 @ bs2" "server_blocks api d1 gs = Some (d, bs2)"
      "h2_loop api MethodHttp2ServerFrames ((pre @ ?f) @ h2_frames_bytes fs @ post) kt (length (pre @ ?f))
          (p\<lparr>serverDecoder := d0\<rparr>) (note_block (sid, hfs) st) =
        h2_loop api MethodHttp2ServerFrames ((pre @ ?f) @ h2_frames_bytes fs @ post) kt
          (length ((pre @ ?f) @ h2_frames_bytes fs))
          (p\<lparr>serverDecoder := d1\<rparr>) (fold note_block bs1 (note_block (sid, hfs) st))"
      using Cons.IH [OF w(2) bs0(1), of "pre @ ?f" "note_block (sid, hfs) st"] by auto
    ultimately show ?thesis
      by (intro exI [of _ d1] exI [of _ "(sid, hfs) # bs1"] exI [of _ bs2]) (simp add: e bs0(2))
  qed
qed

lemma h2_loop_cut:
  assumes "h2_wf_frame (ft, flags, sid, block)" and "k < 9 + length block"
    and "server_blocks api (serverDecoder p) (h2_cut_frame k (ft, flags, sid, block)) = Some (d, bs)"
  shows "h2_loop api MethodHttp2ServerFrames (pre @ take k (h2_frame_bytes ft flags sid block)) kt (length pre) p st =
    Inr (p\<lparr>serverDecoder := d\<rparr>, fold note_block bs st)"
proof (cases "k < 9")
  case True
  then show ?thesis using assms(3) by (simp add: h2_loop_end h2_frame_def h2_cut_frame_def)
next
  case False
  let ?b = "take (k - 9) block"
  have e: "take k (h2_frame_bytes ft flags sid block) = h2_header_bytes ft flags sid (length block) @ ?b"
    using False by (simp add: h2_frame_bytes_header)
  note h = h2_frame_header_wire [OF assms(1), of pre ?b]
  have l: "length (pre @ h2_header_bytes ft flags sid (length block) @ ?b) = length pre + k"
    using False assms(2) by simp
  show ?thesis
  proof (cases "ft = FrameHeaders")
    case no: False
    have "h2_frame api MethodHttp2ServerFrames (pre @ h2_header_bytes ft flags sid (length block) @ ?b) kt (length pre) p st = Inr None"
      using no False assms(2) by (simp add: h2_frame_def h l del: length_append)
    then show ?thesis using assms(3) False no by (simp add: e h2_loop_end h2_cut_frame_def)
  next
    case True
    obtain hfs where wr: "hp_Write api (serverDecoder p) ?b = (d, hfs, False)" and bs: "bs = [(sid, hfs)]"
      using assms(3) False True by (auto simp: h2_cut_frame_def split: if_splits prod.splits)
    have "slice (pre @ h2_header_bytes ft flags sid (length block) @ ?b) (length pre + 9) (length pre + k) = Inr ?b"
      using slice_middle [of "pre @ h2_header_bytes ft flags sid (length block)" ?b "[]"] False assms(2) by simp
    moreover have "min (length pre + 9 + length block) (length pre + k) = length pre + k" using assms(2) by simp
    ultimately have "h2_frame api MethodHttp2ServerFrames (pre @ h2_header_bytes ft flags sid (length block) @ ?b) kt
        (length pre) p st = Inr (Some (length pre + k, p\<lparr>serverDecoder := d\<rparr>, note_block (sid, hfs) st))"
      using True False unfolding h2_frame_def h l go_bind_Inr Let_def
      by (simp add: h2_headers_note [OF wr] del: length_append min_less_iff_conj)
    moreover have "h2_frame api MethodHttp2ServerFrames (pre @ h2_header_bytes ft flags sid (length block) @ ?b) kt
        (length pre + k) (p\<lparr>serverDecoder := d\<rparr>) (note_block (sid, hfs) st) = Inr None"
      by (simp add: h2_frame_def l del: length_append)
    ultimately show ?thesis by (simp add: e bs h2_loop_step h2_loop_end)
  qed
qed

lemma h2_loop_server_buffer:
  assumes "\<forall>f \<in> set fs. h2_wf_frame f" and "h2_wf_frame (ft, flags, sid, block)" and "k < 9 + length block"
    and "server_blocks api (serverDecoder p) (fs @ h2_cut_frame k (ft, flags, sid, block)) = Some (d, bs)"
  shows "h2_loop api MethodHttp2ServerFrames (h2_frames_bytes fs @ take k (h2_frame_bytes ft flags sid block)) kt 0 p [] =
    Inr (p\<lparr>serverDecoder := d\<rparr>, fold note_block bs [])"
proof -
  let ?t = "take k (h2_frame_bytes ft flags sid block)"
  obtain d1 bs1 bs2 where b: "bs = bs1 @ bs2" "server_blocks api d1 (h2_cut_frame k (ft, flags, sid, block)) = Some (d, bs2)"
    and l: "h2_loop api MethodHttp2ServerFrames (h2_frames_bytes fs @ ?t) kt 0 p [] =
      h2_loop api MethodHttp2ServerFrames (h2_frames_bytes fs @ ?t) kt (length (h2_frames_bytes fs))
        (p\<lparr>serverDecoder := d1\<rparr>) (fold note_block bs1 [])"
    using h2_loop_frames [OF assms(1,4), of "[]" ?t kt "[]"] by auto
  show ?thesis
    using h2_loop_cut [OF assms(2,3), of api "p\<lparr>serverDecoder := d1\<rparr>" d bs2] b
    by (simp add: l)
qed

lemma perm_singleton: "\<forall>xs. mset (order xs) = mset xs \<Longrightarrow> order [x] = [x]"
  by (metis mset_single_iff_right)

lemma perm_Nil: "\<forall>xs. mset (order xs) = mset xs \<Longrightarrow> order [] = []"
  by (metis mset_zero_iff)

lemma Http2_Parse_client_buffer:
  assumes "\<forall>xs. mset (order xs) = mset xs" and "\<forall>f \<in> set fs. h2_skipped f"
    and "h2_wf_frame (FrameHeaders, flags, sid, block)"
    and "hp_Write api (clientDecoder p) block = (d, hfs, False)" and "activeRequests p sid = None"
  shows "Http2_Parse api order p MethodHttp2ClientFrames
      (ClientPreface @ h2_frames_bytes fs @ h2_frame_bytes FrameHeaders flags sid block) kt =
    Inr ([], h2_gc kt (p\<lparr>clientDecoder := d,
      activeRequests := (activeRequests p)(sid \<mapsto> fold emit_client hfs (newRequest kt))\<rparr>))"
proof -
  let ?b = "h2_frames_bytes fs @ h2_frame_bytes FrameHeaders flags sid block"
  have ne: "h2_frame_bytes FrameHeaders flags sid block \<noteq> []" by (simp add: h2_frame_bytes_def)
  have pay: "h2_payload MethodHttp2ClientFrames (ClientPreface @ ?b) = ?b" by (simp add: h2_payload_def)
  have "h2_headers api MethodHttp2ClientFrames kt sid block p [] =
      Inr (p\<lparr>clientDecoder := d,
        activeRequests := (activeRequests p)(sid \<mapsto> fold emit_client hfs (newRequest kt))\<rparr>, [], False)"
    by (simp add: h2_headers_client assms(4,5))
  from h2_loop_buffer [OF assms(2,3) this] show ?thesis
    using ne by (simp add: Http2_Parse_cases pay perm_Nil [OF assms(1)])
qed

lemma Http2_Parse_server_buffer:
  assumes "\<forall>xs. mset (order xs) = mset xs" and "\<forall>f \<in> set fs. h2_skipped f"
    and "h2_wf_frame (FrameHeaders, flags, sid, block)"
    and "hp_Write api (serverDecoder p) block = (d, hfs, False)" and "activeRequests p sid = Some r"
  shows "Http2_Parse api order p MethodHttp2ServerFrames
      (h2_frames_bytes fs @ h2_frame_bytes FrameHeaders flags sid block) kt =
    Inr ([r\<lparr>h2_Status := response_status hfs, h2_Duration := sint (kt - h2_kernelTime r)\<rparr>],
      h2_gc kt (p\<lparr>serverDecoder := d, activeRequests := map_delete (activeRequests p) sid\<rparr>))"
proof -
  let ?b = "h2_frames_bytes fs @ h2_frame_bytes FrameHeaders flags sid block"
  have ne: "h2_frame_bytes FrameHeaders flags sid block \<noteq> []" by (simp add: h2_frame_bytes_def)
  have pay: "h2_payload MethodHttp2ServerFrames ?b = ?b" by (simp add: h2_payload_def)
  have "h2_headers api MethodHttp2ServerFrames kt sid block p [] =
      Inr (p\<lparr>serverDecoder := d\<rparr>, [(sid, response_status hfs)], False)"
    by (simp add: h2_headers_server assms(4) fold_emit_server response_status_def)
  from h2_loop_buffer [OF assms(2,3) this] show ?thesis
    using ne assms(5) by (simp add: Http2_Parse_cases pay perm_singleton [OF assms(1)])
qed

section \<open>Properties\<close>

text \<open>C7: the walk over a captured buffer always ends, and with the method of client or of server
  frames no buffer makes it panic, whatever the decoder answers; a client buffer reports no
  response.\<close>
theorem http2_parse_total:
  assumes "meth = MethodHttp2ClientFrames \<or> meth = MethodHttp2ServerFrames"
    and "\<forall>xs. mset (order xs) = mset xs"
  shows "\<exists>res p'. Http2_Parse api order p meth payload kt = Inr (res, p') \<and>
    (meth = MethodHttp2ClientFrames \<longrightarrow> res = [])"
proof (cases "h2_payload meth payload = []")
  case True
  then show ?thesis by (simp add: Http2_Parse_cases)
next
  case False
  obtain p1 st where l: "h2_loop api meth (h2_payload meth payload) kt 0 p [] = Inr (p1, st)"
    using h2_loop_no_panic [OF assms(1)] by (metis no_panic_iff surj_pair)
  have "st = []" if "meth = MethodHttp2ClientFrames"
    using h2_loop_client_statuses l that by blast
  moreover have "order [] = []" using assms(2) by (metis mset_zero_iff)
  ultimately show ?thesis
    using Http2_Parse_closed [OF assms(2) False l] by (auto simp: map_filter_simps)
qed

text \<open>A stand-in for the decoder, for the examples: one block is a request's, any other a response's.\<close>

definition hpack_sample :: "unit hpack_api" where
  "hpack_sample =
     \<lparr>hp_New = (),
      hp_Write = (\<lambda>d block.
        (d, if block = ''Q'' then [('':method'', ''GET''), ('':path'', ''/x''), ('':scheme'', ''ftp'')]
            else [('':status'', ''404'')], False)),
      hp_WriteNil = (\<lambda>block. Inl NilDereference)\<rparr>"

lemma sample_client:
  "Http2_Parse hpack_sample (\<lambda>xs. xs) (NewHttp2Parser hpack_sample) MethodHttp2ClientFrames
      (ClientPreface @ h2_frames_bytes [] @ h2_frame_bytes FrameHeaders 4 1 ''Q'') 5 =
    Inr ([], h2_gc 5 (NewHttp2Parser hpack_sample
      \<lparr>activeRequests := [1 \<mapsto> newRequest 5\<lparr>h2_Method := ''GET'', h2_Path := ''/x''\<rparr>]\<rparr>))"
proof -
  have w: "h2_wf_frame (FrameHeaders, 4, 1, ''Q'')" by (simp add: h2_wf_frame_def FrameHeaders_def)
  have e: "hp_Write hpack_sample (clientDecoder (NewHttp2Parser hpack_sample)) ''Q'' =
      ((), [('':method'', ''GET''), ('':path'', ''/x''), ('':scheme'', ''ftp'')], False)"
    by (simp add: hpack_sample_def)
  have a: "activeRequests (NewHttp2Parser hpack_sample) 1 = None" by (simp add: NewHttp2Parser_def)
  have f: "fold emit_client [('':method'', ''GET''), ('':path'', ''/x''), ('':scheme'', ''ftp'')]
      (newRequest 5) = newRequest 5\<lparr>h2_Method := ''GET'', h2_Path := ''/x''\<rparr>"
    by (simp add: emit_client_def newRequest_def isHttpMethod_def isHttpPath_def isHttpScheme_def
        has_prefix_def)
  show ?thesis
    using Http2_Parse_client_buffer [OF _ _ w e a, of "\<lambda>xs. xs" "[]" 5]
    unfolding f by (simp add: NewHttp2Parser_def)
qed

theorem http2_parse_total_witness:
  "\<exists>res p'. Http2_Parse hpack_sample (\<lambda>xs. xs) (NewHttp2Parser hpack_sample) MethodHttp2ClientFrames
     (replicate 20 (byte_of 1)) 0 = Inr (res, p') \<and>
     (MethodHttp2ClientFrames = MethodHttp2ClientFrames \<longrightarrow> res = [])"
  by (rule http2_parse_total) simp_all

text \<open>C6: every request the parser keeps or reports has an empty or a valid method, path and scheme:
  header fields that fail the checks never get in, whatever the decoder emits.\<close>
theorem http2_requests_checked:
  assumes "h2_wf p" and "Http2_Parse api order p meth payload kt = Inr (res, p')"
    and "\<forall>xs. mset (order xs) = mset xs"
  shows "h2_wf p' \<and> (\<forall>r \<in> set res. h2_wf_request r)"
proof (cases "h2_payload meth payload = []")
  case True
  then show ?thesis using assms by (simp add: Http2_Parse_cases)
next
  case False
  then obtain p1 st where l: "h2_loop api meth (h2_payload meth payload) kt 0 p [] = Inr (p1, st)"
    using assms(2) by (auto simp: Http2_Parse_cases go_bind_eq_Inr)
  note e = assms(2) [unfolded Http2_Parse_closed [OF assms(3) False l]]
  have w: "h2_wf p1" using h2_loop_wf [OF l assms(1)] .
  then have "h2_wf (p1\<lparr>activeRequests := activeRequests p1 |` (- fst ` set st)\<rparr>)"
    by (auto simp: h2_wf_def ran_def restrict_map_def split: if_splits)
  then have "h2_wf p'" using e h2_gc_wf by auto
  moreover have "h2_wf_request r" if "r \<in> set res" for r
  proof -
    from that e obtain s where "h2_response kt (activeRequests p1) s = Some r"
      by (auto simp: in_set_map_filter)
    then show ?thesis using w by (intro h2_response_wf) (simp_all add: h2_wf_def)
  qed
  ultimately show ?thesis by blast
qed

theorem http2_requests_checked_witness:
  "h2_wf (h2_gc 5 (NewHttp2Parser hpack_sample
      \<lparr>activeRequests := [1 \<mapsto> newRequest 5\<lparr>h2_Method := ''GET'', h2_Path := ''/x''\<rparr>]\<rparr>))"
proof -
  have "h2_wf (NewHttp2Parser hpack_sample)" by (simp add: h2_wf_def NewHttp2Parser_def)
  from http2_requests_checked [OF this sample_client] show ?thesis by simp
qed

text \<open>C5: what a server buffer reports. The payload is any sequence of well-formed frames, of HEADERS and of
  other types, and then the first \<open>k\<close> bytes of one more frame that the capture cuts; the decoder reads
  the header blocks in order, the cut one as far as it goes, without an error, and \<open>bs\<close> are the
  header fields it emits with their streams. Then \<open>Parse\<close> reports exactly one response for each
  waiting request whose stream has a block in \<open>bs\<close>: the request with the last status among all
  header fields of its stream (zero if there is none) and with the time since the request. The answered requests wait
  no longer; the requests of the other streams stay as they are unless they are collected as
  expired; and the decoder's state is the one after the last block. (After a block that the decoder rejects,
  the code goes on inside that block; such buffers are not covered here.)\<close>
theorem http2_responses_match:
  assumes "\<forall>xs. mset (order xs) = mset xs"
    and "\<forall>f \<in> set fs. h2_wf_frame f" and "h2_wf_frame (ft, flags, sid, block)" and "k < 9 + length block"
    and "server_blocks api (serverDecoder p) (fs @ h2_cut_frame k (ft, flags, sid, block)) = Some (d, bs)"
  shows "\<exists>res p'.
    Http2_Parse api order p MethodHttp2ServerFrames
      (h2_frames_bytes fs @ take k (h2_frame_bytes ft flags sid block)) kt = Inr (res, p') \<and>
    serverDecoder p' = d \<and>
    mset res = mset (List.map_filter (h2_response kt (activeRequests p)) (stream_statuses bs)) \<and>
    (\<forall>s \<in> fst ` set bs. activeRequests p' s = None) \<and>
    (\<forall>s. s \<notin> fst ` set bs \<longrightarrow>
       activeRequests p' s = activeRequests p s \<or>
       (activeRequests p' s = None \<and> (\<exists>r. activeRequests p s = Some r \<and> h2_expired kt r)))"
proof (cases "h2_frames_bytes fs @ take k (h2_frame_bytes ft flags sid block) = []")
  case True
  have ne: "h2_frame_bytes t x i b \<noteq> []" for t x i b
    by (metis add_eq_0_iff_both_eq_0 length_h2_frame_bytes list.size(3) zero_neq_numeral)
  have "fs = []" using True ne by (cases fs) (auto simp: h2_frames_bytes_def)
  moreover have "k = 0" using True ne by simp
  ultimately have "d = serverDecoder p" and "bs = []" using assms(5) by (simp_all add: h2_cut_frame_def)
  then show ?thesis using True by (simp add: Http2_Parse_cases h2_payload_def stream_statuses_def map_filter_simps)
next
  case False
  let ?pay = "h2_frames_bytes fs @ take k (h2_frame_bytes ft flags sid block)"
  let ?st = "fold note_block bs []"
  let ?p' = "h2_gc kt (p\<lparr>serverDecoder := d, activeRequests := activeRequests p |` (- fst ` set ?st)\<rparr>)"
  have pay: "h2_payload MethodHttp2ServerFrames ?pay = ?pay" by (simp add: h2_payload_def)
  note l = h2_loop_server_buffer [OF assms(2-5), of kt]
  have s: "set ?st = set (stream_statuses bs)" using note_blocks_statuses by (metis mset_eq_setD)
  have k: "fst ` set ?st = fst ` set bs" by (simp add: s stream_statuses_def image_image)
  have "mset (List.map_filter (h2_response kt (activeRequests p)) (order ?st)) =
      mset (List.map_filter (h2_response kt (activeRequests p)) (stream_statuses bs))"
    by (rule mset_map_filter) (simp add: assms(1) note_blocks_statuses)
  moreover have "serverDecoder ?p' = d" by (simp add: h2_gc_def Let_def)
  moreover have "\<forall>s \<in> fst ` set bs. activeRequests ?p' s = None" by (simp add: h2_gc_restricted k)
  moreover have "\<forall>s. s \<notin> fst ` set bs \<longrightarrow>
      activeRequests ?p' s = activeRequests p s \<or>
      (activeRequests ?p' s = None \<and> (\<exists>r. activeRequests p s = Some r \<and> h2_expired kt r))"
    unfolding h2_gc_restricted k by (auto split: bind_splits if_splits)
  ultimately show ?thesis
    using Http2_Parse_closed [OF assms(1), of MethodHttp2ServerFrames ?pay api kt p] False l
    by (simp add: pay)
qed

text \<open>The buffer of the example: a frame that is skipped, the response of stream 1, and the beginning of
  stream 3's; the requests of the streams 1 and 7 wait.\<close>
theorem http2_responses_match_witness:
  "\<exists>res p'.
    Http2_Parse hpack_sample rev
      (NewHttp2Parser hpack_sample\<lparr>activeRequests := [1 \<mapsto> newRequest 5, 7 \<mapsto> newRequest 6]\<rparr>) MethodHttp2ServerFrames
      (h2_frames_bytes [(0, 0, 1, ''body''), (FrameHeaders, 4, 1, ''R'')] @ take 10 (h2_frame_bytes FrameHeaders 4 3 ''RRR'')) 12 =
      Inr (res, p') \<and>
    mset res = {#newRequest 5\<lparr>h2_Status := 404, h2_Duration := 7\<rparr>#} \<and>
    activeRequests p' 1 = None \<and> activeRequests p' 7 = Some (newRequest 6)"
proof -
  let ?p = "NewHttp2Parser hpack_sample\<lparr>activeRequests := [1 \<mapsto> newRequest 5, 7 \<mapsto> newRequest 6]\<rparr>"
  let ?hfs = "[('':status'', ''404'')]"
  have w: "\<forall>f \<in> set [(0, 0, 1, ''body''), (FrameHeaders, 4, 1, ''R'')]. h2_wf_frame f"
    "h2_wf_frame (FrameHeaders, 4, 3, ''RRR'')" "(10 :: nat) < 9 + length ''RRR''"
    by (simp_all add: h2_wf_frame_def FrameHeaders_def)
  have b: "server_blocks hpack_sample (serverDecoder ?p)
      ([(0, 0, 1, ''body''), (FrameHeaders, 4, 1, ''R'')] @ h2_cut_frame 10 (FrameHeaders, 4, 3, ''RRR'')) =
      Some ((), [(1, ?hfs), (3, ?hfs)])"
    by (simp add: h2_cut_frame_def hpack_sample_def FrameHeaders_def)
  have st: "response_status ?hfs = 404"
    by (simp add: response_status_def go_defs byte_val_def)
  have "stream_statuses [(1, ?hfs), (3, ?hfs)] = [(1, 404), (3, 404)]"
    by (simp add: stream_statuses_def stream_fields_def st)
  then have "List.map_filter (h2_response 12 (activeRequests ?p)) (stream_statuses [(1, ?hfs), (3, ?hfs)]) =
      [newRequest 5\<lparr>h2_Status := 404, h2_Duration := 7\<rparr>]"
    by (simp add: map_filter_simps h2_response_def newRequest_def)
  moreover obtain res p' where
    "Http2_Parse hpack_sample rev ?p MethodHttp2ServerFrames
      (h2_frames_bytes [(0, 0, 1, ''body''), (FrameHeaders, 4, 1, ''R'')] @ take 10 (h2_frame_bytes FrameHeaders 4 3 ''RRR'')) 12 =
      Inr (res, p')"
    and "mset res = mset (List.map_filter (h2_response 12 (activeRequests ?p)) (stream_statuses [(1, ?hfs), (3, ?hfs)]))"
    and "\<forall>s \<in> fst ` set [(1, ?hfs), (3, ?hfs)]. activeRequests p' s = None"
    and o: "\<forall>s. s \<notin> fst ` set [(1, ?hfs), (3, ?hfs)] \<longrightarrow>
       activeRequests p' s = activeRequests ?p s \<or>
       (activeRequests p' s = None \<and> (\<exists>r. activeRequests ?p s = Some r \<and> h2_expired 12 r))"
    using http2_responses_match [OF _ w b, of rev 12] by auto
  moreover have "activeRequests p' 7 = Some (newRequest 6)"
    using o [rule_format, of 7] by (simp add: h2_expired_def newRequest_def)
  ultimately show ?thesis by auto
qed

text \<open>C8: the order in which Go iterates over the map of statuses does not matter: two orders leave
  the same parser and report the same requests up to their order in the result.\<close>
theorem http2_order_independent:
  assumes "\<forall>xs. mset (order1 xs) = mset xs" and "\<forall>xs. mset (order2 xs) = mset xs"
  shows "map_sum id (\<lambda>(res, p'). (mset res, p')) (Http2_Parse api order1 p meth payload kt) =
    map_sum id (\<lambda>(res, p'). (mset res, p')) (Http2_Parse api order2 p meth payload kt)"
proof (cases "h2_payload meth payload = []")
  case True
  then show ?thesis by (simp add: Http2_Parse_cases)
next
  case False
  show ?thesis
  proof (cases "h2_loop api meth (h2_payload meth payload) kt 0 p []")
    case (Inl e)
    then show ?thesis using False by (simp add: Http2_Parse_cases)
  next
    case (Inr r)
    obtain p1 st where r: "r = (p1, st)" by (cases r)
    have "mset (List.map_filter (h2_response kt (activeRequests p1)) (order1 st)) =
        mset (List.map_filter (h2_response kt (activeRequests p1)) (order2 st))"
      by (rule mset_map_filter) (simp add: assms)
    then show ?thesis
      by (simp add: Http2_Parse_closed [OF assms(1) False Inr [unfolded r]]
          Http2_Parse_closed [OF assms(2) False Inr [unfolded r]])
  qed
qed

theorem http2_order_independent_witness:
  "map_sum id (\<lambda>(res, p'). (mset res, p'))
      (Http2_Parse hpack_sample rev (NewHttp2Parser hpack_sample) MethodHttp2ServerFrames ''abc'' 9) =
    map_sum id (\<lambda>(res, p'). (mset res, p'))
      (Http2_Parse hpack_sample (\<lambda>xs. xs) (NewHttp2Parser hpack_sample) MethodHttp2ServerFrames ''abc'' 9)"
  by (rule http2_order_independent) simp_all

text \<open>C4: a whole exchange. A client buffer with the connection preface, any frames of other types
  and a HEADERS frame of a new stream, and then a server buffer with a HEADERS frame of that
  stream, report one request: with the checked method, path and scheme the decoder emitted, the
  decoded status and the time between the two buffers; and the stream waits no longer.\<close>
theorem http2_exchange:
  assumes "\<forall>xs. mset (order xs) = mset xs"
    and "\<forall>f \<in> set fs. h2_skipped f" and "\<forall>f \<in> set fs'. h2_skipped f"
    and "h2_wf_frame (FrameHeaders, flags, sid, block)" and "h2_wf_frame (FrameHeaders, flags', sid, block')"
    and "hp_Write api (clientDecoder p) block = (d, hfs, False)"
    and "hp_Write api (serverDecoder p) block' = (d', hfs', False)"
    and "activeRequests p sid = None"
  shows "\<exists>p1 p2.
    Http2_Parse api order p MethodHttp2ClientFrames
      (ClientPreface @ h2_frames_bytes fs @ h2_frame_bytes FrameHeaders flags sid block) kt = Inr ([], p1) \<and>
    Http2_Parse api order p1 MethodHttp2ServerFrames
      (h2_frames_bytes fs' @ h2_frame_bytes FrameHeaders flags' sid block') kt' =
      Inr ([(fold emit_client hfs (newRequest kt))
              \<lparr>h2_Status := response_status hfs', h2_Duration := sint (kt' - kt)\<rparr>], p2) \<and>
    activeRequests p2 sid = None"
proof -
  let ?r = "fold emit_client hfs (newRequest kt)"
  let ?q = "p\<lparr>clientDecoder := d, activeRequests := (activeRequests p)(sid \<mapsto> ?r)\<rparr>"
  have t: "h2_kernelTime ?r = kt" by (simp add: emit_client_kernelTime newRequest_def)
  obtain p1 where p1: "p1 = h2_gc kt ?q" by blast
  have a: "activeRequests p1 sid = Some ?r" using t by (simp add: p1 h2_gc_active h2_expired_def)
  have d: "hp_Write api (serverDecoder p1) block' = (d', hfs', False)"
    using assms(7) by (simp add: p1 h2_gc_def Let_def)
  let ?p2 = "h2_gc kt' (p1\<lparr>serverDecoder := d', activeRequests := map_delete (activeRequests p1) sid\<rparr>)"
  have "activeRequests ?p2 sid = None" by (simp add: h2_gc_active)
  then show ?thesis
    using Http2_Parse_client_buffer [OF assms(1,2,4,6,8), of kt, folded p1]
      Http2_Parse_server_buffer [OF assms(1,3,5) d a, of kt', unfolded t] by blast
qed

theorem http2_exchange_witness:
  "\<exists>p1 p2.
    Http2_Parse hpack_sample rev (NewHttp2Parser hpack_sample) MethodHttp2ClientFrames
      (ClientPreface @ h2_frames_bytes [(4, 0, 0, '''')] @ h2_frame_bytes FrameHeaders 4 1 ''Q'') 5 = Inr ([], p1) \<and>
    Http2_Parse hpack_sample rev p1 MethodHttp2ServerFrames
      (h2_frames_bytes [(0, 0, 1, ''body'')] @ h2_frame_bytes FrameHeaders 4 1 ''R'') 12 =
      Inr ([newRequest 5\<lparr>h2_Method := ''GET'', h2_Path := ''/x'', h2_Status := 404, h2_Duration := 7\<rparr>], p2)"
proof -
  have w: "h2_wf_frame (FrameHeaders, 4, 1, ''Q'')" "h2_wf_frame (FrameHeaders, 4, 1, ''R'')"
    by (simp_all add: h2_wf_frame_def FrameHeaders_def)
  have s: "\<forall>f \<in> set [(4, 0, 0, '''')]. h2_skipped f" "\<forall>f \<in> set [(0, 0, 1, ''body'')]. h2_skipped f"
    by (simp_all add: h2_skipped_def h2_wf_frame_def FrameHeaders_def)
  have q: "hp_Write hpack_sample (clientDecoder (NewHttp2Parser hpack_sample)) ''Q'' =
      ((), [('':method'', ''GET''), ('':path'', ''/x''), ('':scheme'', ''ftp'')], False)"
    "hp_Write hpack_sample (serverDecoder (NewHttp2Parser hpack_sample)) ''R'' =
      ((), [('':status'', ''404'')], False)"
    by (simp_all add: hpack_sample_def)
  have a: "activeRequests (NewHttp2Parser hpack_sample) 1 = None" by (simp add: NewHttp2Parser_def)
  have f: "fold emit_client [('':method'', ''GET''), ('':path'', ''/x''), ('':scheme'', ''ftp'')]
      (newRequest 5) = newRequest 5\<lparr>h2_Method := ''GET'', h2_Path := ''/x''\<rparr>"
    by (simp add: emit_client_def newRequest_def isHttpMethod_def isHttpPath_def isHttpScheme_def
        has_prefix_def)
  have st: "response_status [('':status'', ''404'')] = 404"
    by (simp add: response_status_def go_defs byte_val_def)
  show ?thesis
    using http2_exchange [OF _ s w q a, of rev 5 12] unfolding f st by auto
qed

text \<open>expired requests are collected. When more than ten minutes have passed since the last
  collection, the time of this buffer becomes the time of the last collection, and, unless that
  was the first, no request older than ten minutes remains.\<close>
theorem http2_gc_bound:
  assumes "Http2_Parse api order p meth payload kt = Inr (res, p')"
    and "h2_payload meth payload \<noteq> []" and "\<forall>xs. mset (order xs) = mset xs"
  shows "lastGcTime p' = (if http2DecoderGcInterval < kt - lastGcTime p then kt else lastGcTime p) \<and>
    (http2DecoderGcInterval < kt - lastGcTime p \<and> 0 < lastGcTime p \<longrightarrow>
     (\<forall>sid r. activeRequests p' sid = Some r \<longrightarrow> kt - h2_kernelTime r \<le> http2DecoderGcInterval))"
proof -
  obtain p1 st where l: "h2_loop api meth (h2_payload meth payload) kt 0 p [] = Inr (p1, st)"
    using assms(1,2) by (auto simp: Http2_Parse_cases go_bind_eq_Inr)
  have g: "lastGcTime p1 = lastGcTime p" by (rule h2_loop_lastGcTime [OF l])
  have p': "p' = h2_gc kt (p1\<lparr>activeRequests := activeRequests p1 |` (- fst ` set st)\<rparr>)"
    using assms(1) unfolding Http2_Parse_closed [OF assms(3,2) l] by simp
  have "kt - h2_kernelTime r \<le> http2DecoderGcInterval"
    if "http2DecoderGcInterval < kt - lastGcTime p" "0 < lastGcTime p" "activeRequests p' sid = Some r" for sid r
    using that unfolding p' h2_gc_restricted g
    by (auto simp: h2_expired_def not_less split: if_splits bind_splits)
  then show ?thesis by (auto simp: p' h2_gc_lastGcTime g)
qed

theorem http2_gc_bound_witness:
  "lastGcTime (h2_gc 5 (NewHttp2Parser hpack_sample
      \<lparr>activeRequests := [1 \<mapsto> newRequest 5\<lparr>h2_Method := ''GET'', h2_Path := ''/x''\<rparr>]\<rparr>)) = 0"
proof -
  have "h2_payload MethodHttp2ClientFrames
      (ClientPreface @ h2_frames_bytes [] @ h2_frame_bytes FrameHeaders 4 1 ''Q'') \<noteq> []"
    by (simp add: h2_payload_def h2_frame_bytes_def)
  from http2_gc_bound [OF sample_client this] show ?thesis by (simp add: NewHttp2Parser_def)
qed

end
