(* ===== verification/Prepared_Statements.thy ===== *)
theory Prepared_Statements
imports Prelude
begin

text \<open>
  The contract the MySQL and the PostgreSQL parser share: a table of prepared statements, kept by
  watching the messages of a connection. The abstract parser \<open>spec_run\<close> has a plain table from
  statement identifiers to query texts; the locale gives every captured message a meaning, states
  what one message must then do to a concrete parser, and proves that any run of messages
  behaves as the abstract one. A message that is about no statement is reported as a text and
  leaves the table alone.
\<close>

datatype 'id stmt_msg =
    SPrepare 'id string
  | SExecute 'id
  | SClose 'id
  | SOther string

section \<open>The abstract parser\<close>

fun spec_step ::
  "('id \<Rightarrow> string \<Rightarrow> string) \<Rightarrow> ('id \<Rightarrow> string) \<Rightarrow> ('id \<rightharpoonup> string) \<Rightarrow> 'id stmt_msg \<Rightarrow>
   string \<times> ('id \<rightharpoonup> string)" where
  "spec_step announce unknown tbl (SPrepare i q) = (announce i q, tbl(i \<mapsto> q))"
| "spec_step announce unknown tbl (SExecute i) =
     (case tbl i of Some q \<Rightarrow> q | None \<Rightarrow> unknown i, tbl)"
| "spec_step announce unknown tbl (SClose i) = ('''', tbl(i := None))"
| "spec_step announce unknown tbl (SOther t) = (t, tbl)"

fun spec_run ::
  "('id \<Rightarrow> string \<Rightarrow> string) \<Rightarrow> ('id \<Rightarrow> string) \<Rightarrow> ('id \<rightharpoonup> string) \<Rightarrow> 'id stmt_msg list \<Rightarrow>
   string list \<times> ('id \<rightharpoonup> string)" where
  "spec_run announce unknown tbl [] = ([], tbl)"
| "spec_run announce unknown tbl (m # ms) =
     (let r = spec_step announce unknown tbl m;
          rs = spec_run announce unknown (snd r) ms
      in (fst r # fst rs, snd rs))"

text \<open>Running a parser that may panic over a list of messages.\<close>

fun run_msgs :: "('st \<Rightarrow> 'm \<Rightarrow> (string \<times> 'st) go) \<Rightarrow> 'st \<Rightarrow> 'm list \<Rightarrow> (string list \<times> 'st) go" where
  "run_msgs parse s [] = Inr ([], s)"
| "run_msgs parse s (m # ms) =
     go_bind (parse s m) (\<lambda>(t, s').
     go_bind (run_msgs parse s' ms) (\<lambda>(ts, s'').
       Inr (t # ts, s'')))"

text \<open>
  The text the latest preparation of a statement has, if no later message closed it: what an
  execution should be reported as.
\<close>

fun last_prepared :: "'id \<Rightarrow> 'id stmt_msg list \<Rightarrow> string option \<Rightarrow> string option" where
  "last_prepared i [] d = d"
| "last_prepared i (SPrepare j q # ms) d = last_prepared i ms (if j = i then Some q else d)"
| "last_prepared i (SExecute j # ms) d = last_prepared i ms d"
| "last_prepared i (SClose j # ms) d = last_prepared i ms (if j = i then None else d)"
| "last_prepared i (SOther t # ms) d = last_prepared i ms d"

lemma spec_run_table:
  "snd (spec_run announce unknown tbl ms) i = last_prepared i ms (tbl i)"
proof (induction ms arbitrary: tbl)
  case Nil
  then show ?case by simp
next
  case (Cons m ms)
  show ?case by (cases m) (simp_all add: Cons Let_def)
qed

lemma spec_run_append:
  "fst (spec_run announce unknown tbl (ms @ [m])) =
   fst (spec_run announce unknown tbl ms) @ [fst (spec_step announce unknown (snd (spec_run announce unknown tbl ms)) m)]"
  by (induction ms arbitrary: tbl) (simp_all add: Let_def)

lemma spec_run_append_table:
  "snd (spec_run announce unknown tbl (ms @ [m])) =
   snd (spec_step announce unknown (snd (spec_run announce unknown tbl ms)) m)"
  by (induction ms arbitrary: tbl) (simp_all add: Let_def)

lemma length_spec_run [simp]: "length (fst (spec_run announce unknown tbl ms)) = length ms"
  by (induction ms arbitrary: tbl) (simp_all add: Let_def)

section \<open>The contract of a concrete parser\<close>

locale prepared_statements =
  fixes lookup :: "'st \<Rightarrow> 'id \<Rightarrow> string option"
    and parse :: "'st \<Rightarrow> 'm \<Rightarrow> (string \<times> 'st) go"
    and wf_msg :: "'m \<Rightarrow> bool"
    and meaning :: "'m \<Rightarrow> 'id stmt_msg"
    and announce :: "'id \<Rightarrow> string \<Rightarrow> string"
    and unknown :: "'id \<Rightarrow> string"
  assumes parse_prepare:
      "wf_msg m \<Longrightarrow> meaning m = SPrepare i q \<Longrightarrow>
       \<exists>s'. parse s m = Inr (announce i q, s') \<and> lookup s' = (lookup s)(i \<mapsto> q)"
    and parse_execute:
      "wf_msg m \<Longrightarrow> meaning m = SExecute i \<Longrightarrow>
       parse s m = Inr (case lookup s i of Some q \<Rightarrow> q | None \<Rightarrow> unknown i, s)"
    and parse_close:
      "wf_msg m \<Longrightarrow> meaning m = SClose i \<Longrightarrow>
       \<exists>s'. parse s m = Inr ('''', s') \<and> lookup s' = (lookup s)(i := None)"
    and parse_other:
      "wf_msg m \<Longrightarrow> meaning m = SOther t \<Longrightarrow> parse s m = Inr (t, s)"
begin

lemma step_refines:
  assumes "wf_msg m"
  shows "\<exists>s'. parse s m = Inr (fst (spec_step announce unknown (lookup s) (meaning m)), s') \<and>
    lookup s' = snd (spec_step announce unknown (lookup s) (meaning m))"
proof (cases "meaning m")
  case (SPrepare i q)
  then show ?thesis using parse_prepare [OF assms SPrepare, of s] by auto
next
  case (SExecute i)
  then show ?thesis using parse_execute [OF assms SExecute, of s] by simp
next
  case (SClose i)
  then show ?thesis using parse_close [OF assms SClose, of s] by auto
next
  case (SOther t)
  then show ?thesis using parse_other [OF assms SOther, of s] by simp
qed

lemma run_refines:
  "\<forall>m \<in> set ms. wf_msg m \<Longrightarrow>
   \<exists>s'. run_msgs parse s ms = Inr (fst (spec_run announce unknown (lookup s) (map meaning ms)), s') \<and>
     lookup s' = snd (spec_run announce unknown (lookup s) (map meaning ms))"
proof (induction ms arbitrary: s)
  case Nil
  then show ?case by simp
next
  case (Cons m ms)
  then obtain s' where s': "parse s m = Inr (fst (spec_step announce unknown (lookup s) (meaning m)), s')"
    and l': "lookup s' = snd (spec_step announce unknown (lookup s) (meaning m))"
    using step_refines by (meson list.set_intros(1))
  from Cons obtain s'' where
    "run_msgs parse s' ms = Inr (fst (spec_run announce unknown (lookup s') (map meaning ms)), s'')"
    and "lookup s'' = snd (spec_run announce unknown (lookup s') (map meaning ms))"
    by fastforce
  with s' l' show ?case by (auto simp: Let_def)
qed

text \<open>An execution after any run is reported as the latest preparation still open.\<close>

lemma run_execute:
  assumes "\<forall>m \<in> set ms. wf_msg m" and "wf_msg m" and "meaning m = SExecute i" and "lookup s = Map.empty"
  shows "\<exists>outs s'. run_msgs parse s (ms @ [m]) =
    Inr (outs @ [case last_prepared i (map meaning ms) None of Some q \<Rightarrow> q | None \<Rightarrow> unknown i], s') \<and>
    length outs = length ms \<and> lookup s' i = last_prepared i (map meaning ms) None"
proof -
  have "\<forall>x \<in> set (ms @ [m]). wf_msg x" using assms by auto
  from run_refines [OF this, of s] obtain s' where
    r: "run_msgs parse s (ms @ [m]) =
      Inr (fst (spec_run announce unknown (lookup s) (map meaning ms @ [SExecute i])), s')"
    and l: "lookup s' = snd (spec_run announce unknown (lookup s) (map meaning ms @ [SExecute i]))"
    using assms(3) by auto
  have "snd (spec_run announce unknown Map.empty (map meaning ms)) i = last_prepared i (map meaning ms) None"
    by (simp add: spec_run_table)
  then show ?thesis
    using r l assms(4)
    by (intro exI [of _ "fst (spec_run announce unknown (lookup s) (map meaning ms))"] exI [of _ s'])
      (simp add: spec_run_append spec_run_append_table)
qed

end

end
