(* ===== verification/L7_Mysql.thy ===== *)
theory L7_Mysql
imports L7_Types Go_Strings Prepared_Statements
begin

text \<open>
  \<open>pkg/ebpftracer/l7/mysql.go\<close>: the parser of MySQL command packets and its table of prepared
  statements, keyed by the decimal form of the statement's number. Reads of the payload are
  checked, so a slice out of range is a panic of the model.
\<close>

section \<open>The parser\<close>

abbreviation (input) MysqlComQuery :: nat where "MysqlComQuery \<equiv> 3"
abbreviation (input) MysqlComStmtPrepare :: nat where "MysqlComStmtPrepare \<equiv> 0x16"
abbreviation (input) MysqlComStmtExecute :: nat where "MysqlComStmtExecute \<equiv> 0x17"
abbreviation (input) MysqlComStmtClose :: nat where "MysqlComStmtClose \<equiv> 0x19"
abbreviation (input) mysqlMsgHeaderSize :: nat where "mysqlMsgHeaderSize \<equiv> 4"

record MysqlParser =
  my_preparedStatements :: "string \<rightharpoonup> string"

definition NewMysqlParser :: MysqlParser where
  "NewMysqlParser = \<lparr>my_preparedStatements = Map.empty\<rparr>"

text \<open>The closure \<open>readQuery\<close>: the query up to the message's length or the end of the capture.\<close>

definition mysql_readQuery :: "bytes \<Rightarrow> nat \<Rightarrow> string go" where
  "mysql_readQuery payload msgSize =
     (let to = mysqlMsgHeaderSize + msgSize;
          partial = length payload < to;
          to' = (if partial then length payload else to)
      in go_bind (slice payload (mysqlMsgHeaderSize + 1) to') (\<lambda>query.
           Inr (if partial then query @ ''...'' else query)))"

text \<open>The closure \<open>readStatementId\<close>.\<close>

definition mysql_readStatementId :: "bytes \<Rightarrow> string go" where
  "mysql_readStatementId payload =
     go_bind (slice_from payload (mysqlMsgHeaderSize + 1)) (\<lambda>s.
     go_bind (LE_u32 s) (\<lambda>w.
       Inr (format_uint (unat w))))"

definition Mysql_Parse :: "MysqlParser \<Rightarrow> bytes \<Rightarrow> u32 \<Rightarrow> (string \<times> MysqlParser) go" where
  "Mysql_Parse p payload statementId =
     (if length payload < mysqlMsgHeaderSize + 5 then Inr ('''', p)
      else
        go_bind (idx payload 0) (\<lambda>b0.
        go_bind (idx payload 1) (\<lambda>b1.
        go_bind (idx payload 2) (\<lambda>b2.
        go_bind (idx payload 4) (\<lambda>cmd.
          let msgSize = le_nat [b0, b1, b2] in
          if byte_val cmd = MysqlComQuery then
            go_bind (mysql_readQuery payload msgSize) (\<lambda>query. Inr (query, p))
          else if byte_val cmd = MysqlComStmtExecute then
            go_bind (mysql_readStatementId payload) (\<lambda>statementIdStr.
              case my_preparedStatements p statementIdStr of
                Some statement \<Rightarrow> Inr (statement, p)
              | None \<Rightarrow> Inr (''EXECUTE '' @ statementIdStr @ '' /* unknown */'', p))
          else if byte_val cmd = MysqlComStmtPrepare then
            go_bind (mysql_readQuery payload msgSize) (\<lambda>query.
              let statementIdStr = format_uint (unat statementId) in
              Inr (''PREPARE '' @ statementIdStr @ '' FROM '' @ query,
                   p\<lparr>my_preparedStatements := (my_preparedStatements p)(statementIdStr \<mapsto> query)\<rparr>))
          else if byte_val cmd = MysqlComStmtClose then
            go_bind (mysql_readStatementId payload) (\<lambda>statementIdStr.
              Inr ('''', p\<lparr>my_preparedStatements := map_delete (my_preparedStatements p) statementIdStr\<rparr>))
          else Inr ('''', p))))))"

section \<open>Packets\<close>

text \<open>A packet: three bytes of length, a sequence number, the command and its body.\<close>

definition mysql_packet :: "char \<Rightarrow> nat \<Rightarrow> bytes \<Rightarrow> bytes" where
  "mysql_packet seq cmd body = le_bytes 3 (Suc (length body)) @ seq # byte_of cmd # body"

lemma length_mysql_packet [simp]: "length (mysql_packet seq cmd body) = 5 + length body"
  by (simp add: mysql_packet_def)

text \<open>
  What the parser gets of a packet: the first \<open>n\<close> bytes of what was written, the packet and what
  follows it. A query that the capture cuts gets an ellipsis.
\<close>

definition mysql_captured :: "nat \<Rightarrow> char \<Rightarrow> nat \<Rightarrow> bytes \<Rightarrow> bytes \<Rightarrow> bytes" where
  "mysql_captured n seq cmd body after = take n (mysql_packet seq cmd body @ after)"

definition mysql_query :: "nat \<Rightarrow> string \<Rightarrow> string" where
  "mysql_query n q = (if 5 + length q \<le> n then q else take (n - 5) q @ ''...'')"

lemma mysql_captured_parts:
  assumes "Suc (length body) < 2 ^ 24" and "5 \<le> n"
  shows "idx (mysql_captured n seq cmd body after) 4 = Inr (byte_of cmd)"
    and "\<exists>b0 b1 b2. idx (mysql_captured n seq cmd body after) 0 = Inr b0 \<and>
      idx (mysql_captured n seq cmd body after) 1 = Inr b1 \<and>
      idx (mysql_captured n seq cmd body after) 2 = Inr b2 \<and>
      le_nat [b0, b1, b2] = Suc (length body)"
    and "drop 5 (mysql_captured n seq cmd body after) = take (n - 5) (body @ after)"
proof -
  obtain j where n: "n = 5 + j" using assms(2) le_Suc_ex by blast
  have l3: "le_bytes 3 k = [byte_of k, byte_of (k div 256), byte_of (k div 256 div 256)]" for k
    by (simp add: numeral_3_eq_3)
  have "le_nat (le_bytes 3 (Suc (length body))) = Suc (length body)"
    using assms(1) by (simp add: le_nat_le_bytes)
  then show "idx (mysql_captured n seq cmd body after) 4 = Inr (byte_of cmd)"
    "\<exists>b0 b1 b2. idx (mysql_captured n seq cmd body after) 0 = Inr b0 \<and>
      idx (mysql_captured n seq cmd body after) 1 = Inr b1 \<and>
      idx (mysql_captured n seq cmd body after) 2 = Inr b2 \<and>
      le_nat [b0, b1, b2] = Suc (length body)"
    "drop 5 (mysql_captured n seq cmd body after) = take (n - 5) (body @ after)"
    unfolding l3
    by (simp_all add: n mysql_captured_def mysql_packet_def idx_def l3 drop_take del: le_nat.simps byte_val_byte_of)
qed

lemma mysql_readQuery_captured:
  assumes "9 \<le> length (mysql_captured n seq cmd body after)" and "Suc (length body) < 2 ^ 24"
  shows "mysql_readQuery (mysql_captured n seq cmd body after) (Suc (length body)) = Inr (mysql_query n body)"
proof -
  let ?p = "mysql_captured n seq cmd body after"
  have l: "length ?p = min n (5 + length body + length after)" by (simp add: mysql_captured_def)
  then have n: "5 \<le> n" using assms(1) by simp
  note d = mysql_captured_parts(3) [OF assms(2) n, of seq cmd after]
  have s: "slice ?p (mysqlMsgHeaderSize + 1) k = Inr (take (k - 5) (take (n - 5) (body @ after)))"
    if "5 \<le> k" "k \<le> length ?p" for k
    using that by (simp add: slice_def drop_take d del: take_append)
  show ?thesis
  proof (cases "5 + length body \<le> n")
    case True
    then have "\<not> length ?p < mysqlMsgHeaderSize + Suc (length body)" using l by simp
    then show ?thesis
      using True s [of "5 + length body"] l by (simp add: mysql_readQuery_def Let_def mysql_query_def)
  next
    case False
    then have "length ?p < mysqlMsgHeaderSize + Suc (length body)" and "length ?p = n" using l by auto
    then show ?thesis
      using False s [of n] n by (simp add: mysql_readQuery_def Let_def mysql_query_def)
  qed
qed

lemma mysql_readStatementId_captured:
  assumes "9 \<le> n"
  shows "mysql_readStatementId (mysql_captured n seq cmd (le_bytes 4 (unat (i :: u32)) @ r) after) =
     Inr (format_uint (unat i))"
proof -
  obtain j where n: "n = 9 + j" using assms le_Suc_ex by blast
  have "drop 5 (mysql_captured n seq cmd (le_bytes 4 (unat i) @ r) after) =
      le_bytes 4 (unat i) @ take j (r @ after)"
    by (simp add: n mysql_captured_def mysql_packet_def drop_take)
  moreover have "5 \<le> length (mysql_captured n seq cmd (le_bytes 4 (unat i) @ r) after)"
    by (simp add: n mysql_captured_def)
  ultimately show ?thesis by (simp add: mysql_readStatementId_def slice_from_def LE_u32_le_bytes)
qed

lemma Mysql_Parse_captured:
  assumes "Suc (length body) < 2 ^ 24" and "cmd < 256"
    and "9 \<le> length (mysql_captured n seq cmd body after)"
  shows "Mysql_Parse p (mysql_captured n seq cmd body after) sid =
    (let payload = mysql_captured n seq cmd body after;
         query = mysql_query n body in
     if cmd = MysqlComQuery then Inr (query, p)
     else if cmd = MysqlComStmtExecute then
       go_bind (mysql_readStatementId payload) (\<lambda>i.
         case my_preparedStatements p i of
           Some statement \<Rightarrow> Inr (statement, p)
         | None \<Rightarrow> Inr (''EXECUTE '' @ i @ '' /* unknown */'', p))
     else if cmd = MysqlComStmtPrepare then
       Inr (''PREPARE '' @ format_uint (unat sid) @ '' FROM '' @ query,
            p\<lparr>my_preparedStatements := (my_preparedStatements p)(format_uint (unat sid) \<mapsto> query)\<rparr>)
     else if cmd = MysqlComStmtClose then
       go_bind (mysql_readStatementId payload) (\<lambda>i.
         Inr ('''', p\<lparr>my_preparedStatements := map_delete (my_preparedStatements p) i\<rparr>))
     else Inr ('''', p))"
proof -
  have "length (mysql_captured n seq cmd body after) \<le> n" by (simp add: mysql_captured_def)
  then have n5: "5 \<le> n" using assms(3) by simp
  note h = mysql_captured_parts [OF assms(1) n5, of seq cmd after]
  note q = mysql_readQuery_captured [OF assms(3,1)]
  have l: "\<not> length (mysql_captured n seq cmd body after) < mysqlMsgHeaderSize + 5"
    using assms(3) by simp
  from h(2) obtain b0 b1 b2 where b: "idx (mysql_captured n seq cmd body after) 0 = Inr b0"
    "idx (mysql_captured n seq cmd body after) 1 = Inr b1"
    "idx (mysql_captured n seq cmd body after) 2 = Inr b2"
    "le_nat [b0, b1, b2] = Suc (length body)" by blast
  have c: "byte_val (byte_of cmd) = cmd" using assms(2) by simp
  show ?thesis
    unfolding Mysql_Parse_def if_not_P [OF l] b h(1) go_bind_Inr Let_def b(4) q c
    by (rule refl)
qed

section \<open>The messages of the prepared-statement contract\<close>

text \<open>
  The commands of a connection: a preparation, whose number the kernel side reports with it,
  an execution with any parameters, a closing, a plain query and any other command. A message is
  a command with the number of captured bytes, the sequence number, the number that the
  kernel side reports, and what was written after the packet. All that is asked of it is that the
  command fits a packet.
\<close>

datatype mysql_command =
    MyQuery string
  | MyPrepare string
  | MyExecute u32 bytes
  | MyClose u32
  | MyOther nat bytes

type_synonym mysql_message = "nat \<times> char \<times> u32 \<times> mysql_command \<times> bytes"

fun mysql_code :: "mysql_command \<Rightarrow> nat" where
  "mysql_code (MyQuery q) = MysqlComQuery"
| "mysql_code (MyPrepare q) = MysqlComStmtPrepare"
| "mysql_code (MyExecute i params) = MysqlComStmtExecute"
| "mysql_code (MyClose i) = MysqlComStmtClose"
| "mysql_code (MyOther c body) = c"

fun mysql_body :: "mysql_command \<Rightarrow> bytes" where
  "mysql_body (MyQuery q) = q"
| "mysql_body (MyPrepare q) = q"
| "mysql_body (MyExecute i params) = le_bytes 4 (unat i) @ params"
| "mysql_body (MyClose i) = le_bytes 4 (unat i)"
| "mysql_body (MyOther c body) = body"

fun mysql_payload :: "mysql_message \<Rightarrow> bytes" where
  "mysql_payload (n, seq, sid, c, after) = mysql_captured n seq (mysql_code c) (mysql_body c) after"

fun mysql_msg :: "MysqlParser \<Rightarrow> mysql_message \<Rightarrow> (string \<times> MysqlParser) go" where
  "mysql_msg p (n, seq, sid, c, after) = Mysql_Parse p (mysql_payload (n, seq, sid, c, after)) sid"

fun mysql_wf :: "mysql_message \<Rightarrow> bool" where
  "mysql_wf (n, seq, sid, c, after) =
     (Suc (length (mysql_body c)) < 2 ^ 24 \<and>
      (case c of MyOther k body \<Rightarrow>
         k < 256 \<and> k \<notin> {MysqlComQuery, MysqlComStmtPrepare, MysqlComStmtExecute, MysqlComStmtClose}
       | _ \<Rightarrow> True))"

text \<open>
  What a message means for the table of statements. A payload of fewer than nine bytes means
  nothing: the parser ignores it, even if it is the whole packet of a short query.
\<close>

fun mysql_meaning :: "mysql_message \<Rightarrow> u32 stmt_msg" where
  "mysql_meaning (n, seq, sid, c, after) =
     (if length (mysql_payload (n, seq, sid, c, after)) < 9 then SOther ''''
      else case c of
          MyQuery q \<Rightarrow> SOther (mysql_query n q)
        | MyPrepare q \<Rightarrow> SPrepare sid (mysql_query n q)
        | MyExecute i params \<Rightarrow> SExecute i
        | MyClose i \<Rightarrow> SClose i
        | MyOther k body \<Rightarrow> SOther '''')"

definition mysql_lookup :: "MysqlParser \<Rightarrow> u32 \<Rightarrow> string option" where
  "mysql_lookup p i = my_preparedStatements p (format_uint (unat i))"

definition mysql_announce :: "u32 \<Rightarrow> string \<Rightarrow> string" where
  "mysql_announce i q = ''PREPARE '' @ format_uint (unat i) @ '' FROM '' @ q"

definition mysql_unknown :: "u32 \<Rightarrow> string" where
  "mysql_unknown i = ''EXECUTE '' @ format_uint (unat i) @ '' /* unknown */''"

text \<open>One message does what its meaning says.\<close>

lemma mysql_msg_short:
  "length (mysql_payload (n, seq, sid, c, after)) < 9 \<Longrightarrow> mysql_msg p (n, seq, sid, c, after) = Inr ('''', p)"
  by (simp add: Mysql_Parse_def)

lemma mysql_msg_long:
  assumes "mysql_wf (n, seq, sid, c, after)" and "\<not> length (mysql_payload (n, seq, sid, c, after)) < 9"
  shows "mysql_msg p (n, seq, sid, c, after) =
    (case c of
       MyQuery q \<Rightarrow> Inr (mysql_query n q, p)
     | MyPrepare q \<Rightarrow> Inr (mysql_announce sid (mysql_query n q),
         p\<lparr>my_preparedStatements := (my_preparedStatements p)(format_uint (unat sid) \<mapsto> mysql_query n q)\<rparr>)
     | MyExecute i params \<Rightarrow> Inr (case mysql_lookup p i of Some q \<Rightarrow> q | None \<Rightarrow> mysql_unknown i, p)
     | MyClose i \<Rightarrow> Inr ('''', p\<lparr>my_preparedStatements := map_delete (my_preparedStatements p) (format_uint (unat i))\<rparr>)
     | MyOther k body \<Rightarrow> Inr ('''', p))"
proof -
  have l: "9 \<le> length (mysql_captured n seq (mysql_code c) (mysql_body c) after)" using assms(2) by simp
  then have n: "9 \<le> n" by (simp add: mysql_captured_def)
  have w: "Suc (length (mysql_body c)) < 2 ^ 24" "mysql_code c < 256"
    using assms(1) by (cases c; simp)+
  note P = Mysql_Parse_captured [OF w l, of p sid]
  show ?thesis
  proof (cases c)
    case (MyQuery q)
    then show ?thesis using P by simp
  next
    case (MyPrepare q)
    then show ?thesis using P by (simp add: mysql_announce_def Let_def)
  next
    case (MyExecute i params)
    then show ?thesis
      using P n by (simp add: mysql_readStatementId_captured mysql_lookup_def mysql_unknown_def split: option.split)
  next
    case (MyClose i)
    then show ?thesis using P mysql_readStatementId_captured [OF n, of seq MysqlComStmtClose i "[]" after] by simp
  next
    case (MyOther k body)
    then show ?thesis using P assms(1) by simp
  qed
qed

declare mysql_msg.simps [simp del] mysql_payload.simps [simp del]

interpretation mysql: prepared_statements mysql_lookup mysql_msg mysql_wf mysql_meaning mysql_announce mysql_unknown
proof unfold_locales
  fix s :: MysqlParser and m i q t
  assume wf: "mysql_wf m"
  obtain n seq sid c after where m: "m = (n, seq, sid, c, after)" by (cases m)
  let ?long = "\<not> length (mysql_payload (n, seq, sid, c, after)) < 9"
  have inj: "format_uint (unat (x :: u32)) = format_uint (unat y) \<longleftrightarrow> x = y" for x y
    by (simp add: format_uint_inj word_unat_eq_iff)
  note long = mysql_msg_long [OF wf [unfolded m], of s] and short = mysql_msg_short [of n seq sid c after s]
  show "\<exists>s'. mysql_msg s m = Inr (mysql_announce i q, s') \<and> mysql_lookup s' = (mysql_lookup s)(i \<mapsto> q)"
    if "mysql_meaning m = SPrepare i q"
    using that long
    by (auto simp: m mysql_lookup_def fun_eq_iff inj
        split: mysql_command.splits if_splits)
  show "mysql_msg s m = Inr (case mysql_lookup s i of Some q \<Rightarrow> q | None \<Rightarrow> mysql_unknown i, s)"
    if "mysql_meaning m = SExecute i"
    using that long by (auto simp: m split: mysql_command.splits if_splits)
  show "\<exists>s'. mysql_msg s m = Inr ('''', s') \<and> mysql_lookup s' = (mysql_lookup s)(i := None)"
    if "mysql_meaning m = SClose i"
    using that long
    by (auto simp: m mysql_lookup_def fun_eq_iff inj
        split: mysql_command.splits if_splits)
  show "mysql_msg s m = Inr (t, s)" if "mysql_meaning m = SOther t"
    using that long short by (auto simp: m split: mysql_command.splits if_splits)
qed

section \<open>Panics\<close>

lemma mysql_readQuery_panic:
  "9 \<le> length payload \<Longrightarrow> no_panic (mysql_readQuery payload k) \<longleftrightarrow> k \<noteq> 0"
  by (auto simp: mysql_readQuery_def slice_def Let_def)

lemma mysql_readStatementId_no_panic:
  "9 \<le> length payload \<Longrightarrow> \<exists>i. mysql_readStatementId payload = Inr i"
  by (simp add: mysql_readStatementId_def slice_from_Inr LE_u32_Inr)

lemma Mysql_Parse_long:
  assumes "9 \<le> length payload"
  shows "no_panic (Mysql_Parse p payload sid) \<longleftrightarrow>
    (byte_val (payload ! 4) \<in> {MysqlComQuery, MysqlComStmtPrepare} \<longrightarrow>
     no_panic (mysql_readQuery payload (le_nat [payload ! 0, payload ! 1, payload ! 2])))"
proof -
  have i: "idx payload k = Inr (payload ! k)" if "k \<le> 4" for k
    using that assms by (intro idx_Inr) simp
  obtain sidStr where s: "mysql_readStatementId payload = Inr sidStr"
    using mysql_readStatementId_no_panic [OF assms] by blast
  obtain r where r: "mysql_readQuery payload (le_nat [payload ! 0, payload ! 1, payload ! 2]) = r"
    by blast
  have l: "\<not> length payload < mysqlMsgHeaderSize + 5" using assms by simp
  have idx: "idx payload 0 = Inr (payload ! 0)" "idx payload 1 = Inr (payload ! 1)"
    "idx payload 2 = Inr (payload ! 2)" "idx payload 4 = Inr (payload ! 4)"
    by (rule i; simp)+
  show ?thesis
    unfolding Mysql_Parse_def if_not_P [OF l] idx go_bind_Inr Let_def s r
    by (cases r) (auto split: option.splits)
qed

section \<open>Properties\<close>

text \<open>C9: take any sequence of command packets from a new parser: preparations, executions with any
  parameters, closings, plain queries and other commands. The length field of each packet is the
  length of its command, and of each the first \<open>n\<close> bytes are captured, or more than the packet if more was
  written with it. The parser does not panic, and what it reports, message by
  message, and the table it ends with are those of the abstract table of prepared statements: an
  execution is reported as the query of its statement, or as unknown. Two limits of
  the code are part of the meaning of a message. A preparation whose query the capture cuts is
  stored and announced as the captured part with an ellipsis. A payload of fewer than nine bytes is ignored, so the
  preparation of a query shorter than four bytes, if nothing follows its packet, leaves no statement.\<close>
theorem mysql_run_refines_table:
  assumes "\<forall>m \<in> set ms. mysql_wf m"
  shows "\<exists>p. run_msgs mysql_msg NewMysqlParser ms =
      Inr (fst (spec_run mysql_announce mysql_unknown Map.empty (map mysql_meaning ms)), p) \<and>
    mysql_lookup p = snd (spec_run mysql_announce mysql_unknown Map.empty (map mysql_meaning ms))"
proof -
  have "mysql_lookup NewMysqlParser = Map.empty"
    by (simp add: fun_eq_iff mysql_lookup_def NewMysqlParser_def)
  then show ?thesis using mysql.run_refines [OF assms, of NewMysqlParser] by simp
qed

theorem mysql_run_refines_table_witness:
  "\<exists>p. run_msgs mysql_msg NewMysqlParser
      [(99, CHR 0x00, 7, MyPrepare ''SELECT 1'', []), (99, CHR 0x00, 0, MyExecute 7 ''params'', ''more''),
       (9, CHR 0x00, 8, MyPrepare ''SELECT 2'', []), (99, CHR 0x00, 0, MyExecute 8 [], []),
       (99, CHR 0x00, 7, MyPrepare ''DO1'', []), (99, CHR 0x00, 0, MyExecute 7 [], []),
       (99, CHR 0x00, 0, MyClose 7, []), (99, CHR 0x00, 0, MyExecute 7 [], [])] =
     Inr ([''PREPARE 7 FROM SELECT 1'', ''SELECT 1'', ''PREPARE 8 FROM SELE...'', ''SELE...'', '''', ''SELECT 1'',
       '''', ''EXECUTE 7 /* unknown */''], p)"
  using mysql_run_refines_table [of "
      [(99, CHR 0x00, 7, MyPrepare ''SELECT 1'', []), (99, CHR 0x00, 0, MyExecute 7 ''params'', ''more''),
       (9, CHR 0x00, 8, MyPrepare ''SELECT 2'', []), (99, CHR 0x00, 0, MyExecute 8 [], []),
       (99, CHR 0x00, 7, MyPrepare ''DO1'', []), (99, CHR 0x00, 0, MyExecute 7 [], []),
       (99, CHR 0x00, 0, MyClose 7, []), (99, CHR 0x00, 0, MyExecute 7 [], [])]"]
  by (auto simp: Let_def mysql_announce_def mysql_unknown_def mysql_payload.simps mysql_captured_def mysql_query_def
      go_num simp del: run_msgs.simps)

text \<open>C10: \<open>Parse\<close> panics exactly on payloads of nine bytes or more whose length field is zero and
  whose command is COM_QUERY or COM_STMT_PREPARE: the slice from the fifth byte then ends before it
  starts. No other payload makes it panic.\<close>
theorem mysql_panics_iff:
  "(\<exists>e. Mysql_Parse p payload sid = Inl e) =
   (9 \<le> length payload \<and> le_nat (take 3 payload) = 0 \<and>
    byte_val (payload ! 4) \<in> {MysqlComQuery, MysqlComStmtPrepare})"
proof (cases "9 \<le> length payload")
  case True
  then obtain a b c r where "payload = a # b # c # r"
    by (auto simp: numeral_eq_Suc Suc_le_length_iff)
  then have t: "le_nat (take 3 payload) = le_nat [payload ! 0, payload ! 1, payload ! 2]" by simp
  have "(\<exists>e. Mysql_Parse p payload sid = Inl e) = (\<not> no_panic (Mysql_Parse p payload sid))"
    by (cases "Mysql_Parse p payload sid") auto
  then show ?thesis
    using True unfolding t by (auto simp: Mysql_Parse_long mysql_readQuery_panic simp del: le_nat.simps)
next
  case False
  then show ?thesis by (simp add: Mysql_Parse_def)
qed

end
