(* ===== verification/L7_Postgres.thy ===== *)
theory L7_Postgres
imports L7_Types Go_Strings Prepared_Statements
begin

text \<open>
  \<open>pkg/ebpftracer/l7/postgres.go\<close>: the parser of PostgreSQL frontend messages and its table of
  prepared statements, keyed by the statement's name.
\<close>

section \<open>The parser\<close>

abbreviation (input) PostgresFrameQuery :: char where "PostgresFrameQuery \<equiv> CHR ''Q''"
abbreviation (input) PostgresFrameBind :: char where "PostgresFrameBind \<equiv> CHR ''B''"
abbreviation (input) PostgresFrameParse :: char where "PostgresFrameParse \<equiv> CHR ''P''"
abbreviation (input) PostgresFrameClose :: char where "PostgresFrameClose \<equiv> CHR ''C''"
abbreviation (input) nul :: char where "nul \<equiv> CHR 0x00"

record PostgresParser =
  pg_preparedStatements :: "string \<rightharpoonup> string"

definition NewPostgresParser :: PostgresParser where
  "NewPostgresParser = \<lparr>pg_preparedStatements = Map.empty\<rparr>"

definition Postgres_Parse :: "PostgresParser \<Rightarrow> bytes \<Rightarrow> (string \<times> PostgresParser) go" where
  "Postgres_Parse p payload =
     (if length payload < 5 then Inr ('''', p)
      else
        go_bind (idx payload 0) (\<lambda>cmd.
          if cmd = PostgresFrameQuery then
            go_bind (slice_from payload 5) (\<lambda>s.
              case cut s [nul] of
                (q, _, ok) \<Rightarrow> Inr (if ok then q else q @ ''...'', p))
          else if cmd = PostgresFrameBind then
            go_bind (slice_from payload 5) (\<lambda>s.
              case cut s [nul] of
                (_, rest, ok) \<Rightarrow>
                  if \<not> ok then Inr ('''', p)
                  else (case cut rest [nul] of
                          (name, _, ok') \<Rightarrow>
                            if \<not> ok' then Inr ('''', p)
                            else (case pg_preparedStatements p name of
                                    Some statement \<Rightarrow> Inr (statement, p)
                                  | None \<Rightarrow> Inr (''EXECUTE '' @ name @ '' /* unknown */'', p))))
          else if cmd = PostgresFrameParse then
            go_bind (slice_from payload 5) (\<lambda>s.
              case cut s [nul] of
                (name, rest, ok) \<Rightarrow>
                  if \<not> ok then Inr ('''', p)
                  else (case cut rest [nul] of
                          (q, _, ok') \<Rightarrow>
                            let query = (if ok' then q else q @ ''...'') in
                            Inr (''PREPARE '' @ name @ '' AS '' @ query,
                                 p\<lparr>pg_preparedStatements := (pg_preparedStatements p)(name \<mapsto> query)\<rparr>)))
          else if cmd = PostgresFrameClose then
            (if length payload < 7 then Inr ('''', p)
             else
               go_bind (idx payload 5) (\<lambda>kind.
                 if kind \<noteq> CHR ''S'' then Inr ('''', p)
                 else
                   go_bind (slice_from payload 6) (\<lambda>s.
                     case cut s [nul] of
                       (name, _, ok) \<Rightarrow>
                         if \<not> ok then Inr ('''', p)
                         else Inr ('''', p\<lparr>pg_preparedStatements :=
                                          map_delete (pg_preparedStatements p) name\<rparr>))))
          else Inr ('''', p)))"

section \<open>Messages\<close>

text \<open>
  What is captured of a message: its type, the four bytes of its length, which the parser does not
  read, and as much of its body as was captured. A field is a C string; \<open>None\<close> behind it means that
  the capture ends in it, \<open>Some\<close> what is captured after its terminating zero byte. So every payload of
  at least five bytes is one of these messages (\<open>pg_bytes_exhaust\<close>).
\<close>

datatype pg_message =
    PgQuery string "bytes option"
  | PgParse string "(string \<times> bytes option) option"     \<comment> \<open>name; query\<close>
  | PgBind string "(string \<times> bytes option) option"      \<comment> \<open>portal; statement\<close>
  | PgClose char string "bytes option"                  \<comment> \<open>kind; name\<close>
  | PgOther char bytes                                  \<comment> \<open>another type, or a Close cut before its kind\<close>

definition c_field :: "string \<Rightarrow> bytes option \<Rightarrow> bytes" where
  "c_field s rest = (case rest of None \<Rightarrow> s | Some r \<Rightarrow> s @ nul # r)"

definition c_field2 :: "string \<Rightarrow> (string \<times> bytes option) option \<Rightarrow> bytes" where
  "c_field2 s rest = c_field s (map_option (\<lambda>(t, r). c_field t r) rest)"

fun pg_bytes :: "bytes \<times> pg_message \<Rightarrow> bytes" where
  "pg_bytes (len, PgQuery q r) = PostgresFrameQuery # len @ c_field q r"
| "pg_bytes (len, PgParse name r) = PostgresFrameParse # len @ c_field2 name r"
| "pg_bytes (len, PgBind portal r) = PostgresFrameBind # len @ c_field2 portal r"
| "pg_bytes (len, PgClose kind name r) = PostgresFrameClose # len @ kind # c_field name r"
| "pg_bytes (len, PgOther ty body) = ty # len @ body"

fun pg_fields_wf :: "pg_message \<Rightarrow> bool" where
  "pg_fields_wf (PgQuery q r) = (nul \<notin> set q)"
| "pg_fields_wf (PgParse name r) = (nul \<notin> set name \<and> (case r of None \<Rightarrow> True | Some (q, _) \<Rightarrow> nul \<notin> set q))"
| "pg_fields_wf (PgBind portal r) = (nul \<notin> set portal \<and> (case r of None \<Rightarrow> True | Some (name, _) \<Rightarrow> nul \<notin> set name))"
| "pg_fields_wf (PgClose kind name r) = (nul \<notin> set name)"
| "pg_fields_wf (PgOther ty body) =
     (ty \<notin> {PostgresFrameQuery, PostgresFrameParse, PostgresFrameBind, PostgresFrameClose} \<or>
      ty = PostgresFrameClose \<and> body = [])"

definition pg_wf :: "bytes \<times> pg_message \<Rightarrow> bool" where
  "pg_wf m = (length (fst m) = 4 \<and> pg_fields_wf (snd m))"

text \<open>What a message means for the table of statements. A query that was cut gets an ellipsis.\<close>

definition pg_query :: "string \<Rightarrow> bytes option \<Rightarrow> string" where
  "pg_query q r = (case r of None \<Rightarrow> q @ ''...'' | Some _ \<Rightarrow> q)"

fun pg_meaning :: "bytes \<times> pg_message \<Rightarrow> string stmt_msg" where
  "pg_meaning (len, PgQuery q r) = SOther (pg_query q r)"
| "pg_meaning (len, PgParse name None) = SOther ''''"
| "pg_meaning (len, PgParse name (Some (q, r))) = SPrepare name (pg_query q r)"
| "pg_meaning (len, PgBind portal (Some (name, Some r))) = SExecute name"
| "pg_meaning (len, PgBind portal _) = SOther ''''"
| "pg_meaning (len, PgClose kind name r) = (if kind = CHR ''S'' \<and> r \<noteq> None then SClose name else SOther '''')"
| "pg_meaning (len, PgOther ty body) = SOther ''''"

definition pg_msg :: "PostgresParser \<Rightarrow> bytes \<times> pg_message \<Rightarrow> (string \<times> PostgresParser) go" where
  "pg_msg p m = Postgres_Parse p (pg_bytes m)"

definition pg_announce :: "string \<Rightarrow> string \<Rightarrow> string" where
  "pg_announce name q = ''PREPARE '' @ name @ '' AS '' @ q"

definition pg_unknown :: "string \<Rightarrow> string" where
  "pg_unknown name = ''EXECUTE '' @ name @ '' /* unknown */''"

lemma pg_message_parts:
  assumes "length len = 4"
  shows "\<not> length (ty # len @ body) < 5" "idx (ty # len @ body) 0 = Inr ty"
    "slice_from (ty # len @ body) 5 = Inr body"
    "idx (ty # len @ k # body) 5 = Inr k" "slice_from (ty # len @ k # body) 6 = Inr body"
  using assms by (simp_all add: idx_def slice_from_def nth_append)

lemma cut_c_field: "nul \<notin> set s \<Longrightarrow> cut (c_field s r) [nul] = (s, case r of None \<Rightarrow> [] | Some x \<Rightarrow> x, r \<noteq> None)"
  by (cases r) (simp_all add: c_field_def cut_found1 cut_absent)

lemma Postgres_Parse_message:
  assumes "length len = 4"
  shows "nul \<notin> set q \<Longrightarrow> Postgres_Parse p (PostgresFrameQuery # len @ c_field q r) = Inr (pg_query q r, p)"
    and "nul \<notin> set name \<Longrightarrow> nul \<notin> set q \<Longrightarrow>
      Postgres_Parse p (PostgresFrameParse # len @ c_field2 name (Some (q, r))) =
      Inr (pg_announce name (pg_query q r),
           p\<lparr>pg_preparedStatements := (pg_preparedStatements p)(name \<mapsto> pg_query q r)\<rparr>)"
    and "nul \<notin> set name \<Longrightarrow> Postgres_Parse p (PostgresFrameParse # len @ c_field2 name None) = Inr ('''', p)"
    and "nul \<notin> set portal \<Longrightarrow> nul \<notin> set name \<Longrightarrow>
      Postgres_Parse p (PostgresFrameBind # len @ c_field2 portal (Some (name, r))) =
      Inr (if r = None then ''''
           else case pg_preparedStatements p name of Some q \<Rightarrow> q | None \<Rightarrow> pg_unknown name, p)"
    and "nul \<notin> set portal \<Longrightarrow> Postgres_Parse p (PostgresFrameBind # len @ c_field2 portal None) = Inr ('''', p)"
    and "nul \<notin> set name \<Longrightarrow> Postgres_Parse p (PostgresFrameClose # len @ k # c_field name r) =
      Inr ('''', if k = CHR ''S'' \<and> r \<noteq> None
        then p\<lparr>pg_preparedStatements := map_delete (pg_preparedStatements p) name\<rparr> else p)"
  using assms
  by (auto simp: Postgres_Parse_def pg_message_parts c_field2_def cut_c_field pg_query_def pg_announce_def
      pg_unknown_def Let_def split: option.split) (auto simp: c_field_def Let_def split: option.split)

lemma Postgres_Parse_other:
  "length len = 4 \<Longrightarrow>
   ty \<notin> {PostgresFrameQuery, PostgresFrameParse, PostgresFrameBind, PostgresFrameClose} \<or>
     ty = PostgresFrameClose \<and> body = [] \<Longrightarrow>
   Postgres_Parse p (ty # len @ body) = Inr ('''', p)"
  by (auto simp: Postgres_Parse_def pg_message_parts)

text \<open>One message does what its meaning says.\<close>

lemma pg_msg_step:
  assumes "pg_wf m"
  shows "\<exists>p'. pg_msg p m = Inr (fst (spec_step pg_announce pg_unknown (pg_preparedStatements p) (pg_meaning m)), p') \<and>
    pg_preparedStatements p' = snd (spec_step pg_announce pg_unknown (pg_preparedStatements p) (pg_meaning m)) \<and>
    ((\<forall>i q. pg_meaning m \<noteq> SPrepare i q) \<and> (\<forall>i. pg_meaning m \<noteq> SClose i) \<longrightarrow> p' = p)"
  using assms
  by (cases m rule: pg_meaning.cases)
    (auto simp: pg_msg_def pg_wf_def Postgres_Parse_message Postgres_Parse_other map_delete_def fun_eq_iff split: if_splits)

interpretation postgres: prepared_statements pg_preparedStatements pg_msg pg_wf pg_meaning pg_announce pg_unknown
proof unfold_locales
  fix p m i q t
  assume wf: "pg_wf m"
  show "\<exists>s'. pg_msg p m = Inr (pg_announce i q, s') \<and> pg_preparedStatements s' = (pg_preparedStatements p)(i \<mapsto> q)"
    if "pg_meaning m = SPrepare i q"
    using pg_msg_step [OF wf, of p] by (auto simp: that)
  show "pg_msg p m = Inr (case pg_preparedStatements p i of Some q \<Rightarrow> q | None \<Rightarrow> pg_unknown i, p)"
    if "pg_meaning m = SExecute i"
    using pg_msg_step [OF wf, of p] by (auto simp: that)
  show "\<exists>s'. pg_msg p m = Inr ('''', s') \<and> pg_preparedStatements s' = (pg_preparedStatements p)(i := None)"
    if "pg_meaning m = SClose i"
    using pg_msg_step [OF wf, of p] by (auto simp: that)
  show "pg_msg p m = Inr (t, p)" if "pg_meaning m = SOther t"
    using pg_msg_step [OF wf, of p] by (auto simp: that)
qed

lemma Postgres_Parse_no_panic: "no_panic (Postgres_Parse p payload)"
  by (simp add: Postgres_Parse_def idx_def slice_from_def Let_def split: prod.split option.split)

section \<open>Properties\<close>

text \<open>C11: A Bind is reported as its statement. Take any sequence of captured messages from a new parser (simple
  queries, Parse, Bind with any portal and any parameters, Close of statements and of portals,
  and other types, each captured whole or cut at any byte behind its length), and then a Bind whose
  statement's name is captured. It is reported as the query of the latest Parse of that name
  that no later Close of a statement cancelled (the query's captured part with an ellipsis if the
  Parse was cut in it), and as unknown if there is none; the closing of portals, messages
  that are cut in a name, and all other messages do not matter.\<close>
theorem postgres_execute_latest:
  assumes "\<forall>m \<in> set ms. pg_wf m" and "pg_wf (len, PgBind portal (Some (name, Some rest)))"
  shows "\<exists>outs p. run_msgs pg_msg NewPostgresParser (ms @ [(len, PgBind portal (Some (name, Some rest)))]) =
      Inr (outs @ [case last_prepared name (map pg_meaning ms) None of Some q \<Rightarrow> q | None \<Rightarrow> pg_unknown name], p) \<and>
    length outs = length ms \<and>
    pg_preparedStatements p name = last_prepared name (map pg_meaning ms) None"
  by (rule postgres.run_execute [OF assms]) (simp_all add: NewPostgresParser_def)

theorem postgres_execute_latest_witness:
  "\<exists>outs p. run_msgs pg_msg NewPostgresParser
      ([(''0000'', PgParse ''s'' (Some (''SELECT 1'', Some ''xx''))), (''0000'', PgParse ''s'' (Some (''SELECT'', None))),
        (''0000'', PgClose (CHR ''P'') ''s'' (Some []))] @
       [(''0000'', PgBind ''portal'' (Some (''s'', Some ''params'')))]) =
     Inr (outs @ [''SELECT...''], p)"
  using postgres_execute_latest [of "[(''0000'', PgParse ''s'' (Some (''SELECT 1'', Some ''xx''))),
      (''0000'', PgParse ''s'' (Some (''SELECT'', None))), (''0000'', PgClose (CHR ''P'') ''s'' (Some []))]"
      "''0000''" "''portal''" "''s''" "''params''"]
  by (auto simp: pg_wf_def pg_query_def simp del: run_msgs.simps append.simps)

text \<open>Every payload that the parser reads is one of the messages.\<close>

lemma c_field_exhaust: obtains s r where "b = c_field s r" "nul \<notin> set s"
proof (cases "nul \<in> set b")
  case True
  from split_list_first [OF this] obtain s t where "b = s @ nul # t" "nul \<notin> set s" by blast
  then show ?thesis using that [of s "Some t"] by (simp add: c_field_def)
next
  case False
  then show ?thesis using that [of b None] by (simp add: c_field_def)
qed

lemma c_field2_exhaust:
  obtains s where "b = c_field2 s None" "nul \<notin> set s"
  | s t r where "b = c_field2 s (Some (t, r))" "nul \<notin> set s" "nul \<notin> set t"
proof -
  obtain s r where s: "b = c_field s r" "nul \<notin> set s" by (rule c_field_exhaust)
  show ?thesis
  proof (cases r)
    case None
    then show ?thesis using s that(1) [of s] by (simp add: c_field2_def)
  next
    case (Some c)
    obtain t r' where "c = c_field t r'" "nul \<notin> set t" by (rule c_field_exhaust)
    then show ?thesis using s Some that(2) [of s t r'] by (simp add: c_field2_def)
  qed
qed

lemma pg_bytes_exhaust:
  assumes "5 \<le> length payload"
  obtains m where "payload = pg_bytes m" "pg_wf m"
proof -
  obtain ty t where t: "payload = ty # t" using assms by (cases payload) auto
  have "payload = ty # take 4 t @ drop 4 t" "length (take 4 t) = 4"
    using assms t by simp_all
  then obtain len body where p: "payload = ty # len @ body" "length len = 4" by blast
  obtain q r where q: "body = c_field q r" "nul \<notin> set q" by (rule c_field_exhaust)
  show ?thesis
  proof (cases "ty \<in> {PostgresFrameParse, PostgresFrameBind}")
    case True
    then show ?thesis
      using p that [of "(len, if ty = PostgresFrameParse then PgParse s x else PgBind s x)" for s x]
      by (cases rule: c_field2_exhaust [of body]) (auto simp: pg_wf_def)
  next
    case False
    consider "ty = PostgresFrameQuery"
      | k b where "ty = PostgresFrameClose" "body = k # b"
      | "ty \<notin> {PostgresFrameQuery, PostgresFrameParse, PostgresFrameBind, PostgresFrameClose} \<or>
          ty = PostgresFrameClose \<and> body = []"
      using False by (cases body) auto
    then show ?thesis
    proof cases
      case 1 then show ?thesis using p q that [of "(len, PgQuery q r)"] by (simp add: pg_wf_def)
    next
      case (2 k b)
      obtain s x where "b = c_field s x" "nul \<notin> set s" by (rule c_field_exhaust)
      then show ?thesis using 2 p that [of "(len, PgClose k s x)"] by (simp add: pg_wf_def)
    next
      case 3 then show ?thesis using p that [of "(len, PgOther ty body)"] by (simp add: pg_wf_def)
    qed
  qed
qed

lemma c_field_Some: "c_field s (Some r) = s @ nul # r"
  by (simp add: c_field_def)

lemma Postgres_Parse_changes:
  assumes "Postgres_Parse p payload = Inr (out, p')" and "p' \<noteq> p"
  shows "(\<exists>len name q r. length len = 4 \<and> nul \<notin> set name \<and> nul \<notin> set q \<and>
            payload = PostgresFrameParse # len @ name @ nul # c_field q r) \<or>
         (\<exists>len name rest. length len = 4 \<and> nul \<notin> set name \<and>
            payload = PostgresFrameClose # len @ CHR ''S'' # name @ nul # rest)"
proof -
  have "5 \<le> length payload" using assms by (cases "length payload < 5") (auto simp: Postgres_Parse_def)
  then obtain m where 2: "payload = pg_bytes m" "pg_wf m" by (rule pg_bytes_exhaust)
  then show ?thesis
  proof (cases m rule: pg_meaning.cases)
    case (3 len name q r)
    then have "payload = PostgresFrameParse # len @ name @ nul # c_field q r" "length len = 4"
      "nul \<notin> set name" "nul \<notin> set q"
      using 2 by (simp_all add: pg_wf_def c_field2_def c_field_Some)
    then show ?thesis by blast
    next
    case (6 len kind name r)
    then have m: "length len = 4" "nul \<notin> set name" and p: "payload = PostgresFrameClose # len @ kind # c_field name r"
      using 2 by (simp_all add: pg_wf_def)
    then have "kind = CHR ''S'' \<and> r \<noteq> None"
      using assms by (auto simp: Postgres_Parse_message split: if_splits)
    then obtain rest where "payload = PostgresFrameClose # len @ CHR ''S'' # name @ nul # rest"
      using p by (auto simp: c_field_Some)
    then show ?thesis using m by blast
  qed (use 2 assms in \<open>auto simp: pg_wf_def Postgres_Parse_message Postgres_Parse_other\<close>)
qed

text \<open>C12: \<open>Parse\<close> never panics, whatever the captured bytes are, and exactly two kinds of payloads change the
  table of statements: a Parse whose name is captured up to its zero byte binds this name to the query, as far as that
  was captured (with an ellipsis if its zero byte was not), and a Close of kind S whose name is
  captured removes this name. Every other payload leaves the parser as it was, a Close of a portal
  (kind P) among them.\<close>
theorem postgres_parse_safe:
  "\<exists>out p'. Postgres_Parse p payload = Inr (out, p') \<and>
    (\<forall>len name q r. length len = 4 \<and> nul \<notin> set name \<and> nul \<notin> set q \<and>
       payload = PostgresFrameParse # len @ name @ nul # c_field q r \<longrightarrow>
       out = pg_announce name (pg_query q r) \<and>
       p' = p\<lparr>pg_preparedStatements := (pg_preparedStatements p)(name \<mapsto> pg_query q r)\<rparr>) \<and>
    (\<forall>len name rest. length len = 4 \<and> nul \<notin> set name \<and>
       payload = PostgresFrameClose # len @ CHR ''S'' # name @ nul # rest \<longrightarrow>
       out = '''' \<and> p' = p\<lparr>pg_preparedStatements := (pg_preparedStatements p)(name := None)\<rparr>) \<and>
    (p' \<noteq> p \<longrightarrow>
      (\<exists>len name q r. length len = 4 \<and> nul \<notin> set name \<and> nul \<notin> set q \<and>
         payload = PostgresFrameParse # len @ name @ nul # c_field q r) \<or>
      (\<exists>len name rest. length len = 4 \<and> nul \<notin> set name \<and>
         payload = PostgresFrameClose # len @ CHR ''S'' # name @ nul # rest))"
proof -
  obtain out p' where P: "Postgres_Parse p payload = Inr (out, p')"
    using Postgres_Parse_no_panic [of p payload] by (cases "Postgres_Parse p payload") auto
  have "out = pg_announce name (pg_query q r) \<and>
      p' = p\<lparr>pg_preparedStatements := (pg_preparedStatements p)(name \<mapsto> pg_query q r)\<rparr>"
    if "length len = 4" "nul \<notin> set name" "nul \<notin> set q"
      and "payload = PostgresFrameParse # len @ name @ nul # c_field q r" for len name q r
    using that P Postgres_Parse_message(2) [OF that(1-3), of p r]
    by (simp add: c_field2_def c_field_Some)
  moreover have "out = '''' \<and> p' = p\<lparr>pg_preparedStatements := (pg_preparedStatements p)(name := None)\<rparr>"
    if "length len = 4" "nul \<notin> set name"
      and "payload = PostgresFrameClose # len @ CHR ''S'' # name @ nul # rest" for len name rest
    using that P Postgres_Parse_message(6) [OF that(1,2), of p "CHR ''S''" "Some rest"]
    by (simp add: c_field_Some map_delete_def)
  ultimately show ?thesis
    using P Postgres_Parse_changes [OF P] by (intro exI [of _ out] exI [of _ p']) blast
qed

theorem postgres_parse_safe_witness:
  "\<exists>out p'. Postgres_Parse (PostgresParser.make [''a'' \<mapsto> ''SELECT 1'']) (''C0000S'' @ ''a'' @ nul # []) = Inr (out, p') \<and>
    p' = PostgresParser.make Map.empty"
proof -
  let ?p = "PostgresParser.make [''a'' \<mapsto> ''SELECT 1'']"
  obtain out p' where r: "Postgres_Parse ?p (''C0000S'' @ ''a'' @ nul # []) = Inr (out, p')"
    and c: "\<forall>len name rest. length len = 4 \<and> nul \<notin> set name \<and>
       ''C0000S'' @ ''a'' @ nul # [] = PostgresFrameClose # len @ CHR ''S'' # name @ nul # rest \<longrightarrow>
       out = '''' \<and> p' = ?p\<lparr>pg_preparedStatements := (pg_preparedStatements ?p)(name := None)\<rparr>"
    using postgres_parse_safe [of ?p "''C0000S'' @ ''a'' @ nul # []"] by blast
  have "p' = ?p\<lparr>pg_preparedStatements := (pg_preparedStatements ?p)(''a'' := None)\<rparr>"
    using c [rule_format, of "''0000''" "''a''" "[]"] by simp
  then show ?thesis using r by (intro exI [of _ out] exI [of _ p']) (simp add: PostgresParser.make_def)
qed

end
