(* ===== verification/Go_Regexp.thy ===== *)
theory Go_Regexp
imports Go_Strings
begin

text \<open>
  Matching of the regular expressions the agent compiles. Go reports the leftmost match and,
  among the in_lang that start there, the one a backtracking search finds first. \<open>rmatch\<close> lists
  what is left of the input after each match at its start, in the order of that search, with the
  groups captured on the way; the agent's expressions repeat only single-character classes.
  Expressions are written over bytes: their classes separate ASCII characters from the rest, so a
  character of several bytes is matched by the same classes as its bytes.
\<close>

datatype re =
    Lit string
  | Cls "char \<Rightarrow> bool"
  | Plus "char \<Rightarrow> bool"
  | Rep nat "char \<Rightarrow> bool"
  | Seq re re
  | Alt re re
  | Grp nat re

type_synonym groups = "nat \<rightharpoonup> string"

fun rmatch :: "re \<Rightarrow> string \<Rightarrow> groups \<Rightarrow> (string \<times> groups) list" where
  "rmatch (Lit l) s g = (if has_prefix s l then [(drop (length l) s, g)] else [])"
| "rmatch (Cls p) s g = (case s of [] \<Rightarrow> [] | x # xs \<Rightarrow> if p x then [(xs, g)] else [])"
| "rmatch (Plus p) s g =
     map (\<lambda>i. (drop i s, g)) (rev [1..<Suc (length (takeWhile p s))])"
| "rmatch (Rep n p) s g =
     (if n \<le> length s \<and> list_all p (take n s) then [(drop n s, g)] else [])"
| "rmatch (Seq a b) s g = concat (map (\<lambda>(s', g'). rmatch b s' g') (rmatch a s g))"
| "rmatch (Alt a b) s g = rmatch a s g @ rmatch b s g"
| "rmatch (Grp n a) s g =
     map (\<lambda>(s', g'). (s', g'(n \<mapsto> take (length s - length s') s))) (rmatch a s g)"

text \<open>A match at the start of the string, and the leftmost match; group 0 is the whole match.\<close>

definition match_here :: "re \<Rightarrow> string \<Rightarrow> groups option" where
  "match_here r s = (case rmatch (Grp 0 r) s Map.empty of [] \<Rightarrow> None | (s', g) # _ \<Rightarrow> Some g)"

fun find_submatch :: "re \<Rightarrow> string \<Rightarrow> groups option" where
  "find_submatch r [] = match_here r []"
| "find_submatch r (x # xs) =
     (case match_here r (x # xs) of Some g \<Rightarrow> Some g | None \<Rightarrow> find_submatch r xs)"

text \<open>A group as \<open>FindStringSubmatch\<close> returns it: empty when it took no part in the match.\<close>

definition group :: "groups \<Rightarrow> nat \<Rightarrow> string" where
  "group g n = (case g n of None \<Rightarrow> '''' | Some s \<Rightarrow> s)"

section \<open>Lemmas\<close>

lemma rmatch_suffix: "(s', g') \<in> set (rmatch r s g) \<Longrightarrow> \<exists>p. s = p @ s'"
proof (induction r arbitrary: s g s' g')
  case (Lit l)
  then show ?case by (auto simp: has_prefix_iff split: if_splits)
next
  case (Cls p)
  then show ?case by (auto split: list.splits if_splits)
next
  case (Plus p)
  then obtain i where "s' = drop i s" by auto
  then show ?case by (metis append_take_drop_id)
next
  case (Rep n p)
  then show ?case by (auto split: if_splits) (metis append_take_drop_id)
next
  case (Seq a b)
  then show ?case by fastforce
next
  case (Alt a b)
  then show ?case by auto
next
  case (Grp n a)
  then show ?case by auto
qed

lemma match_here_iff: "match_here r s = None \<longleftrightarrow> rmatch r s Map.empty = []"
  by (auto simp: match_here_def split: list.splits)

lemma match_here_SomeE:
  assumes "match_here r s = Some g"
  obtains s' g' where "(s', g') \<in> set (rmatch r s Map.empty)"
    and "g = g'(0 \<mapsto> take (length s - length s') s)"
  using assms by (auto simp: match_here_def split: list.splits)
    (metis list.set_intros(1) surj_pair)

lemma find_submatch_SomeE:
  assumes "find_submatch r s = Some g"
  obtains a b where "s = a @ b" and "match_here r b = Some g"
proof -
  have "\<exists>a b. s = a @ b \<and> match_here r b = Some g"
    using assms
  proof (induction s)
    case Nil
    then show ?case by simp
  next
    case (Cons x xs)
    show ?case
    proof (cases "match_here r (x # xs)")
      case None
      with Cons obtain a b where "xs = a @ b" and "match_here r b = Some g" by auto
      then show ?thesis by (metis append_Cons)
    next
      case (Some g')
      with Cons.prems have "match_here r (x # xs) = Some g" by simp
      then show ?thesis by (metis append_Nil)
    qed
  qed
  then show thesis using that by blast
qed

lemma find_submatch_None: "find_submatch r (a @ b) = None \<Longrightarrow> match_here r b = None"
proof (induction a)
  case Nil
  then show ?case by (cases b) (auto split: option.splits)
next
  case (Cons x a)
  then show ?case by (auto split: option.splits)
qed

text \<open>The leftmost match of a repeated class: the group is a run of that length.\<close>

lemma match_here_group_rep:
  "match_here (Grp k (Rep n p)) s =
   (if n \<le> length s \<and> list_all p (take n s)
    then Some [k \<mapsto> take n s, 0 \<mapsto> take n s] else None)"
  by (simp add: match_here_def)

lemma find_group_rep:
  assumes "find_submatch (Grp k (Rep n p)) s = Some g"
  shows "\<exists>a b. s = a @ group g k @ b \<and> length (group g k) = n \<and> list_all p (group g k)"
proof -
  from assms obtain a b where s: "s = a @ b" and m: "match_here (Grp k (Rep n p)) b = Some g"
    by (rule find_submatch_SomeE)
  from m have "n \<le> length b" and "list_all p (take n b)" and "group g k = take n b"
    by (auto simp: match_here_group_rep group_def split: if_splits)
  moreover from this have "s = a @ group g k @ drop n b" by (simp add: s)
  ultimately show ?thesis by (metis length_take min.absorb2)
qed

lemma find_group_rep_exists:
  assumes "length w = n" and "list_all p w"
  shows "find_submatch (Grp k (Rep n p)) (a @ w @ b) \<noteq> None"
proof
  assume "find_submatch (Grp k (Rep n p)) (a @ w @ b) = None"
  then have "match_here (Grp k (Rep n p)) (w @ b) = None" by (rule find_submatch_None)
  then show False using assms by (simp add: match_here_group_rep)
qed

text \<open>Where no earlier run of the class is long enough, the leftmost match is the given one.\<close>

lemma find_group_rep_first:
  assumes "length w = n" and "list_all p w"
    and "\<And>i. i < length a \<Longrightarrow> \<not> list_all p (take n (drop i (a @ w @ b)))"
  shows "find_submatch (Grp k (Rep n p)) (a @ w @ b) = Some [k \<mapsto> w, 0 \<mapsto> w]"
  using assms(3)
proof (induction a)
  case Nil
  have m: "match_here (Grp k (Rep n p)) (w @ b) = Some [k \<mapsto> w, 0 \<mapsto> w]"
    using assms(1,2) by (simp add: match_here_group_rep)
  then show ?case by (cases "w @ b") auto
next
  case (Cons x a)
  have "\<not> list_all p (take n (x # a @ w @ b))" using Cons.prems [of 0] by simp
  then have "match_here (Grp k (Rep n p)) (x # a @ w @ b) = None"
    by (simp add: match_here_group_rep)
  moreover have "\<not> list_all p (take n (drop i (a @ w @ b)))" if "i < length a" for i
    using Cons.prems [of "Suc i"] that by simp
  ultimately show ?case using Cons.IH by simp
qed

text \<open>An expression that starts with a literal is found where the literal is first found.\<close>

lemma find_submatch_literal:
  assumes "index_of s (c # l) = Some i" and "match_here (Seq (Lit (c # l)) r) (drop i s) = Some g"
  shows "find_submatch (Seq (Lit (c # l)) r) s = Some g"
  using assms
proof (induction s arbitrary: i)
  case Nil
  then show ?case by simp
next
  case (Cons x xs)
  show ?case
  proof (cases "has_prefix (x # xs) (c # l)")
    case True
    with Cons.prems show ?thesis by simp
  next
    case False
    then obtain j where j: "index_of xs (c # l) = Some j" and i: "i = Suc j"
      using Cons.prems(1) by auto
    have "match_here (Seq (Lit (c # l)) r) (x # xs) = None"
      using False by (simp add: match_here_iff)
    with Cons.IH [OF j] Cons.prems(2) i show ?thesis by simp
  qed
qed

section \<open>What an expression in_lang\<close>

text \<open>The language of an expression, without positions, priorities or groups.\<close>

fun in_lang :: "re \<Rightarrow> string \<Rightarrow> bool" where
  "in_lang (Lit l) w = (w = l)"
| "in_lang (Cls p) w = (\<exists>c. w = [c] \<and> p c)"
| "in_lang (Plus p) w = (w \<noteq> [] \<and> list_all p w)"
| "in_lang (Rep n p) w = (length w = n \<and> list_all p w)"
| "in_lang (Seq a b) w = (\<exists>u v. w = u @ v \<and> in_lang a u \<and> in_lang b v)"
| "in_lang (Alt a b) w = (in_lang a w \<or> in_lang b w)"
| "in_lang (Grp n a) w = in_lang a w"

fun grps :: "re \<Rightarrow> (nat \<times> re) set" where
  "grps (Seq a b) = grps a \<union> grps b"
| "grps (Alt a b) = grps a \<union> grps b"
| "grps (Grp n a) = insert (n, a) (grps a)"
| "grps _ = {}"

text \<open>Every match consumes a word of the language, and each group holds a word of its own.\<close>

definition captured :: "re \<Rightarrow> string \<Rightarrow> groups \<Rightarrow> groups \<Rightarrow> bool" where
  "captured r w g g' =
     (\<forall>k v. g' k = Some v \<longrightarrow> g k = Some v \<or> (\<exists>q. (k, q) \<in> grps r \<and> in_lang q v \<and> sublist v w))"

lemma captured_refl [simp]: "captured r w g g"
  by (simp add: captured_def)

lemma captured_mono: "captured a u g h \<Longrightarrow> grps a \<subseteq> grps r \<Longrightarrow> sublist u w \<Longrightarrow> captured r w g h"
  unfolding captured_def by (meson sublist_order.order_trans subsetD)

lemma captured_trans: "captured r w g h \<Longrightarrow> captured r w h i \<Longrightarrow> captured r w g i"
  unfolding captured_def by blast

lemma rmatch_sound:
  "(s', g') \<in> set (rmatch r s g) \<Longrightarrow> \<exists>w. s = w @ s' \<and> in_lang r w \<and> captured r w g g'"
proof (induction r arbitrary: s g s' g')
  case (Lit l)
  then show ?case by (auto simp: has_prefix_iff split: if_splits)
next
  case (Cls p)
  then show ?case by (auto split: list.splits if_splits)
next
  case (Plus p)
  then obtain i where i: "1 \<le> i" "i \<le> length (takeWhile p s)" "s' = drop i s" "g' = g"
    by (auto simp: less_Suc_eq_le)
  have "take i s = take i (takeWhile p s)"
    using i(2) by (metis min.absorb1 take_take takeWhile_eq_take)
  then have "list_all p (take i s)" by (auto simp: list_all_iff dest!: in_set_takeD set_takeWhileD)
  moreover have "take i s \<noteq> []" using i(1,2) by auto
  ultimately show ?case using i by (intro exI [of _ "take i s"]) simp
next
  case (Rep n p)
  then show ?case by (intro exI [of _ "take n s"]) (auto split: if_splits)
next
  case (Seq a b)
  then obtain t h where t: "(t, h) \<in> set (rmatch a s g)" and b: "(s', g') \<in> set (rmatch b t h)"
    by auto
  from Seq.IH(1) [OF t] obtain u where u: "s = u @ t" "in_lang a u" "captured a u g h" by blast
  from Seq.IH(2) [OF b] obtain w where w: "t = w @ s'" "in_lang b w" "captured b w h g'" by blast
  have "captured (Seq a b) (u @ w) g h" by (rule captured_mono [OF u(3)]) auto
  moreover have "captured (Seq a b) (u @ w) h g'" by (rule captured_mono [OF w(3)]) auto
  ultimately have "captured (Seq a b) (u @ w) g g'" by (rule captured_trans)
  moreover have "s = (u @ w) @ s'" using u(1) w(1) by simp
  moreover have "in_lang (Seq a b) (u @ w)" using u(2) w(2) by auto
  ultimately show ?case by blast
next
  case (Alt a b)
  then consider "(s', g') \<in> set (rmatch a s g)" | "(s', g') \<in> set (rmatch b s g)" by auto
  then show ?case
  proof cases
    case 1
    from Alt.IH(1) [OF this] obtain w where "s = w @ s'" "in_lang a w" "captured a w g g'" by blast
    then show ?thesis by (intro exI [of _ w]) (auto intro: captured_mono)
  next
    case 2
    from Alt.IH(2) [OF this] obtain w where "s = w @ s'" "in_lang b w" "captured b w g g'" by blast
    then show ?thesis by (intro exI [of _ w]) (auto intro: captured_mono)
  qed
next
  case (Grp n a)
  then obtain h where h: "(s', h) \<in> set (rmatch a s g)"
    and g': "g' = h(n \<mapsto> take (length s - length s') s)" by auto
  from Grp.IH [OF h] obtain w where w: "s = w @ s'" "in_lang a w" "captured a w g h" by blast
  then have "captured (Grp n a) w g g'" by (auto simp: captured_def g')
  with w show ?case by auto
qed

text \<open>Every word of the language is matched, wherever it stands.\<close>

lemma rmatch_complete: "in_lang r w \<Longrightarrow> \<exists>g'. (s', g') \<in> set (rmatch r (w @ s') g)"
proof (induction r arbitrary: w s' g)
  case (Plus p)
  then have "length w \<le> length (takeWhile p (w @ s'))"
    by (simp add: takeWhile_append list_all_iff)
  moreover have "1 \<le> length w" using Plus by (cases w) auto
  ultimately show ?case
    by (auto simp: less_Suc_eq_le intro!: image_eqI [of _ _ "length w"])
next
  case (Seq a b)
  then obtain u v where w: "w = u @ v" and u: "in_lang a u" and v: "in_lang b v" by auto
  from Seq.IH(1) [OF u] obtain h where h: "(v @ s', h) \<in> set (rmatch a (u @ v @ s') g)" by blast
  from Seq.IH(2) [OF v] obtain g' where "(s', g') \<in> set (rmatch b (v @ s') h)" by blast
  with h show ?case by (auto simp: w intro!: bexI [of _ "(v @ s', h)"])
next
  case (Alt a b)
  then show ?case by fastforce
next
  case (Grp n a)
  from Grp.prems have "in_lang a w" by simp
  from Grp.IH [OF this, of s' g] obtain h where "(s', h) \<in> set (rmatch a (w @ s') g)" by blast
  then show ?case by force
qed auto

lemma find_submatch_iff: "find_submatch r s \<noteq> None \<longleftrightarrow> (\<exists>a w b. s = a @ w @ b \<and> in_lang r w)"
proof
  assume "find_submatch r s \<noteq> None"
  then obtain g where "find_submatch r s = Some g" by blast
  then obtain a b where s: "s = a @ b" and m: "match_here r b = Some g" by (rule find_submatch_SomeE)
  from m obtain s' g' where "(s', g') \<in> set (rmatch r b Map.empty)" by (rule match_here_SomeE)
  from rmatch_sound [OF this] show "\<exists>a w b. s = a @ w @ b \<and> in_lang r w" using s by blast
next
  assume "\<exists>a w b. s = a @ w @ b \<and> in_lang r w"
  then obtain a w b where s: "s = a @ w @ b" and w: "in_lang r w" by blast
  show "find_submatch r s \<noteq> None"
  proof
    assume "find_submatch r s = None"
    then have "match_here r (w @ b) = None" unfolding s by (rule find_submatch_None)
    with rmatch_complete [OF w, of b Map.empty] show False by (auto simp: match_here_iff)
  qed
qed

lemma find_submatch_group:
  assumes "find_submatch r s = Some g" and "k \<noteq> 0" and "g k = Some v"
  shows "\<exists>q. (k, q) \<in> grps r \<and> in_lang q v \<and> sublist v s"
proof -
  from assms(1) obtain a b where s: "s = a @ b" and m: "match_here r b = Some g"
    by (rule find_submatch_SomeE)
  from m obtain s' g' where r: "(s', g') \<in> set (rmatch r b Map.empty)"
    and g: "g = g'(0 \<mapsto> take (length b - length s') b)" by (rule match_here_SomeE)
  from rmatch_sound [OF r] obtain w where b: "b = w @ s'" and c: "captured r w Map.empty g'" by blast
  have "g' k = Some v" using assms(2,3) g by simp
  with c obtain q where "(k, q) \<in> grps r" "in_lang q v" "sublist v w"
    by (auto simp: captured_def)
  moreover have "sublist w s" by (simp add: s b)
  ultimately show ?thesis by (meson sublist_order.order_trans)
qed

end
