(* ===== verification/K8s_Volumes.thy ===== *)
theory K8s_Volumes
imports Go_Numbers Go_Regexp
begin

text \<open>
  \<open>pkg/kubernetes/volumes.go\<close>: the name of the persistent volume a container's mount comes from,
  by a regular expression on the path. The dot of the expression is any character but a newline,
  also where the source means a literal dot.
\<close>

definition hex_char :: "char \<Rightarrow> bool" where
  "hex_char c = (97 \<le> byte_val c \<and> byte_val c \<le> 102 \<or> 48 \<le> byte_val c \<and> byte_val c \<le> 57)"

definition no_newline :: "char \<Rightarrow> bool" where
  "no_newline c = (c \<noteq> CHR ''\<newline>'')"

definition pvc_re :: re where
  "pvc_re =
     Seq (Lit ''pvc-'') (Seq (Rep 8 hex_char) (Seq (Lit ''-'') (Seq (Rep 4 hex_char) (Seq (Lit ''-'')
       (Seq (Rep 4 hex_char) (Seq (Lit ''-'') (Seq (Rep 4 hex_char) (Seq (Lit ''-'') (Rep 12 hex_char)))))))))"

definition k8sVolumeDir :: re where
  "k8sVolumeDir =
     Seq (Plus no_newline) (Seq (Lit ''/'')
       (Seq (Grp 1 (Alt (Seq (Lit ''volumes/kubernetes'') (Seq (Cls no_newline)
                           (Seq (Lit ''io~'') (Grp 2 (Plus (\<lambda>c. c \<noteq> CHR ''/''))))))
                     (Alt (Lit ''volume-subpaths'') (Lit ''k3s/storage''))))
         (Seq (Lit ''/'') (Grp 3 pvc_re))))"

text \<open>A match always has four groups, the whole match and the three of the expression.\<close>

definition ParseKubernetesVolumeSource :: "string \<Rightarrow> string" where
  "ParseKubernetesVolumeSource source =
     (case find_submatch k8sVolumeDir source of
        None \<Rightarrow> ''''
      | Some groups \<Rightarrow>
          let provisioner = group groups 2; volume = group groups 3
          in if provisioner \<in> {''secret'', ''configmap'', ''empty-dir'', ''projected''} then ''''
             else volume)"

section \<open>Properties\<close>

text \<open>A volume name of Kubernetes: pvc and a UUID.\<close>

definition pvc_name :: "string \<Rightarrow> bool" where
  "pvc_name v = (\<exists>a b c d e. v = ''pvc-'' @ a @ ''-'' @ b @ ''-'' @ c @ ''-'' @ d @ ''-'' @ e \<and>
     length a = 8 \<and> length b = 4 \<and> length c = 4 \<and> length d = 4 \<and> length e = 12 \<and>
     list_all hex_char (a @ b @ c @ d @ e))"

lemma matches_lit_seq: "in_lang (Seq (Lit l) r) w \<longleftrightarrow> (\<exists>v. w = l @ v \<and> in_lang r v)"
  by auto

lemma matches_rep_seq:
  "in_lang (Seq (Rep n p) r) w \<longleftrightarrow> (\<exists>u v. w = u @ v \<and> length u = n \<and> list_all p u \<and> in_lang r v)"
  by auto

lemma matches_pvc: "in_lang pvc_re v \<longleftrightarrow> pvc_name v"
proof
  assume "in_lang pvc_re v"
  then show "pvc_name v"
    unfolding pvc_re_def matches_lit_seq matches_rep_seq in_lang.simps(4) pvc_name_def
    by (elim exE conjE, hypsubst) (rule exI, rule exI, rule exI, rule exI, rule exI, rule conjI, rule refl, simp)
next
  assume "pvc_name v"
  then show "in_lang pvc_re v"
    unfolding pvc_re_def matches_lit_seq matches_rep_seq in_lang.simps(4) pvc_name_def list_all_append
    by (elim exE conjE, hypsubst) (intro exI conjI; (rule refl | assumption))
qed

lemma grps_pvc [simp]: "grps pvc_re = {}"
  by (simp add: pvc_re_def)

lemma volume_dir_matches:
  assumes "x \<noteq> []" and "list_all no_newline x" and "pvc_name v"
    and "dir = ''volume-subpaths'' \<or> dir = ''k3s/storage'' \<or>
      (\<exists>p. p \<noteq> [] \<and> CHR ''/'' \<notin> set p \<and> dir = ''volumes/kubernetes.io~'' @ p)"
  shows "in_lang k8sVolumeDir (x @ ''/'' @ dir @ ''/'' @ v)"
proof -
  let ?prov = "Seq (Lit ''volumes/kubernetes'') (Seq (Cls no_newline)
    (Seq (Lit ''io~'') (Grp 2 (Plus (\<lambda>c. c \<noteq> CHR ''/'')))))"
  have "in_lang ?prov dir" if "p \<noteq> []" "CHR ''/'' \<notin> set p" "dir = ''volumes/kubernetes.io~'' @ p" for p
  proof -
    have "dir = ''volumes/kubernetes'' @ [CHR ''.''] @ ''io~'' @ p" using that(3) by simp
    moreover have "list_all (\<lambda>c. c \<noteq> CHR ''/'') p" using that(2) unfolding list_all_iff by blast
    moreover have "no_newline (CHR ''.'')" by (simp add: no_newline_def)
    ultimately show ?thesis using that(1) unfolding in_lang.simps by blast
  qed
  then have "in_lang (Grp 1 (Alt ?prov (Alt (Lit ''volume-subpaths'') (Lit ''k3s/storage'')))) dir"
    using assms(4) unfolding in_lang.simps(1,6,7) by blast
  with assms(1-3) show ?thesis
    unfolding k8sVolumeDir_def matches_pvc [symmetric] by (meson in_lang.simps(1,3,5,7))
qed

text \<open>Mounts resolve to real volume names. The result is empty or a persistent volume's name, pvc
  and a lower-case UUID, that occurs in the path; a path of kubelet's volume-subpaths or of
  K3s storage is resolved, whatever precedes it and follows it; and a path without such
  a directory above a volume's name never is.\<close>
theorem volume_source_wf:
  assumes "x \<noteq> []" and "list_all no_newline x" and "pvc_name v"
  shows "(let r = ParseKubernetesVolumeSource s in r = '''' \<or> pvc_name r \<and> sublist r s) \<and>
    ((\<exists>a w b. s = a @ w @ b \<and> in_lang k8sVolumeDir w) \<or> ParseKubernetesVolumeSource s = '''') \<and>
    find_submatch k8sVolumeDir (x @ ''/volume-subpaths/'' @ v @ t) \<noteq> None \<and>
    find_submatch k8sVolumeDir (x @ ''/k3s/storage/'' @ v @ t) \<noteq> None"
proof (intro conjI)
  show "let r = ParseKubernetesVolumeSource s in r = '''' \<or> pvc_name r \<and> sublist r s"
  proof (cases "find_submatch k8sVolumeDir s")
    case None
    then show ?thesis by (simp add: ParseKubernetesVolumeSource_def)
  next
    case (Some g)
    have "group g 3 = '''' \<or> pvc_name (group g 3) \<and> sublist (group g 3) s"
    proof (cases "g 3")
      case None
      then show ?thesis by (simp add: group_def)
    next
      fix v assume v: "g 3 = Some v"
      from find_submatch_group [OF Some _ v] obtain q where "(3, q) \<in> grps k8sVolumeDir" "in_lang q v" "sublist v s"
        by auto
      then show ?thesis by (simp add: k8sVolumeDir_def group_def v matches_pvc)
    qed
    with Some show ?thesis by (simp add: ParseKubernetesVolumeSource_def Let_def)
  qed
  show "(\<exists>a w b. s = a @ w @ b \<and> in_lang k8sVolumeDir w) \<or> ParseKubernetesVolumeSource s = ''''"
    using find_submatch_iff [of k8sVolumeDir s] by (auto simp: ParseKubernetesVolumeSource_def)
  have f: "find_submatch k8sVolumeDir (x @ ''/'' @ dir @ ''/'' @ v @ t) \<noteq> None"
    if "dir = ''volume-subpaths'' \<or> dir = ''k3s/storage''" for dir
    unfolding find_submatch_iff
    using volume_dir_matches [OF assms, of dir] that by (metis append.assoc append_Nil)
  show "find_submatch k8sVolumeDir (x @ ''/volume-subpaths/'' @ v @ t) \<noteq> None"
    using f [of "''volume-subpaths''"] by simp
  show "find_submatch k8sVolumeDir (x @ ''/k3s/storage/'' @ v @ t) \<noteq> None"
    using f [of "''k3s/storage''"] by simp
qed

definition sample_pvc :: string where
  "sample_pvc = ''pvc-'' @ ''0a1b2c3d'' @ ''-'' @ ''4e5f'' @ ''-'' @ ''6a7b'' @ ''-'' @ ''8c9d'' @ ''-'' @ ''0e1f2a3b4c5d''"

lemma sample_pvc_name: "pvc_name sample_pvc"
  unfolding pvc_name_def sample_pvc_def
  by (intro exI conjI, rule refl) (simp_all add: hex_char_def byte_val_def)

theorem volume_source_wf_witness:
  "find_submatch k8sVolumeDir (''/var/lib/kubelet/pods/1'' @ ''/volume-subpaths/'' @ sample_pvc @ ''/app/0'') \<noteq> None"
proof -
  have "list_all no_newline ''/var/lib/kubelet/pods/1''" by (simp add: no_newline_def)
  from volume_source_wf [OF _ this sample_pvc_name, of "''''" "''/app/0''"] show ?thesis by blast
qed

end
