(* ===== verification/Go_Path.thy ===== *)
theory Go_Path
imports Go_Strings
begin

text \<open>
  Go's \<open>path.Clean\<close> and \<open>path.Join\<close>, as the package documents them: a path is resolved
  element by element, without looking at the file system.
\<close>

definition clean_step :: "bool \<Rightarrow> bytes \<Rightarrow> bytes list \<Rightarrow> bytes list" where
  "clean_step rooted c st =
     (if c = '''' \<or> c = ''.'' then st
      else if c = ''..'' then
        (case st of
           [] \<Rightarrow> if rooted then [] else [''..'']
         | x # xs \<Rightarrow> if x = ''..'' then ''..'' # st else xs)
      else c # st)"

definition clean_parts :: "bool \<Rightarrow> bytes \<Rightarrow> bytes list" where
  "clean_parts rooted p = rev (fold (clean_step rooted) (split_char (CHR ''/'') p) [])"

definition path_Clean :: "bytes \<Rightarrow> bytes" where
  "path_Clean p =
     (if p = '''' then ''.''
      else let rooted = (hd p = CHR ''/''); parts = clean_parts rooted p
           in if rooted then CHR ''/'' # join_char (CHR ''/'') parts
              else if parts = [] then ''.'' else join_char (CHR ''/'') parts)"

definition path_Join :: "bytes list \<Rightarrow> bytes" where
  "path_Join es =
     (if concat es = [] then ''''
      else path_Clean (join_char (CHR ''/'') (filter (\<lambda>e. e \<noteq> []) es)))"

text \<open>An ordinary path element: not empty, no dots alone, no separator.\<close>

definition path_elem :: "bytes \<Rightarrow> bool" where
  "path_elem c = (c \<noteq> '''' \<and> c \<noteq> ''.'' \<and> c \<noteq> ''..'' \<and> CHR ''/'' \<notin> set c)"

lemma clean_step_elem [simp]: "path_elem c \<Longrightarrow> clean_step rooted c st = c # st"
  by (simp add: clean_step_def path_elem_def)

lemma fold_clean_elems: "\<forall>c \<in> set cs. path_elem c \<Longrightarrow> fold (clean_step rooted) cs st = rev cs @ st"
  by (induction cs arbitrary: st) auto

lemma clean_step_rooted_elems:
  "\<forall>x \<in> set st. path_elem x \<Longrightarrow> CHR ''/'' \<notin> set c \<Longrightarrow> \<forall>x \<in> set (clean_step True c st). path_elem x"
proof -
  assume st: "\<forall>x \<in> set st. path_elem x" and c: "CHR ''/'' \<notin> set c"
  consider "c = '''' \<or> c = ''.''" | "c = ''..''" | "path_elem c"
    using c unfolding path_elem_def by blast
  then show ?thesis
  proof cases
    case 1
    with st show ?thesis unfolding clean_step_def by presburger
  next
    case 2
    have "clean_step True ''..'' st = (case st of [] \<Rightarrow> [] | x # xs \<Rightarrow> if x = ''..'' then ''..'' # st else xs)"
      by (simp add: clean_step_def)
    moreover have "hd st \<noteq> ''..''" if "st \<noteq> []"
      using st that unfolding path_elem_def by (meson hd_in_set)
    ultimately show ?thesis using st 2 by (cases st) simp_all
  next
    case 3
    with st show ?thesis by simp
  qed
qed

lemma fold_clean_rooted_elems:
  "\<forall>x \<in> set st. path_elem x \<Longrightarrow> \<forall>c \<in> set cs. CHR ''/'' \<notin> set c \<Longrightarrow>
   \<forall>x \<in> set (fold (clean_step True) cs st). path_elem x"
proof (induction cs arbitrary: st)
  case Nil
  then show ?case by simp
next
  case (Cons c cs)
  have "\<forall>x \<in> set (clean_step True c st). path_elem x"
    by (rule clean_step_rooted_elems [OF Cons.prems(1)]) (use Cons.prems(2) in simp)
  moreover have "\<forall>c \<in> set cs. CHR ''/'' \<notin> set c" using Cons.prems(2) by simp
  ultimately show ?case unfolding fold_simps by (rule Cons.IH)
qed

text \<open>A rooted path stays rooted, and has no dots and no empty elements left.\<close>

lemma clean_parts_elems: "\<forall>c \<in> set (clean_parts True p). path_elem c"
  unfolding clean_parts_def set_rev
proof (rule fold_clean_rooted_elems)
  show "\<forall>x \<in> set []. path_elem x" by simp
  show "\<forall>c \<in> set (split_char (CHR ''/'') p). CHR ''/'' \<notin> set c"
    using split_char_parts by (rule ballI)
qed

lemma path_Clean_rooted:
  "path_Clean (CHR ''/'' # p) = CHR ''/'' # join_char (CHR ''/'') (clean_parts True (CHR ''/'' # p))"
  by (simp add: path_Clean_def)

lemma split_rooted: "split_char (CHR ''/'') (CHR ''/'' # p) = [] # split_char (CHR ''/'') p"
  by simp

lemma clean_parts_rooted: "clean_parts True (CHR ''/'' # p) = clean_parts True p"
  by (simp add: clean_parts_def clean_step_def)

lemma split_elems:
  "cs \<noteq> [] \<Longrightarrow> \<forall>c \<in> set cs. path_elem c \<Longrightarrow>
   split_char (CHR ''/'') (join_char (CHR ''/'') cs) = cs"
  by (rule split_join_char) (auto simp: path_elem_def)

lemma clean_parts_join: "\<forall>c \<in> set cs. path_elem c \<Longrightarrow> clean_parts rooted (join_char (CHR ''/'') cs) = cs"
proof (cases "cs = []")
  case True
  then show ?thesis by (simp add: clean_parts_def clean_step_def)
next
  case False
  assume "\<forall>c \<in> set cs. path_elem c"
  with False show ?thesis by (simp add: clean_parts_def split_elems fold_clean_elems)
qed

lemma path_Clean_elems:
  "\<forall>c \<in> set cs. path_elem c \<Longrightarrow>
   path_Clean (CHR ''/'' # join_char (CHR ''/'') cs) = CHR ''/'' # join_char (CHR ''/'') cs"
  by (simp add: path_Clean_rooted clean_parts_rooted clean_parts_join)

lemma path_Clean_idem_rooted: "path_Clean (path_Clean (CHR ''/'' # p)) = path_Clean (CHR ''/'' # p)"
  unfolding path_Clean_rooted by (rule path_Clean_elems [unfolded path_Clean_rooted, OF clean_parts_elems])

end
