(* ===== verification/Sys_Proc.thy ===== *)
theory Sys_Proc
imports Go_Numbers Go_Path Go_Regexp
begin

text \<open>
  \<open>pkg/system\<close>: \<open>proc.go\<close> (paths below /proc, the list of processes), \<open>fd.go\<close> (open files and
  sockets of a process), \<open>kernel.go\<close> (the kernel's release) and \<open>uninx.go\<close> (the host's name,
  read in the host's UTS namespace).

  The file system at the time of a call is an argument: a record of what \<open>os.Open\<close>,
  \<open>os.ReadFile\<close>, \<open>os.ReadDir\<close>, \<open>os.Readlink\<close> and \<open>os.Stat\<close> return for a path. An error is its
  text. \<open>os_Scan\<close> is \<open>os.Open\<close> followed by a \<open>bufio.Scanner\<close> over the file: an error if it cannot be opened,
  else the bytes up to its end or the first failing read, which the code does not tell apart.
\<close>

type_synonym err = string

record os_api =
  os_Open :: "bytes \<Rightarrow> err option"
  os_ReadFile :: "bytes \<Rightarrow> err + bytes"
  os_Scan :: "bytes \<Rightarrow> err + bytes"                      \<comment> \<open>\<open>os.Open\<close>, then what a scanner can read of the file\<close>
  os_ReadDir :: "bytes \<Rightarrow> err + (bytes \<times> bool) list"    \<comment> \<open>name, and whether it is a directory\<close>
  os_Readlink :: "bytes \<Rightarrow> err + bytes"
  os_Stat :: "bytes \<Rightarrow> err option"

section \<open>Paths and processes\<close>

definition PROC_PATH :: bytes where
  "PROC_PATH = ''/proc''"

definition Path :: "u32 \<Rightarrow> bytes list \<Rightarrow> bytes" where
  "Path pid subpath = path_Join ([PROC_PATH, itoa (uint pid)] @ subpath)"

definition ProcRootSubpath :: "bytes list \<Rightarrow> bytes" where
  "ProcRootSubpath subpath = Path 1 ([''root''] @ subpath)"

definition ProcSubpath :: "u32 \<Rightarrow> bytes list \<Rightarrow> bytes" where
  "ProcSubpath pid subpath = Path pid ([''root''] @ subpath)"

fun all_pids_loop :: "os_api \<Rightarrow> (bytes \<times> bool) list \<Rightarrow> u32 list" where
  "all_pids_loop os [] = []"
| "all_pids_loop os ((name, isDir) # files) =
     (if isDir then
        (case parse_uint 10 32 name of
           Inl _ \<Rightarrow> all_pids_loop os files
         | Inr pid \<Rightarrow>
             if os_Stat os (Path (word_of_nat pid) []) = None
             then word_of_nat pid # all_pids_loop os files
             else all_pids_loop os files)
      else all_pids_loop os files)"

definition GetAllPids :: "os_api \<Rightarrow> err + u32 list" where
  "GetAllPids os =
     (case os_Open os PROC_PATH of
        Some e \<Rightarrow> Inl e
      | None \<Rightarrow> go_bind (os_ReadDir os PROC_PATH) (\<lambda>files. Inr (all_pids_loop os files)))"

section \<open>Open files\<close>

record Fd =
  fd_Fd :: u64
  fd_Dest :: bytes
  fd_SocketInode :: bytes

definition socket_inode :: "bytes \<Rightarrow> bytes go" where
  "socket_inode dest =
     (if has_prefix dest ''socket:['' \<and> has_suffix dest '']''
      then slice dest (length ''socket:['') (length dest - 1)
      else Inr '''')"

fun read_fds_loop :: "os_api \<Rightarrow> bytes \<Rightarrow> (bytes \<times> bool) list \<Rightarrow> Fd list go" where
  "read_fds_loop os fdDir [] = Inr []"
| "read_fds_loop os fdDir ((name, _) # entries) =
     (case parse_uint 10 64 name of
        Inl _ \<Rightarrow> read_fds_loop os fdDir entries
      | Inr fd \<Rightarrow>
          (case os_Readlink os (path_Join [fdDir, name]) of
             Inl _ \<Rightarrow> read_fds_loop os fdDir entries
           | Inr dest \<Rightarrow>
               go_bind (socket_inode dest) (\<lambda>socketInode.
               go_bind (read_fds_loop os fdDir entries) (\<lambda>res.
                 Inr (\<lparr>fd_Fd = word_of_nat fd, fd_Dest = dest, fd_SocketInode = socketInode\<rparr> # res)))))"

definition ReadFds :: "os_api \<Rightarrow> u32 \<Rightarrow> (err + Fd list) go" where
  "ReadFds os pid =
     (let fdDir = Path pid [''fd'']
      in case os_ReadDir os fdDir of
           Inl e \<Rightarrow> Inr (Inl e)
         | Inr entries \<Rightarrow> go_bind (read_fds_loop os fdDir entries) (\<lambda>res. Inr (Inr res)))"

record FdInfo =
  MntId :: bytes
  Flags :: int
  Dest :: bytes

definition fdinfo_line :: "bytes \<Rightarrow> FdInfo \<Rightarrow> FdInfo" where
  "fdinfo_line line res =
     (if has_prefix line ''mnt_id:''
      then res\<lparr>MntId := trim_space (trim_prefix line ''mnt_id:'')\<rparr>
      else if has_prefix line ''flags:''
      then res\<lparr>Flags := parse_int_value 8 32 (trim_space (trim_prefix line ''flags:''))\<rparr>
      else res)"

definition GetFdInfo :: "os_api \<Rightarrow> u32 \<Rightarrow> u64 \<Rightarrow> FdInfo option" where
  "GetFdInfo os pid fd =
     (let fds = format_uint (unat fd)
      in case os_ReadFile os (Path pid [''fdinfo'', fds]) of
           Inl _ \<Rightarrow> None
         | Inr data \<Rightarrow>
             (case os_Readlink os (Path pid [''fd'', fds]) of
                Inl _ \<Rightarrow> None
              | Inr dest \<Rightarrow>
                  Some (fold fdinfo_line (split_char (CHR ''\<newline>'') data)
                          \<lparr>MntId = '''', Flags = 0, Dest = dest\<rparr>)))"

section \<open>The kernel's release\<close>

definition kernelVersionRe :: re where
  "kernelVersionRe = Grp 1 (Seq (Plus is_digit) (Seq (Lit ''.'') (Plus is_digit)))"

text \<open>The expression starts with \<open>^\<close>: it is matched at the beginning only.\<close>

definition KernelMajorMinor :: "bytes \<Rightarrow> bytes" where
  "KernelMajorMinor version =
     (case match_here kernelVersionRe version of None \<Rightarrow> '''' | Some g \<Rightarrow> group g 0)"

section \<open>The host's name\<close>

text \<open>
  A UTS namespace is a number; the thread is in one of them. \<open>uts_Setns\<close> tells whether entering a
  namespace fails, \<open>uts_Uname\<close> what the system call returns in a namespace.
\<close>

record uts_api =
  uts_Open :: "bytes \<Rightarrow> err + nat"
  uts_Setns :: "nat \<Rightarrow> err option"
  uts_Uname :: "nat \<Rightarrow> err + bytes \<times> bytes"           \<comment> \<open>\<open>Nodename\<close> and \<open>Release\<close>\<close>

definition setns :: "(nat \<Rightarrow> err option) \<Rightarrow> nat \<Rightarrow> nat \<Rightarrow> err option \<times> nat" where
  "setns fails ns cur = (case fails ns of Some e \<Rightarrow> (Some e, cur) | None \<Rightarrow> (None, ns))"

definition c_string :: "bytes \<Rightarrow> bytes" where
  "c_string b = hd (split_char (byte_of 0) b)"

definition Uname :: "uts_api \<Rightarrow> nat \<Rightarrow> (err + bytes \<times> bytes) \<times> nat" where
  "Uname uts cur =
     (case uts_Open uts ''/proc/1/ns/uts'' of
        Inl e \<Rightarrow> (Inl e, cur)
      | Inr f \<Rightarrow>
          (case uts_Open uts ''/proc/self/ns/uts'' of
             Inl e \<Rightarrow> (Inl e, cur)
           | Inr self \<Rightarrow>
               let r = (case setns (uts_Setns uts) f cur of
                          (Some e, cur) \<Rightarrow> (Inl e, cur)
                        | (None, cur) \<Rightarrow>
                            (case uts_Uname uts cur of
                               Inl e \<Rightarrow> (Inl e, cur)
                             | Inr (nodename, release) \<Rightarrow>
                                 (Inr (c_string nodename, c_string release), cur)))
               in (fst r, snd (setns (uts_Setns uts) self (snd r)))))"

section \<open>Lemmas\<close>

lemma digits_path_elem: "path_elem (itoa (uint pid))"
proof -
  obtain n where n: "itoa (uint pid) = format_uint n" by (simp add: itoa_def)
  have d: "is_digit c" if "c \<in> set (format_uint n)" for c
    using that format_uint_digits by blast
  have nd: "\<not> is_digit (CHR ''.'')" "\<not> is_digit (CHR ''/'')"
    by (simp_all add: is_digit_def byte_val_def)
  have "CHR ''.'' \<notin> set (format_uint n)" and "CHR ''/'' \<notin> set (format_uint n)"
    using d nd by blast+
  then show ?thesis by (auto simp: path_elem_def n)
qed

lemma itoa_uint_inj: "itoa (uint v) = itoa (uint w) \<longleftrightarrow> v = w"
  by (simp add: itoa_def format_uint_inj word_unat_eq_iff [symmetric])


lemma path_Join_rooted:
  assumes "path_elem r" and "\<forall>c \<in> set cs. path_elem c"
  shows "path_Join ((CHR ''/'' # r) # cs) = CHR ''/'' # join_char (CHR ''/'') (r # cs)"
proof -
  have "filter (\<lambda>e. e \<noteq> []) cs = cs"
    using assms(2) by (induction cs) (auto simp: path_elem_def)
  moreover have "join_char (CHR ''/'') ((CHR ''/'' # r) # cs) = CHR ''/'' # join_char (CHR ''/'') (r # cs)"
    by (cases cs) auto
  moreover have "\<forall>c \<in> set (r # cs). path_elem c" using assms by simp
  ultimately show ?thesis by (simp add: path_Join_def path_Clean_elems)
qed

lemma Path_elems:
  assumes "\<forall>c \<in> set sub. path_elem c"
  shows "Path pid sub = CHR ''/'' # join_char (CHR ''/'') (''proc'' # itoa (uint pid) # sub)"
proof -
  have "path_elem ''proc''" by (simp add: path_elem_def)
  moreover have "\<forall>c \<in> set (itoa (uint pid) # sub). path_elem c"
    using assms digits_path_elem by simp
  ultimately show ?thesis
    unfolding Path_def PROC_PATH_def append.simps by (rule path_Join_rooted)
qed

lemma join_char_inj:
  assumes "ps \<noteq> []" and "qs \<noteq> []"
    and "\<forall>p \<in> set ps. path_elem p" and "\<forall>q \<in> set qs. path_elem q"
    and "join_char (CHR ''/'') ps = join_char (CHR ''/'') qs"
  shows "ps = qs"
  using assms by (metis split_elems)

text \<open>Paths below /proc keep processes apart. For plain subpaths (no empty element, no dots,
  no separator) the path is /proc, the decimal process id and the elements, joined by slashes,
  and two such paths are equal only for the same process and the same elements, so no
  process's files are ever read as another's.\<close>
theorem proc_paths_distinct:
  assumes "\<forall>c \<in> set sub. path_elem c" and "\<forall>c \<in> set sub'. path_elem c"
  shows "Path pid sub = ''/'' @ join_char (CHR ''/'') (''proc'' # itoa (uint pid) # sub) \<and>
    (Path pid sub = Path pid' sub' \<longleftrightarrow> pid = pid' \<and> sub = sub')"
proof
  show "Path pid sub = ''/'' @ join_char (CHR ''/'') (''proc'' # itoa (uint pid) # sub)"
    by (simp add: Path_elems [OF assms(1)])
  have e: "\<forall>c \<in> set (''proc'' # itoa (uint p) # s). path_elem c"
    if "\<forall>c \<in> set s. path_elem c" for p :: u32 and s
    using that digits_path_elem [of p] by (simp add: path_elem_def)
  show "Path pid sub = Path pid' sub' \<longleftrightarrow> pid = pid' \<and> sub = sub'"
  proof
    assume "Path pid sub = Path pid' sub'"
    then have "join_char (CHR ''/'') (''proc'' # itoa (uint pid) # sub) =
        join_char (CHR ''/'') (''proc'' # itoa (uint pid') # sub')"
      by (simp only: Path_elems [OF assms(1)] Path_elems [OF assms(2)] list.inject simp_thms)
    then have "''proc'' # itoa (uint pid) # sub = ''proc'' # itoa (uint pid') # sub'"
      by (rule join_char_inj [OF _ _ e [OF assms(1)] e [OF assms(2)], rotated 2]) simp_all
    then show "pid = pid' \<and> sub = sub'" by (simp add: itoa_uint_inj)
  qed simp
qed

theorem proc_paths_distinct_witness:
  "Path 42 [''fd'', ''7''] \<noteq> Path 421 [''fd'', ''7'']"
proof -
  have "\<forall>c \<in> set [''fd'', ''7'']. path_elem c" by (simp add: path_elem_def)
  from proc_paths_distinct [OF this this, of 42 421] have
    "Path 42 [''fd'', ''7''] = Path 421 [''fd'', ''7''] \<longleftrightarrow> (42::u32) = 421" by blast
  then show ?thesis by simp
qed

text \<open>The inode of a socket link, and nothing for any other link; the slice never panics.\<close>

lemma socket_inode_eq:
  "socket_inode dest =
     Inr (if has_prefix dest ''socket:['' \<and> has_suffix dest '']''
          then drop 8 (take (length dest - 1) dest) else '''')"
proof (cases "has_prefix dest ''socket:['' \<and> has_suffix dest '']''")
  case True
  then obtain r t where r: "dest = ''socket:['' @ r" and t: "dest = t @ '']''"
    unfolding has_prefix_iff has_suffix_iff by blast
  have "r \<noteq> []"
  proof
    assume "r = []"
    with r t have "last ''socket:['' = last (t @ '']'')" by (metis append_Nil2)
    then show False by simp
  qed
  with r have "8 \<le> length dest - 1" by (cases r) auto
  with True show ?thesis by (simp add: socket_inode_def slice_def eval_nat_numeral)
qed (auto simp: socket_inode_def)

lemma socket_inode_link: "socket_inode (''socket:['' @ ino @ '']'') = Inr ino"
proof -
  have "has_suffix (''socket:['' @ ino @ '']'') '']''"
    by (simp only: has_suffix_iff append_assoc [symmetric]) blast
  then show ?thesis by (simp add: socket_inode_eq has_prefix_def)
qed

lemma ReadFds_no_panic: "no_panic (ReadFds os pid)"
proof -
  have "no_panic (read_fds_loop os d es)" for d es
    by (induction os d es rule: read_fds_loop.induct)
      (auto simp: socket_inode_eq split: sum.splits intro!: no_panic_bind)
  then show ?thesis by (auto simp: ReadFds_def Let_def split: sum.splits intro!: no_panic_bind)
qed

lemma all_pids_loop_set:
  "pid \<in> set (all_pids_loop os files) \<longleftrightarrow>
   (\<exists>name n. (name, True) \<in> set files \<and> parse_uint 10 32 name = Inr n \<and> pid = word_of_nat n \<and>
      os_Stat os (Path pid []) = None)"
  by (induction os files rule: all_pids_loop.induct) (auto split: sum.splits)

lemma Uname_restores:
  assumes "uts_Open uts ''/proc/self/ns/uts'' = Inr self" and "uts_Setns uts self = None"
    and "self = cur"
  shows "snd (Uname uts cur) = cur"
  using assms by (auto simp: Uname_def setns_def split: sum.splits option.splits)

lemma c_string_terminated: "byte_of 0 \<notin> set s \<Longrightarrow> c_string (s @ byte_of 0 # r) = s"
  by (simp add: c_string_def split_char_append)

section \<open>The kernel's release\<close>

text \<open>
  The expression can only match with its first repetition as long as possible: a shorter one
  would leave a digit where the dot must be.
\<close>

lemma rmatch_lit_in_run:
  assumes "j < length (takeWhile p s)" and "\<not> p c"
  shows "rmatch (Seq (Lit [c]) r) (drop j s) g = []"
proof -
  have "j < length s" using assms(1) length_takeWhile_le [of p s] by linarith
  moreover have "takeWhile p s ! j \<in> set (takeWhile p s)" using assms(1) by (rule nth_mem)
  then have "p (s ! j)" using assms(1) by (metis set_takeWhileD takeWhile_nth)
  ultimately have "\<not> has_prefix (drop j s) [c]"
    using assms(2) by (simp add: has_prefix_def Cons_nth_drop_Suc [symmetric])
      (metis Cons_nth_drop_Suc list.inject take_Suc_Cons)
  then show ?thesis by simp
qed

lemma rmatch_seq_plus:
  "rmatch (Seq (Plus p) q) s g =
   concat (map (\<lambda>i. rmatch q (drop i s) g) (rev [1..<Suc (length (takeWhile p s))]))"
  by (simp add: comp_def)

lemma rmatch_plus_then_lit:
  assumes "\<not> p c"
  shows "rmatch (Seq (Plus p) (Seq (Lit [c]) r)) s g =
    (if takeWhile p s = [] then [] else rmatch (Seq (Lit [c]) r) (dropWhile p s) g)"
proof (cases "length (takeWhile p s)")
  case 0
  then show ?thesis by simp
next
  case (Suc n)
  have "concat (map (\<lambda>i. rmatch (Seq (Lit [c]) r) (drop i s) g) (rev [1..<Suc n])) = []"
    using rmatch_lit_in_run [where p = p and c = c and s = s and r = r and g = g] assms Suc
    by (auto simp: concat_eq_Nil_conv simp del: rmatch.simps)
  moreover have "takeWhile p s \<noteq> []" using Suc by auto
  ultimately show ?thesis
    using Suc by (simp add: rmatch_seq_plus dropWhile_eq_drop upt_Suc_append del: upt_Suc rmatch.simps)
qed

text \<open>The release prefix is what one expects of it: \<open>KernelMajorMinor\<close>, run through the
  regular expression engine with its backtracking, is the leading digits, the dot and the
  digits after it, and the empty string when the release does not start so.\<close>
theorem KernelMajorMinor_scan:
  "KernelMajorMinor v =
     (let major = takeWhile is_digit v; rest = dropWhile is_digit v; minor = takeWhile is_digit (tl rest)
      in if major \<noteq> [] \<and> has_prefix rest ''.'' \<and> minor \<noteq> [] then major @ ''.'' @ minor else '''')"
proof -
  define major where "major = takeWhile is_digit v"
  define rest where "rest = dropWhile is_digit v"
  define minor where "minor = takeWhile is_digit (tl rest)"
  define tail where "tail = dropWhile is_digit (tl rest)"
  have v: "v = major @ rest" by (simp add: major_def rest_def)
  have nd: "\<not> is_digit (CHR ''.'')" by (simp add: is_digit_def byte_val_def)
  let ?r = "Seq (Plus is_digit) (Seq (Lit ''.'') (Plus is_digit))"
  show ?thesis
  proof (cases "major \<noteq> [] \<and> has_prefix rest ''.'' \<and> minor \<noteq> []")
    case False
    have "rmatch ?r v g = []" for g
      using False unfolding rmatch_plus_then_lit [of is_digit "CHR ''.''", OF nd]
      by (auto simp: major_def rest_def minor_def has_prefix_iff)
    then have "match_here kernelVersionRe v = None"
      by (simp add: match_here_iff kernelVersionRe_def del: rmatch.simps(5))
    with False show ?thesis
      by (simp add: KernelMajorMinor_def Let_def major_def rest_def minor_def)
  next
    case True
    then have rest: "rest = ''.'' @ minor @ tail" by (auto simp: has_prefix_iff minor_def tail_def)
    obtain n where n: "length minor = Suc n" using True by (cases minor) auto
    have t: "drop (Suc n) (tl rest) = tail"
      by (simp add: tail_def dropWhile_eq_drop minor_def [symmetric] n)
    have "rmatch ?r v Map.empty = rmatch (Plus is_digit) (tl rest) Map.empty"
      using True unfolding rmatch_plus_then_lit [of is_digit "CHR ''.''", OF nd]
      by (simp add: major_def [symmetric] rest_def [symmetric] rest has_prefix_def drop_Suc
          del: rmatch.simps(3))
    then have ms: "rmatch ?r v Map.empty =
        (tail, Map.empty) # map (\<lambda>i. (drop i (tl rest), Map.empty)) (rev [1..<Suc n])"
      by (simp add: minor_def [symmetric] n t)
    have "length v - length tail = length major + Suc (length minor)" by (simp add: v rest)
    then have "take (length v - length tail) v = major @ ''.'' @ minor" by (simp add: v rest)
    then have "KernelMajorMinor v = major @ ''.'' @ minor"
      by (simp add: KernelMajorMinor_def kernelVersionRe_def match_here_def ms group_def
          del: rmatch.simps(5))
    with True show ?thesis
      by (simp add: Let_def major_def rest_def minor_def)
  qed
qed

end
