(* ===== verification/Cgroup.thy ===== *)
theory Cgroup
imports Sys_Proc
begin

text \<open>
  \<open>pkg/cgroup/cgroup.go\<close>: reading the control group of a process, for both versions of control
  groups, and telling from its path what kind of container the process runs in. The
  package's variable \<open>GlobalCgroup\<close> is an argument and, for \<open>InitCgroup\<close>, a result.
\<close>

section \<open>Data\<close>

datatype Version = V1 | V2

datatype ContainerType =
    ContainerTypeUnknown
  | ContainerTypeStandaloneProcess
  | ContainerTypeDocker
  | ContainerTypeSystemdService
  | ContainerTypeContainerd
  | ContainerTypeSandbox

fun ContainerType_String :: "ContainerType \<Rightarrow> string" where
  "ContainerType_String ContainerTypeStandaloneProcess = ''standalone''"
| "ContainerType_String ContainerTypeDocker = ''docker''"
| "ContainerType_String ContainerTypeContainerd = ''cri-containerd''"
| "ContainerType_String ContainerTypeSystemdService = ''systemd''"
| "ContainerType_String _ = ''unknown''"

record Cgroup =
  Id :: bytes
  cg_Version :: Version
  ContainerType :: ContainerType
  ContainerId :: bytes
  subsystems :: "bytes \<rightharpoonup> bytes"

section \<open>The expressions\<close>

definition id_char :: "char \<Rightarrow> bool" where
  "id_char c = (97 \<le> byte_val c \<and> byte_val c \<le> 122 \<or> 48 \<le> byte_val c \<and> byte_val c \<le> 57)"

definition dockerIdRegexp :: re where
  "dockerIdRegexp = Grp 1 (Rep 64 id_char)"

definition containerdIdRegexp :: re where
  "containerdIdRegexp =
     Seq (Lit ''cri-containerd'')
       (Seq (Cls (\<lambda>c. c = CHR ''-'' \<or> c = CHR '':'')) (Grp 1 (Rep 64 id_char)))"

definition systemSliceIdRegexp :: re where
  "systemSliceIdRegexp =
     Grp 1 (Seq (Lit ''/'') (Seq (Grp 2 (Alt (Lit ''system'') (Lit ''runtime'')))
       (Seq (Lit ''.slice/'') (Grp 3 (Plus (\<lambda>c. c \<noteq> CHR ''/''))))))"

section \<open>Classification\<close>

definition containerByCgroup :: "bytes \<Rightarrow> err + ContainerType \<times> bytes" where
  "containerByCgroup path =
     (let parts = split_char (CHR ''/'') (trim_left path (CHR ''/''))
      in if length parts < 2 then Inr (ContainerTypeStandaloneProcess, '''')
         else
           let prefix = parts ! 0
           in if prefix = ''user.slice'' \<or> prefix = ''init.scope''
              then Inr (ContainerTypeStandaloneProcess, '''')
              else if prefix = ''system.slice'' \<or> prefix = ''runtime.slice'' then
                (case find_submatch systemSliceIdRegexp path of
                   None \<Rightarrow> Inl (''invalid systemd cgroup '' @ path)
                 | Some matches \<Rightarrow> Inr (ContainerTypeSystemdService, group matches 1))
              else if prefix = ''docker'' \<or> (prefix = ''system.slice'' \<and> has_prefix (parts ! 1) ''docker-'') then
                (case find_submatch dockerIdRegexp path of
                   None \<Rightarrow> Inl (''invalid docker cgroup '' @ path)
                 | Some matches \<Rightarrow> Inr (ContainerTypeDocker, group matches 1))
              else if contains path ''kubepods'' then
                (case find_submatch containerdIdRegexp path of
                   Some containerdMatches \<Rightarrow> Inr (ContainerTypeContainerd, group containerdMatches 1)
                 | None \<Rightarrow>
                     (case find_submatch dockerIdRegexp path of
                        None \<Rightarrow> Inr (ContainerTypeSandbox, '''')
                      | Some matches \<Rightarrow> Inr (ContainerTypeDocker, group matches 1)))
              else Inl (''unknown container: '' @ path))"

section \<open>Reading\<close>

definition cgroup_line :: "bytes \<Rightarrow> bytes \<Rightarrow> (bytes \<rightharpoonup> bytes) \<Rightarrow> (bytes \<rightharpoonup> bytes)" where
  "cgroup_line GlobalCgroup line subs =
     (let parts = splitn_char (CHR '':'') 3 line
      in if length parts < 3 then subs
         else fold (\<lambda>cgType subs. subs(cgType \<mapsto> path_Join [GlobalCgroup, parts ! 2]))
                (split_char (CHR '','') (parts ! 1)) subs)"

definition cgroup_subsystems :: "bytes \<Rightarrow> bytes \<Rightarrow> (bytes \<rightharpoonup> bytes)" where
  "cgroup_subsystems GlobalCgroup data =
     fold (cgroup_line GlobalCgroup) (split_char (CHR ''\<newline>'') data) Map.empty"

definition cgroup_of_data :: "bytes \<Rightarrow> bytes \<Rightarrow> err + Cgroup" where
  "cgroup_of_data GlobalCgroup data =
     (let subs = cgroup_subsystems GlobalCgroup data;
          p = map_get '''' subs ''cpu'';
          (cgId, version) = (if p \<noteq> '''' then (p, V1) else (map_get '''' subs '''', V2))
      in go_bind (containerByCgroup cgId) (\<lambda>(ty, cid).
           Inr \<lparr>Id = cgId, cg_Version = version, ContainerType = ty, ContainerId = cid, subsystems = subs\<rparr>))"

definition ReadCgroupFromFile :: "os_api \<Rightarrow> bytes \<Rightarrow> bytes \<Rightarrow> err + Cgroup" where
  "ReadCgroupFromFile os GlobalCgroup file =
     go_bind (os_ReadFile os file) (cgroup_of_data GlobalCgroup)"

definition ReadCgroupByPid :: "os_api \<Rightarrow> bytes \<Rightarrow> u32 \<Rightarrow> err + Cgroup" where
  "ReadCgroupByPid os GlobalCgroup pid =
     ReadCgroupFromFile os GlobalCgroup (Path pid [''cgroup''])"

section \<open>Initialisation\<close>

text \<open>
  Control group namespaces are numbers; what /proc/self/cgroup says depends on the namespace the
  thread is in. The state is the thread's namespace and \<open>GlobalCgroup\<close>.
\<close>

record cgns_api =
  ns_GetFromPath :: "bytes \<Rightarrow> err + nat"
  ns_Setns :: "nat \<Rightarrow> err option"
  ns_os :: "nat \<Rightarrow> os_api"

definition InitCgroup :: "cgns_api \<Rightarrow> nat \<times> bytes \<Rightarrow> err option \<times> nat \<times> bytes" where
  "InitCgroup api st =
     (case st of (cur, GlobalCgroup) \<Rightarrow>
        (case ns_GetFromPath api ''/proc/self/ns/cgroup'' of
           Inl e \<Rightarrow> (Some e, cur, GlobalCgroup)
         | Inr selfNs \<Rightarrow>
             (case ns_GetFromPath api ''/proc/1/ns/cgroup'' of
                Inl e \<Rightarrow> (Some e, cur, GlobalCgroup)
              | Inr hostNs \<Rightarrow>
                  if selfNs = hostNs then (None, cur, GlobalCgroup)
                  else
                    case setns (ns_Setns api) hostNs cur of
                      (Some e, cur) \<Rightarrow> (Some e, cur, GlobalCgroup)
                    | (None, cur) \<Rightarrow>
                        (case ReadCgroupFromFile (ns_os api cur) GlobalCgroup ''/proc/self/cgroup'' of
                           Inl e \<Rightarrow> (Some e, cur, GlobalCgroup)
                         | Inr cg \<Rightarrow>
                             (case setns (ns_Setns api) selfNs cur of
                                (e, cur) \<Rightarrow> (e, cur, Id cg))))))"

section \<open>Lemmas: classification\<close>

lemma split_rooted_prefix:
  assumes "pre \<noteq> []" and "CHR ''/'' \<notin> set pre"
  shows "split_char (CHR ''/'') (trim_left (''/'' @ pre @ ''/'' @ rest) (CHR ''/'')) =
    pre # split_char (CHR ''/'') rest"
proof -
  have "trim_left (''/'' @ pre @ ''/'' @ rest) (CHR ''/'') = pre @ CHR ''/'' # rest"
    using assms by (cases pre) (auto simp: trim_left_def)
  then show ?thesis by (simp add: split_char_append assms)
qed

lemma docker_id_match:
  "find_submatch dockerIdRegexp path = Some g \<Longrightarrow>
   length (group g 1) = 64 \<and> list_all id_char (group g 1) \<and> contains path (group g 1)"
  unfolding dockerIdRegexp_def index_of_iff by (drule find_group_rep) blast

lemma containerd_id_match:
  assumes "find_submatch containerdIdRegexp path = Some g"
  shows "length (group g 1) = 64 \<and> list_all id_char (group g 1) \<and> contains path (group g 1)"
proof -
  from assms obtain a b where p: "path = a @ b" and m: "match_here containerdIdRegexp b = Some g"
    by (rule find_submatch_SomeE)
  obtain s where s: "b = ''cri-containerd'' @ s" and r: "rmatch (Seq (Cls (\<lambda>c. c = CHR ''-'' \<or> c = CHR '':'')) (Grp 1 (Rep 64 id_char))) s Map.empty \<noteq> []"
    using m by (auto simp: match_here_def containerdIdRegexp_def has_prefix_iff split: list.splits if_splits)
  show ?thesis
  proof (cases s)
    case Nil
    with r show ?thesis by simp
  next
    case (Cons c t)
    with r have c: "c = CHR ''-'' \<or> c = CHR '':''" and t: "64 \<le> length t" "list_all id_char (take 64 t)"
      by (auto split: if_splits)
    then have "group g 1 = take 64 t"
      using m by (auto simp: match_here_def containerdIdRegexp_def has_prefix_def s Cons group_def)
    moreover have "path = (a @ ''cri-containerd'' @ [c]) @ take 64 t @ drop 64 t"
      by (simp add: p s Cons)
    then have "contains path (take 64 t)" unfolding index_of_iff by blast
    ultimately show ?thesis using t by simp
  qed
qed




lemma containerByCgroup_docker:
  assumes "pre = ''docker''"
  shows "containerByCgroup (''/'' @ pre @ ''/'' @ rest) =
    (case find_submatch dockerIdRegexp (''/'' @ pre @ ''/'' @ rest) of
       None \<Rightarrow> Inl (''invalid docker cgroup '' @ ''/'' @ pre @ ''/'' @ rest)
     | Some g \<Rightarrow> Inr (ContainerTypeDocker, group g 1))"
proof -
  have n: "pre \<noteq> []" "CHR ''/'' \<notin> set pre" "pre \<noteq> ''user.slice''" "pre \<noteq> ''init.scope''"
    "pre \<noteq> ''system.slice''" "pre \<noteq> ''runtime.slice''" using assms by auto
  show ?thesis
    unfolding containerByCgroup_def Let_def split_rooted_prefix [OF n(1,2)]
    using assms n by (simp add: Suc_le_eq del: find_submatch.simps append.simps)
qed


lemma containerByCgroup_cases:
  assumes "containerByCgroup path = Inr (t, i)"
  obtains "t = ContainerTypeStandaloneProcess" and "i = ''''"
  | g where "t = ContainerTypeSystemdService" and "find_submatch systemSliceIdRegexp path = Some g" and "i = group g 1"
  | g where "t = ContainerTypeDocker" and "find_submatch dockerIdRegexp path = Some g" and "i = group g 1"
  | g where "t = ContainerTypeContainerd" and "find_submatch containerdIdRegexp path = Some g" and "i = group g 1"
  | "t = ContainerTypeSandbox" and "i = ''''" and "find_submatch dockerIdRegexp path = None"
  using assms unfolding containerByCgroup_def Let_def
  by (simp split: if_split_asm option.split_asm)

section \<open>Properties\<close>

text \<open>C24: A container id is always one. When a control group path is classified as a Docker or a
  containerd container, the id is 64 characters of a-z and 0-9 that occur in the path; a
  standalone process and a sandbox have no id, and the unknown type is never returned without
  an error.\<close>
theorem container_id_wf:
  assumes "containerByCgroup path = Inr (t, i)"
  shows "t \<noteq> ContainerTypeUnknown \<and>
    (t = ContainerTypeDocker \<or> t = ContainerTypeContainerd \<longrightarrow>
       length i = 64 \<and> list_all id_char i \<and> contains path i) \<and>
    (t = ContainerTypeStandaloneProcess \<or> t = ContainerTypeSandbox \<longrightarrow> i = '''')"
  using assms
  by (rule containerByCgroup_cases)
    (simp_all add: docker_id_match [simplified] containerd_id_match [simplified])

definition sample_id :: bytes where
  "sample_id = replicate 32 (CHR ''a'') @ replicate 32 (CHR ''7'')"

lemma sample_id_wf: "length sample_id = 64" "list_all id_char sample_id"
  by (simp_all add: sample_id_def list_all_iff id_char_def byte_val_def)

lemma docker_path_id:
  assumes "length w = 64" and "list_all id_char w"
  shows "containerByCgroup (''/docker/'' @ w @ rest) = Inr (ContainerTypeDocker, w)"
proof -
  have "find_submatch dockerIdRegexp (''/docker/'' @ w @ rest) = Some [1 \<mapsto> w, 0 \<mapsto> w]"
    unfolding dockerIdRegexp_def
  proof (rule find_group_rep_first [OF assms])
    fix i assume i: "i < length ''/docker/''"
    let ?s = "''/docker/'' @ w @ rest"
    have "CHR ''/'' = take 64 (drop i ?s) ! (7 - i)" using i by (simp add: nth_Cons')
    moreover have "7 - i < length (take 64 (drop i ?s))" using i by simp arith
    ultimately have "CHR ''/'' \<in> set (take 64 (drop i ?s))" by (metis nth_mem)
    moreover have "\<not> id_char (CHR ''/'')" by (simp add: id_char_def byte_val_def)
    ultimately show "\<not> list_all id_char (take 64 (drop i ?s))" unfolding list_all_iff by blast
  qed
  moreover have e: "''/docker/'' @ w @ rest = ''/'' @ ''docker'' @ ''/'' @ w @ rest" by simp
  ultimately show ?thesis
    unfolding e containerByCgroup_docker [OF refl] by (simp only: option.case group_def) simp
qed



theorem container_id_wf_witness:
  "length sample_id = 64 \<and> list_all id_char sample_id \<and>
   contains (''/docker/'' @ sample_id @ ''/init'') sample_id"
  using container_id_wf [OF docker_path_id [OF sample_id_wf, of "''/init''"]] by simp



section \<open>Reading a process's file\<close>

text \<open>A line of /proc/<pid>/cgroup: hierarchy, controllers, path.\<close>

type_synonym cgroup_entry = "bytes \<times> bytes list \<times> bytes"

definition wf_entry :: "cgroup_entry \<Rightarrow> bool" where
  "wf_entry e =
     (case e of (h, cs, p) \<Rightarrow>
        CHR '':'' \<notin> set h \<and> CHR ''\<newline>'' \<notin> set h \<and> cs \<noteq> [] \<and>
        (\<forall>c \<in> set cs. CHR '':'' \<notin> set c \<and> CHR '','' \<notin> set c \<and> CHR ''\<newline>'' \<notin> set c) \<and>
        CHR ''\<newline>'' \<notin> set p)"

fun entry_line :: "cgroup_entry \<Rightarrow> bytes" where
  "entry_line (h, cs, p) = h @ '':'' @ join_char (CHR '','') cs @ '':'' @ p"

definition cgroup_text :: "cgroup_entry list \<Rightarrow> bytes" where
  "cgroup_text es = join_char (CHR ''\<newline>'') (map entry_line es @ [[]])"

text \<open>The path a controller has in a list of entries, below the global control group.\<close>

definition controller_path :: "bytes \<Rightarrow> cgroup_entry list \<Rightarrow> bytes \<Rightarrow> bytes" where
  "controller_path G es c =
     (case filter (\<lambda>(h, cs, p). c \<in> set cs) (rev es) of [] \<Rightarrow> '''' | (h, cs, p) # _ \<Rightarrow> path_Join [G, p])"

lemma fold_update: "fold (\<lambda>c m. m(c \<mapsto> v)) cs m k = (if k \<in> set cs then Some v else m k)"
  by (induction cs arbitrary: m) auto

lemma entry_line_parts:
  assumes "wf_entry (h, cs, p)"
  shows "splitn_char (CHR '':'') 3 (entry_line (h, cs, p)) = [h, join_char (CHR '','') cs, p]"
proof -
  have "CHR '':'' \<notin> set (join_char (CHR '','') cs)"
    using assms by (intro join_char_absent) (auto simp: wf_entry_def)
  moreover have "CHR '':'' \<notin> set h" using assms by (simp add: wf_entry_def)
  ultimately show ?thesis by (simp add: numeral_3_eq_3 cut_found1)
qed

lemma cgroup_line_entry:
  assumes "wf_entry (h, cs, p)"
  shows "cgroup_line G (entry_line (h, cs, p)) m k = (if k \<in> set cs then Some (path_Join [G, p]) else m k)"
proof -
  have "split_char (CHR '','') (join_char (CHR '','') cs) = cs"
    using assms by (intro split_join_char) (auto simp: wf_entry_def)
  then show ?thesis
    unfolding cgroup_line_def entry_line_parts [OF assms] by (simp add: fold_update)
qed

lemma cgroup_line_empty: "cgroup_line G [] m = m"
  by (simp add: cgroup_line_def numeral_3_eq_3 cut_absent)

lemma entry_line_no_newline: "wf_entry e \<Longrightarrow> CHR ''\<newline>'' \<notin> set (entry_line e)"
proof (cases e)
  case (fields h cs p)
  assume wf: "wf_entry e"
  then have "CHR ''\<newline>'' \<notin> set (join_char (CHR '','') cs)"
    unfolding fields by (intro join_char_absent) (auto simp: wf_entry_def)
  with wf show ?thesis by (simp add: fields wf_entry_def)
qed

lemma fold_entries:
  "\<forall>e \<in> set es. wf_entry e \<Longrightarrow>
   fold (cgroup_line G) (map entry_line es) m k =
     (case filter (\<lambda>(h, cs, p). k \<in> set cs) (rev es) of
        [] \<Rightarrow> m k | (h, cs, p) # _ \<Rightarrow> Some (path_Join [G, p]))"
proof (induction es rule: rev_induct)
  case Nil
  then show ?case by simp
next
  case (snoc e es)
  obtain h cs p where e: "e = (h, cs, p)" by (cases e)
  from snoc have "wf_entry (h, cs, p)" by (simp add: e)
  with snoc show ?case by (simp add: e cgroup_line_entry del: entry_line.simps)
qed

lemma cgroup_subsystems_text:
  assumes "\<forall>e \<in> set es. wf_entry e"
  shows "map_get '''' (cgroup_subsystems G (cgroup_text es)) k = controller_path G es k"
proof -
  have "split_char (CHR ''\<newline>'') (cgroup_text es) = map entry_line es @ [[]]"
    unfolding cgroup_text_def
    by (rule split_join_char) (auto dest: entry_line_no_newline [OF bspec [OF assms]] simp del: entry_line.simps)
  then show ?thesis
    by (simp add: cgroup_subsystems_def cgroup_line_empty fold_entries [OF assms] map_get_def
        controller_path_def split: list.splits)
qed

text \<open>C25: Both versions of control groups are read. From the kernel's text of any list of entries, the
  control group is the path of the last entry with the cpu controller, if there is a path
  for it (version 1), and else that of the entry without controllers (version 2), below the
  global control group; the container's type and id are those of that path, and an
  unclassifiable path is an error.\<close>
theorem cgroup_read_text:
  assumes "\<forall>e \<in> set es. wf_entry e"
  shows "cgroup_of_data G (cgroup_text es) =
    (let cpu = controller_path G es ''cpu'';
         (p, v) = (if cpu \<noteq> '''' then (cpu, V1) else (controller_path G es '''', V2))
     in case containerByCgroup p of
          Inl e \<Rightarrow> Inl e
        | Inr (t, i) \<Rightarrow>
            Inr \<lparr>Id = p, cg_Version = v, ContainerType = t, ContainerId = i,
                 subsystems = cgroup_subsystems G (cgroup_text es)\<rparr>)"
  using cgroup_subsystems_text [OF assms, of G]
  by (simp add: cgroup_of_data_def Let_def split: sum.splits prod.splits)

theorem cgroup_read_text_witness:
  "\<exists>subs. cgroup_of_data ''/''
      (cgroup_text [(''4'', [''cpu'', ''cpuacct''], ''/user.slice/x''), (''0'', [''''], ''/init.scope'')]) =
    Inr \<lparr>Id = ''/user.slice/x'', cg_Version = V1, ContainerType = ContainerTypeStandaloneProcess,
         ContainerId = '''', subsystems = subs\<rparr>"
proof -
  let ?es = "[(''4'', [''cpu'', ''cpuacct''], ''/user.slice/x''), (''0'', [''''], ''/init.scope'')]"
  have wf: "\<forall>e \<in> set ?es. wf_entry e" by (simp add: wf_entry_def)
  have j: "controller_path ''/'' ?es ''cpu'' = ''/user.slice/x''"
    by (simp add: controller_path_def path_Join_def path_Clean_def clean_parts_def clean_step_def)
  have c: "containerByCgroup ''/user.slice/x'' = Inr (ContainerTypeStandaloneProcess, '''')"
    by (simp add: containerByCgroup_def trim_left_def)
  show ?thesis
    using cgroup_read_text [OF wf, of "''/''"] unfolding Let_def j
    by (simp add: c)
qed

text \<open>
  \<open>InitCgroup\<close> puts the thread back into its own namespace, except when reading the file fails
  after the host's namespace was entered.
\<close>

lemma InitCgroup_stays_in_host_ns:
  assumes "ns_GetFromPath api ''/proc/self/ns/cgroup'' = Inr own"
    and "ns_GetFromPath api ''/proc/1/ns/cgroup'' = Inr host" and "own \<noteq> host"
    and "ns_Setns api host = None"
    and "ReadCgroupFromFile (ns_os api host) G ''/proc/self/cgroup'' = Inl e"
  shows "InitCgroup api (own, G) = (Some e, host, G)"
  using assms by (simp add: InitCgroup_def setns_def)

lemma InitCgroup_restores:
  assumes "ns_GetFromPath api ''/proc/self/ns/cgroup'' = Inr own" and "ns_Setns api own = None"
    and "InitCgroup api (own, G) = (r, ns, G')"
  shows "ns = own \<and> (r = None \<or> G' = G) \<or>
    (\<exists>host e. ns = host \<and> ReadCgroupFromFile (ns_os api host) G ''/proc/self/cgroup'' = Inl e \<and> G' = G)"
  using assms by (auto simp: InitCgroup_def setns_def split: sum.splits option.splits if_splits)

end
