(* ===== verification/Net_Addr.thy ===== *)
theory Net_Addr
imports Prelude
begin

text \<open>
  The addresses of \<open>inet.af/netaddr\<close>. The package is not part of the repository: an address is
  a type variable \<open>'ip\<close>, and the operations the agent calls are the fields of a record that
  the definitions take as an argument.
\<close>

record 'ip netaddr_api =
  na_zero :: 'ip                              \<comment> \<open>the zero value \<open>netaddr.IP{}\<close>\<close>
  na_FromStdIP :: "bytes \<Rightarrow> 'ip \<times> bool"        \<comment> \<open>\<open>netaddr.FromStdIP\<close>\<close>
  na_IPAddr :: "'ip \<Rightarrow> bytes"                  \<comment> \<open>\<open>IP.IPAddr().IP\<close>\<close>
  na_Is6 :: "'ip \<Rightarrow> bool"                      \<comment> \<open>\<open>IP.Is6\<close>\<close>
  na_IsLoopback :: "'ip \<Rightarrow> bool"               \<comment> \<open>\<open>IP.IsLoopback\<close>\<close>

text \<open>An \<open>IPPort\<close> is built by \<open>IPPortFrom\<close> and read back by \<open>IP\<close> and \<open>Port\<close>.\<close>

type_synonym 'ip IPPort = "'ip \<times> u16"

definition zero_IPPort :: "'ip netaddr_api \<Rightarrow> 'ip IPPort" where
  "zero_IPPort na = (na_zero na, 0)"

text \<open>
  A concrete instance for the examples: an address is the bytes it was made of, four or
  sixteen of them.
\<close>

definition bytes_netaddr :: "bytes netaddr_api" where
  "bytes_netaddr =
     \<lparr>na_zero = [],
      na_FromStdIP = (\<lambda>b. if length b = 4 \<or> length b = 16 then (b, True) else ([], False)),
      na_IPAddr = (\<lambda>b. b),
      na_Is6 = (\<lambda>b. length b = 16),
      na_IsLoopback = (\<lambda>b. take 1 b = [byte_of 127])\<rparr>"

end
