(* ===== verification/Sys_Net.thy ===== *)
theory Sys_Net
imports Sys_Proc Net_Addr
begin

text \<open>
  \<open>pkg/system\<close>: \<open>net.go\<close> (the sockets of a process's network namespace, parsed from /proc),
  \<open>ns.go\<close> (running a function in another network namespace, the addresses of a namespace) and
  \<open>conntrack.go\<close> (the actual destination of a translated connection), with the operations of
  Go's \<open>net.IP\<close> they use.
\<close>

section \<open>Go's \<open>net.IP\<close>\<close>

definition v4InV6Prefix :: bytes where
  "v4InV6Prefix = replicate 10 (byte_of 0) @ [byte_of 255, byte_of 255]"

text \<open>\<open>ip.To4()\<close>: \<open>None\<close> is nil.\<close>

definition ip_To4 :: "bytes \<Rightarrow> bytes option" where
  "ip_To4 ip =
     (if length ip = 4 then Some ip
      else if length ip = 16 \<and> take 12 ip = v4InV6Prefix then Some (drop 12 ip)
      else None)"

definition ip_Equal :: "bytes \<Rightarrow> bytes \<Rightarrow> bool" where
  "ip_Equal ip x =
     (if length ip = length x then ip = x
      else if length ip = 4 \<and> length x = 16 then take 12 x = v4InV6Prefix \<and> ip = drop 12 x
      else if length ip = 16 \<and> length x = 4 then take 12 ip = v4InV6Prefix \<and> drop 12 ip = x
      else False)"

definition ip_IsLinkLocalUnicast :: "bytes \<Rightarrow> bool" where
  "ip_IsLinkLocalUnicast ip =
     (case ip_To4 ip of
        Some a \<Rightarrow> byte_val (a ! 0) = 169 \<and> byte_val (a ! 1) = 254
      | None \<Rightarrow> length ip = 16 \<and> byte_val (ip ! 0) = 254 \<and> byte_val (ip ! 1) div 64 = 2)"

definition ip_IsMulticast :: "bytes \<Rightarrow> bool" where
  "ip_IsMulticast ip =
     (case ip_To4 ip of
        Some a \<Rightarrow> byte_val (a ! 0) div 16 = 14
      | None \<Rightarrow> length ip = 16 \<and> byte_val (ip ! 0) = 255)"

definition ip_IsLinkLocalMulticast :: "bytes \<Rightarrow> bool" where
  "ip_IsLinkLocalMulticast ip =
     (case ip_To4 ip of
        Some a \<Rightarrow> byte_val (a ! 0) = 224 \<and> byte_val (a ! 1) = 0 \<and> byte_val (a ! 2) = 0
      | None \<Rightarrow> length ip = 16 \<and> byte_val (ip ! 0) = 255 \<and> byte_val (ip ! 1) mod 16 = 2)"

declare ip_To4_def [go_defs] ip_Equal_def [go_defs] v4InV6Prefix_def [go_defs]

section \<open>Lines\<close>

text \<open>
  \<open>bufio.Scanner\<close> over lines: the last line may lack its newline, a carriage return at the end of
  a line is dropped, and the scan stops at a line that does not fit the buffer of 65536 bytes.
\<close>

definition drop_cr :: "bytes \<Rightarrow> bytes" where
  "drop_cr l = (if l \<noteq> [] \<and> last l = byte_of 13 then butlast l else l)"

definition scan_lines :: "bytes \<Rightarrow> bytes list" where
  "scan_lines data =
     (let ls = split_char (CHR ''\<newline>'') data;
          ls = (if last ls = [] then butlast ls else ls)
      in map drop_cr (takeWhile (\<lambda>l. length l < 65536) ls))"

section \<open>Sockets\<close>

definition stateEstablished :: bytes where
  "stateEstablished = ''01''"

definition stateListen :: bytes where
  "stateListen = ''0A''"

record 'ip Sock =
  Inode :: bytes
  SAddr :: "'ip IPPort"
  DAddr :: "'ip IPPort"
  Listen :: bool

text \<open>
  The next field of a line and the rest after it. A slice of blanks only is left as it is by the
  first loop; a field that no blank ends is lost, with the rest.
\<close>

definition nextField :: "bytes \<Rightarrow> bytes \<times> bytes" where
  "nextField s =
     (let t = dropWhile (\<lambda>b. b = CHR '' '') s;
          s = (if t = [] then s else t)
      in if CHR '' '' \<in> set s
         then (takeWhile (\<lambda>b. b \<noteq> CHR '' '') s, dropWhile (\<lambda>b. b \<noteq> CHR '' '') s)
         else ([], []))"

text \<open>The loop that reads each four bytes big-endian and writes them back little-endian.\<close>

fun swap_words :: "bytes \<Rightarrow> bytes" where
  "swap_words (a # b # c # d # s) = le_bytes 4 (be_nat [a, b, c, d]) @ swap_words s"
| "swap_words s = s"

definition decodeAddr :: "'ip netaddr_api \<Rightarrow> bytes \<Rightarrow> 'ip IPPort go" where
  "decodeAddr na src =
     (case index_byte src (CHR '':'') of
        None \<Rightarrow> Inr (zero_IPPort na)
      | Some col \<Rightarrow>
          if col \<noteq> 8 \<and> col \<noteq> 32 then Inr (zero_IPPort na)
          else
            go_bind (hex_decode (col div 2) (take col src)) (\<lambda>ip.
            case ip of
              None \<Rightarrow> Inr (zero_IPPort na)
            | Some ip \<Rightarrow>
                go_bind (hex_decode 2 (drop (col + 1) src)) (\<lambda>port.
                case port of
                  None \<Rightarrow> Inr (zero_IPPort na)
                | Some port \<Rightarrow>
                    (case na_FromStdIP na (swap_words ip) of
                       (ipp, ok) \<Rightarrow>
                         if \<not> ok then Inr (zero_IPPort na)
                         else go_bind (BE_u16 port) (\<lambda>p. Inr (ipp, p))))))"

definition sock_line :: "'ip netaddr_api \<Rightarrow> bytes \<Rightarrow> 'ip Sock option go" where
  "sock_line na b =
     (let (_, b) = nextField b;
          (local, b) = nextField b;
          (remote, b) = nextField b;
          (state, b) = nextField b
      in if state \<noteq> stateEstablished \<and> state \<noteq> stateListen then Inr None
         else
           let (_, b) = nextField b;
               (_, b) = nextField b;
               (_, b) = nextField b;
               (_, b) = nextField b;
               (_, b) = nextField b;
               (inode, b) = nextField b
           in go_bind (decodeAddr na local) (\<lambda>s.
              go_bind (decodeAddr na remote) (\<lambda>d.
                Inr (Some \<lparr>Inode = inode, SAddr = s, DAddr = d, Listen = (state = stateListen)\<rparr>))))"

fun read_sockets_loop :: "'ip netaddr_api \<Rightarrow> bytes list \<Rightarrow> 'ip Sock list go" where
  "read_sockets_loop na [] = Inr []"
| "read_sockets_loop na (l # ls) =
     go_bind (sock_line na l) (\<lambda>s.
     go_bind (read_sockets_loop na ls) (\<lambda>res.
       Inr (case s of None \<Rightarrow> res | Some s \<Rightarrow> s # res)))"

text \<open>The first line is the header.\<close>

definition readSockets :: "os_api \<Rightarrow> 'ip netaddr_api \<Rightarrow> bytes \<Rightarrow> ('ip Sock list \<times> err option) go" where
  "readSockets os na src =
     (case os_Scan os src of
        Inl e \<Rightarrow> Inr ([], Some e)
      | Inr data \<Rightarrow>
          go_bind (read_sockets_loop na (drop 1 (scan_lines data))) (\<lambda>res. Inr (res, None)))"

text \<open>Both tables are read, and the last error of the two is returned with what was read.\<close>

definition GetSockets :: "os_api \<Rightarrow> 'ip netaddr_api \<Rightarrow> u32 \<Rightarrow> ('ip Sock list \<times> err option) go" where
  "GetSockets os na pid =
     go_bind (readSockets os na (Path pid [''net'', ''tcp''])) (\<lambda>(ss, e).
     go_bind (readSockets os na (Path pid [''net'', ''tcp6''])) (\<lambda>(ss6, e6).
       Inr (ss @ ss6, case e6 of None \<Rightarrow> e | Some _ \<Rightarrow> e6)))"

section \<open>Network namespaces\<close>

text \<open>
  The thread's network namespace is a number; \<open>fails\<close> tells which \<open>netns.Set\<close> calls fail. The
  function run inside sees the namespace and a state of its own.
\<close>

definition ExecuteInNetNs ::
  "(nat \<Rightarrow> err option) \<Rightarrow> nat \<Rightarrow> nat \<Rightarrow> (nat \<Rightarrow> 's \<Rightarrow> err option \<times> 's) \<Rightarrow> nat \<Rightarrow> 's \<Rightarrow> err option \<times> nat \<times> 's" where
  "ExecuteInNetNs fails newNs curNs f thread s =
     (if newNs = curNs then (case f thread s of (e, s') \<Rightarrow> (e, thread, s'))
      else
        case setns fails newNs thread of
          (Some e, thread) \<Rightarrow> (Some e, thread, s)
        | (None, thread) \<Rightarrow>
            (case f thread s of
               (errF, s') \<Rightarrow>
                 (case setns fails curNs thread of
                    (Some e, thread) \<Rightarrow> (Some e, thread, s')
                  | (None, thread) \<Rightarrow> (errF, thread, s'))))"

text \<open>
  A link of the netlink library: whether it is down, and what listing its addresses returns.
\<close>

type_synonym netlink = "bool \<times> (err + bytes list)"

definition keep_addr :: "'ip netaddr_api \<Rightarrow> bytes \<Rightarrow> 'ip option" where
  "keep_addr na ip =
     (if ip_IsLinkLocalUnicast ip \<or> ip_IsMulticast ip \<or> ip_IsLinkLocalMulticast ip then None
      else case na_FromStdIP na ip of (a, ok) \<Rightarrow> if ok then Some a else None)"

fun ns_ips_loop :: "'ip netaddr_api \<Rightarrow> netlink list \<Rightarrow> err + 'ip list" where
  "ns_ips_loop na [] = Inr []"
| "ns_ips_loop na ((down, addrs) # links) =
     (if down then ns_ips_loop na links
      else go_bind addrs (\<lambda>as.
           go_bind (ns_ips_loop na links) (\<lambda>res.
             Inr (List.map_filter (keep_addr na) as @ res))))"

definition GetNsIps :: "'ip netaddr_api \<Rightarrow> err + (err + netlink list) \<Rightarrow> err + 'ip list" where
  "GetNsIps na handle = go_bind handle (\<lambda>h. go_bind h (\<lambda>links. ns_ips_loop na links))"

section \<open>Connection tracking\<close>

text \<open>The tuples of the conntrack library; every field the code uses is a pointer and may be nil.\<close>

abbreviation (input) IPPROTO_TCP :: u8 where "IPPROTO_TCP \<equiv> 6"

record ProtoTuple =
  Number :: "u8 option"
  SrcPort :: "u16 option"
  DstPort :: "u16 option"

record IPTuple =
  Src :: "bytes option"
  Dst :: "bytes option"
  Proto :: "ProtoTuple option"

record Con =
  Origin :: "IPTuple option"
  Reply :: "IPTuple option"

definition deref :: "'a option \<Rightarrow> 'a go" where
  "deref p = (case p of None \<Rightarrow> Inl NilDereference | Some x \<Rightarrow> Inr x)"

definition ipTupleValid :: "IPTuple option \<Rightarrow> bool" where
  "ipTupleValid t =
     (case t of
        None \<Rightarrow> False
      | Some t \<Rightarrow>
          Src t \<noteq> None \<and> Dst t \<noteq> None \<and>
          (case Proto t of None \<Rightarrow> False | Some p \<Rightarrow> SrcPort p \<noteq> None \<and> DstPort p \<noteq> None))"

text \<open>\<open>&&\<close> evaluates its right side only when the left one holds.\<close>

definition and_then :: "bool go \<Rightarrow> bool go \<Rightarrow> bool go" where
  "and_then a b = go_bind a (\<lambda>x. if x then b else Inr False)"

definition eq_ip :: "bytes option \<Rightarrow> bytes option \<Rightarrow> bool go" where
  "eq_ip a b = go_bind (deref a) (\<lambda>x. go_bind (deref b) (\<lambda>y. Inr (ip_Equal x y)))"

definition eq_port :: "(ProtoTuple \<Rightarrow> u16 option) \<Rightarrow> IPTuple \<Rightarrow> IPTuple \<Rightarrow> bool go" where
  "eq_port port a b =
     go_bind (deref (Proto a)) (\<lambda>p. go_bind (deref (port p)) (\<lambda>x.
     go_bind (deref (Proto b)) (\<lambda>q. go_bind (deref (port q)) (\<lambda>y. Inr (x = y)))))"

definition ipTuplesEqual :: "IPTuple option \<Rightarrow> IPTuple option \<Rightarrow> bool go" where
  "ipTuplesEqual a b =
     go_bind (deref a) (\<lambda>a. go_bind (deref b) (\<lambda>b.
       and_then (eq_ip (Src a) (Src b))
         (and_then (eq_ip (Dst a) (Dst b))
            (and_then (eq_port SrcPort a b) (eq_port DstPort a b)))))"

definition conntrack_query :: "'ip netaddr_api \<Rightarrow> 'ip IPPort \<Rightarrow> 'ip IPPort \<Rightarrow> IPTuple" where
  "conntrack_query na src dst =
     \<lparr>Src = Some (na_IPAddr na (fst src)), Dst = Some (na_IPAddr na (fst dst)),
      Proto = Some \<lparr>Number = Some IPPROTO_TCP, SrcPort = Some (snd src), DstPort = Some (snd dst)\<rparr>\<rparr>"

definition reply_addr :: "'ip netaddr_api \<Rightarrow> IPTuple \<Rightarrow> 'ip IPPort option go" where
  "reply_addr na reply =
     go_bind (deref (Src reply)) (\<lambda>ip.
     case na_FromStdIP na ip of (a, ok) \<Rightarrow>
       if \<not> ok then Inr None
       else go_bind (deref (Proto reply)) (\<lambda>p.
            go_bind (deref (SrcPort p)) (\<lambda>port. Inr (Some (a, port)))))"

fun sessions_loop :: "'ip netaddr_api \<Rightarrow> IPTuple \<Rightarrow> Con list \<Rightarrow> 'ip IPPort option go" where
  "sessions_loop na q [] = Inr None"
| "sessions_loop na q (s # ss) =
     (if \<not> ipTupleValid (Origin s) \<or> \<not> ipTupleValid (Reply s) then sessions_loop na q ss
      else
        go_bind (ipTuplesEqual (Some q) (Origin s)) (\<lambda>fwd.
        go_bind (if fwd then Inr (Reply s)
                 else go_bind (ipTuplesEqual (Some q) (Reply s)) (\<lambda>bwd.
                        Inr (if bwd then Origin s else None))) (\<lambda>reply.
        case reply of
          None \<Rightarrow> sessions_loop na q ss
        | Some r \<Rightarrow>
            go_bind (reply_addr na r) (\<lambda>res.
              case res of None \<Rightarrow> sessions_loop na q ss | Some x \<Rightarrow> Inr (Some x)))))"

text \<open>
  \<open>get\<close> is the library's query, of the IPv6 family or not, for a tuple; any error, of a missing
  entry or another, makes the result nil.
\<close>

definition GetActualDestination ::
  "'ip netaddr_api \<Rightarrow> (bool \<Rightarrow> IPTuple \<Rightarrow> err + Con list) \<Rightarrow> 'ip IPPort \<Rightarrow> 'ip IPPort \<Rightarrow> 'ip IPPort option go" where
  "GetActualDestination na get src dst =
     (let q = conntrack_query na src dst
      in case get (na_Is6 na (fst dst)) q of
           Inl e \<Rightarrow> Inr None
         | Inr sessions \<Rightarrow> sessions_loop na q sessions)"

section \<open>Lemmas: addresses\<close>

text \<open>\<open>Equal\<close> takes an IPv4 address and its IPv4-mapped form for the same.\<close>

definition ip_canon :: "bytes \<Rightarrow> bytes" where
  "ip_canon ip = (case ip_To4 ip of Some a \<Rightarrow> a | None \<Rightarrow> ip)"

lemma length_v4InV6Prefix [simp]: "length v4InV6Prefix = 12"
  by (simp add: v4InV6Prefix_def)

lemma ip_Equal_canon: "ip_Equal a b \<longleftrightarrow> ip_canon a = ip_canon b"
proof -
  have split: "length x = 16 \<Longrightarrow> length y = 16 \<Longrightarrow> take 12 x = take 12 y \<Longrightarrow> drop 12 x = drop 12 y \<Longrightarrow> x = y"
    for x y :: bytes
    by (metis append_take_drop_id)
  show ?thesis
    by (auto simp: ip_Equal_def ip_canon_def ip_To4_def split: if_splits intro: split)
qed

lemma ip_link_local_multicast: "ip_IsLinkLocalMulticast ip \<Longrightarrow> ip_IsMulticast ip"
  by (auto simp: ip_IsLinkLocalMulticast_def ip_IsMulticast_def split: option.splits)

lemma ns_ips_loop_Inr:
  "ns_ips_loop na links = Inr res \<Longrightarrow>
   res = concat (map (\<lambda>(down, addrs). if down then []
     else case addrs of Inl e \<Rightarrow> [] | Inr as \<Rightarrow> List.map_filter (keep_addr na) as) links)"
  by (induction na links arbitrary: res rule: ns_ips_loop.induct)
    (auto simp: go_bind_eq_Inr split: if_splits)

lemma ExecuteInNetNs_restores:
  assumes "thread = curNs" and "fails curNs = None"
    and "ExecuteInNetNs fails newNs curNs f thread s = (r, thread', s')"
  shows "thread' = curNs \<and>
    (if newNs \<noteq> curNs \<and> fails newNs \<noteq> None then r = fails newNs \<and> s' = s
     else (r, s') = f newNs s)"
  using assms by (auto simp: ExecuteInNetNs_def setns_def split: prod.splits option.splits if_splits)

section \<open>Lemmas: sockets\<close>

lemma swap_word: "le_bytes 4 (be_nat [a, b, c, d]) = [d, c, b, a]"
  using le_bytes_le_nat [of "[d, c, b, a]" 4] by (simp add: be_nat_def)

lemma swap_words_swap: "4 dvd length s \<Longrightarrow> swap_words (swap_words s) = s"
proof (induction s rule: swap_words.induct)
  case (1 a b c d s)
  then have "4 dvd length s" by (simp add: dvd_def) presburger
  with 1 show ?case by (simp add: swap_word)
qed auto

lemma length_swap_words [simp]: "length (swap_words s) = length s"
  by (induction s rule: swap_words.induct) (simp_all add: swap_word)

text \<open>An address as the kernel prints it.\<close>

definition sock_text :: "bytes \<Rightarrow> u16 \<Rightarrow> bytes" where
  "sock_text ip port = hex_encode (swap_words ip) @ '':'' @ hex_encode (be_bytes 2 (unat port))"

lemma hex_no_colon: "CHR '':'' \<notin> set (hex_encode bs)"
  using hex_encode_chars [of bs] by auto

lemma hex_no_space: "CHR '' '' \<notin> set (hex_encode bs)"
  using hex_encode_chars [of bs] by auto

lemma BE_u16_bytes: "BE_u16 (be_bytes 2 (unat w)) = Inr (w :: u16)"
proof -
  have "unat w < 2 ^ 16" using unsigned_less [of w] by simp
  then show ?thesis by (simp add: BE_u16_def be_nat_be_bytes)
qed

lemma decodeAddr_text:
  assumes "length ip = 4 \<or> length ip = 16" and "na_FromStdIP na ip = (a, True)"
  shows "decodeAddr na (sock_text ip port) = Inr (a, port)"
proof -
  have i: "index_byte (sock_text ip port) (CHR '':'') = Some (length (hex_encode (swap_words ip)))"
    using index_of_append_head [of "CHR '':''" "hex_encode (swap_words ip)" "[]"] hex_no_colon
    by (simp add: index_byte_def sock_text_def)
  have h: "hex_decode (length ip) (hex_encode (swap_words ip)) = Inr (Some (swap_words ip))"
    using hex_decode_encode [of "swap_words ip"] by simp
  have p: "hex_decode 2 (hex_encode (be_bytes 2 (unat port))) = Inr (Some (be_bytes 2 (unat port)))"
    using hex_decode_encode [of "be_bytes 2 (unat port)"] by simp
  have s: "swap_words (swap_words ip) = ip"
    using assms(1) by (intro swap_words_swap) auto
  have "length (hex_encode (swap_words ip)) = 2 * length ip" by simp
  then show ?thesis
    using assms h p s i unfolding decodeAddr_def
    by (auto simp: sock_text_def BE_u16_bytes)
qed

text \<open>Words separated by one or more blanks.\<close>

fun spaced :: "(nat \<times> bytes) list \<Rightarrow> bytes \<Rightarrow> bytes" where
  "spaced [] rest = rest"
| "spaced ((n, w) # ws) rest = replicate n (CHR '' '') @ w @ CHR '' '' # spaced ws rest"

definition word :: "bytes \<Rightarrow> bool" where
  "word w = (w \<noteq> [] \<and> CHR '' '' \<notin> set w)"

lemma nextField_spaced:
  assumes "word w"
  shows "nextField (spaced ((n, w) # ws) rest) = (w, CHR '' '' # spaced ws rest)"
proof -
  obtain c v where w: "w = c # v" and c: "c \<noteq> CHR '' ''" and v: "CHR '' '' \<notin> set v"
    using assms by (cases w) (auto simp: word_def)
  have "dropWhile (\<lambda>b. b = CHR '' '') (replicate n (CHR '' '') @ w @ r) = w @ r" for r
    by (induction n) (simp_all add: w c)
  then show ?thesis using assms by (simp add: nextField_def word_def w c)
qed

lemma nextField_spaced_blank:
  assumes "word w"
  shows "nextField (CHR '' '' # spaced ((n, w) # ws) rest) = (w, CHR '' '' # spaced ws rest)"
  using nextField_spaced [OF assms, of "Suc n" ws rest] by simp

lemma word_sock_text: "word (sock_text ip port)"
  using hex_no_space by (simp add: word_def sock_text_def)

text \<open>C27: The socket table is read as the kernel writes it. On a line of ten words with any number of
  blanks between them, whose second and third words are the kernel's hexadecimal images of
  two addresses, the parser reports nothing unless the state is 01 or 0A, and otherwise
  exactly the inode, the two addresses with their ports, and whether the socket listens.\<close>
theorem socket_line_exact:
  assumes "word sl" and "word st" and "word q" and "word tr" and "word rt" and "word uid"
    and "word to" and "word ino"
    and "length sip = 4 \<or> length sip = 16" and "na_FromStdIP na sip = (sa, True)"
    and "length dip = 4 \<or> length dip = 16" and "na_FromStdIP na dip = (da, True)"
  shows "sock_line na (spaced [(n1, sl), (n2, sock_text sip sport), (n3, sock_text dip dport), (n4, st),
      (n5, q), (n6, tr), (n7, rt), (n8, uid), (n9, to), (n10, ino)] rest) =
    Inr (if st = ''01'' \<or> st = ''0A''
         then Some \<lparr>Inode = ino, SAddr = (sa, sport), DAddr = (da, dport), Listen = (st = ''0A'')\<rparr>
         else None)"
  using assms
  by (auto simp: sock_line_def nextField_spaced nextField_spaced_blank word_sock_text decodeAddr_text
      stateEstablished_def stateListen_def simp del: spaced.simps)

theorem socket_line_exact_witness:
  "\<exists>ip. sock_line bytes_netaddr (spaced [(3, ''0:''), (0, sock_text ip 8080),
      (0, sock_text ip 0), (0, ''0A''), (0, ''0:0''), (0, ''00:0''), (0, ''0''), (5, ''0''),
      (8, ''0''), (0, ''31337'')] ''1'') =
    Inr (Some \<lparr>Inode = ''31337'', SAddr = (ip, 8080), DAddr = (ip, 0), Listen = True\<rparr>)"
  by (rule exI [of _ "map byte_of [127, 0, 0, 1]"], subst socket_line_exact)
    (simp_all add: word_def bytes_netaddr_def)

section \<open>Lemmas: connection tracking\<close>

definition tuples_same :: "IPTuple \<Rightarrow> IPTuple \<Rightarrow> bool" where
  "tuples_same a b =
     (map_option ip_canon (Src a) = map_option ip_canon (Src b) \<and>
      map_option ip_canon (Dst a) = map_option ip_canon (Dst b) \<and>
      map_option (\<lambda>p. (SrcPort p, DstPort p)) (Proto a) = map_option (\<lambda>p. (SrcPort p, DstPort p)) (Proto b))"

definition source_addr :: "'ip netaddr_api \<Rightarrow> IPTuple \<Rightarrow> 'ip IPPort option" where
  "source_addr na t =
     (case na_FromStdIP na (the (Src t)) of
        (a, ok) \<Rightarrow> if ok then Some (a, the (SrcPort (the (Proto t)))) else None)"

text \<open>What one session says about a connection.\<close>

definition session_dest :: "'ip netaddr_api \<Rightarrow> IPTuple \<Rightarrow> Con \<Rightarrow> 'ip IPPort option" where
  "session_dest na q s =
     (case (Origin s, Reply s) of
        (Some org, Some rep) \<Rightarrow>
          if \<not> ipTupleValid (Some org) \<or> \<not> ipTupleValid (Some rep) then None
          else if tuples_same q org then source_addr na rep
          else if tuples_same q rep then source_addr na org
          else None
      | _ \<Rightarrow> None)"

lemma ipTupleValidE:
  assumes "ipTupleValid (Some t)"
  obtains s d n sp dp where "t = \<lparr>Src = Some s, Dst = Some d, Proto = Some \<lparr>Number = n, SrcPort = Some sp, DstPort = Some dp\<rparr>\<rparr>"
proof -
  obtain s d p where t: "Src t = Some s" "Dst t = Some d" "Proto t = Some p"
    and p: "SrcPort p \<noteq> None" "DstPort p \<noteq> None"
    using assms by (auto simp: ipTupleValid_def split: option.splits)
  then obtain sp dp where "SrcPort p = Some sp" and "DstPort p = Some dp" by auto
  with t show ?thesis by (intro that [of s d "Number p" sp dp]) simp
qed

lemma ipTuplesEqual_valid:
  assumes "ipTupleValid (Some a)" and "ipTupleValid (Some b)"
  shows "ipTuplesEqual (Some a) (Some b) = Inr (tuples_same a b)"
proof -
  from assms(1) obtain s d n sp dp where
    a: "a = \<lparr>Src = Some s, Dst = Some d, Proto = Some \<lparr>Number = n, SrcPort = Some sp, DstPort = Some dp\<rparr>\<rparr>"
    by (rule ipTupleValidE)
  from assms(2) obtain s' d' n' sp' dp' where
    b: "b = \<lparr>Src = Some s', Dst = Some d', Proto = Some \<lparr>Number = n', SrcPort = Some sp', DstPort = Some dp'\<rparr>\<rparr>"
    by (rule ipTupleValidE)
  show ?thesis
    by (simp add: a b ipTuplesEqual_def tuples_same_def and_then_def eq_ip_def eq_port_def deref_def
        ip_Equal_canon)
qed

lemma reply_addr_valid: "ipTupleValid (Some t) \<Longrightarrow> reply_addr na t = Inr (source_addr na t)"
  by (erule ipTupleValidE) (simp add: reply_addr_def source_addr_def deref_def split: prod.splits)

lemma conntrack_query_valid: "ipTupleValid (Some (conntrack_query na src dst))"
  by (simp add: ipTupleValid_def conntrack_query_def)

lemma sessions_loop_eq:
  assumes "ipTupleValid (Some q)"
  shows "sessions_loop na q ss =
    Inr (case List.map_filter (session_dest na q) ss of [] \<Rightarrow> None | d # _ \<Rightarrow> Some d)"
proof (induction ss)
  case Nil
  then show ?case by (simp add: map_filter_simps)
next
  case (Cons s ss)
  show ?case
  proof (cases "ipTupleValid (Origin s) \<and> ipTupleValid (Reply s)")
    case True
    then obtain org rep where o: "Origin s = Some org" and r: "Reply s = Some rep"
      by (auto simp: ipTupleValid_def split: option.splits)
    with True have v: "ipTupleValid (Some org)" "ipTupleValid (Some rep)" by simp_all
    show ?thesis
      by (simp add: Cons o r v ipTuplesEqual_valid [OF assms] reply_addr_valid session_dest_def
          map_filter_simps split: option.splits)
  next
    case False
    then have "session_dest na q s = None"
      by (auto simp: session_dest_def split: option.splits)
    with False Cons show ?thesis by (auto simp: map_filter_simps)
  qed
qed

text \<open>C26: The actual destination of a connection is found safely. However incomplete the sessions
  the kernel returns (any pointer in them may be nil), looking one up never panics; the
  answer is the source of the opposite direction of the first complete session one of whose
  directions is the connection, an IPv4 address and its mapped form counting as one, and nil
  when there is none or the query fails.\<close>
theorem conntrack_first_match:
  "GetActualDestination na get src dst =
     Inr (case get (na_Is6 na (fst dst)) (conntrack_query na src dst) of
            Inl e \<Rightarrow> None
          | Inr sessions \<Rightarrow>
              (case List.map_filter (session_dest na (conntrack_query na src dst)) sessions of
                 [] \<Rightarrow> None | d # _ \<Rightarrow> Some d))"
  by (simp add: GetActualDestination_def sessions_loop_eq [OF conntrack_query_valid] split: sum.splits)

end
