(* ===== verification/K8s_Labels.thy ===== *)
theory K8s_Labels
imports Prelude
begin

text \<open>
  \<open>pkg/kubernetes/labels.go\<close>: the names of labels and annotations. The container code uses the names of pod,
  namespace and container, and the annotation of ports; nothing uses the others.
\<close>

definition KUBERNETES_LABEL_PODNAME :: string where
  "KUBERNETES_LABEL_PODNAME = ''io.kubernetes.pod.name''"

definition KUBERNETES_LABEL_NAMESPACE :: string where
  "KUBERNETES_LABEL_NAMESPACE = ''io.kubernetes.pod.namespace''"

definition KUBERNETES_LABEL_PODUID :: string where
  "KUBERNETES_LABEL_PODUID = ''io.kubernetes.pod.uid''"

definition KUBERNETES_LABEL_IMAGE :: string where
  "KUBERNETES_LABEL_IMAGE = ''org.opencontainers.image.base.name''"

definition KUBERNETES_LABEL_CONTAINER_NAME :: string where
  "KUBERNETES_LABEL_CONTAINER_NAME = ''io.kubernetes.container.name''"

definition KUBERNETES_LABEL_CONTAINER_RESTARTCOUNT :: string where
  "KUBERNETES_LABEL_CONTAINER_RESTARTCOUNT = ''annotation.io.kubernetes.container.restartCount''"

definition KUBERNETES_LABEL_CONTAINER_PORTS :: string where
  "KUBERNETES_LABEL_CONTAINER_PORTS = ''annotation.io.kubernetes.container.ports''"

definition KUBERNETES_ANNOTATION_CONTAINER_PORTS :: string where
  "KUBERNETES_ANNOTATION_CONTAINER_PORTS = ''io.kubernetes.container.ports''"

text \<open>The label of the ports is the annotation's name behind a prefix.\<close>

lemma label_of_ports: "KUBERNETES_LABEL_CONTAINER_PORTS = ''annotation.'' @ KUBERNETES_ANNOTATION_CONTAINER_PORTS"
  by (simp add: KUBERNETES_LABEL_CONTAINER_PORTS_def KUBERNETES_ANNOTATION_CONTAINER_PORTS_def)

lemma label_names_differ:
  "distinct [KUBERNETES_LABEL_PODNAME, KUBERNETES_LABEL_NAMESPACE, KUBERNETES_LABEL_CONTAINER_NAME]"
  by (simp add: KUBERNETES_LABEL_PODNAME_def KUBERNETES_LABEL_NAMESPACE_def KUBERNETES_LABEL_CONTAINER_NAME_def)

end
