(* ===== verification/Container_Meta.thy ===== *)
theory Container_Meta
imports Net_Addr Sys_Proc K8s_Labels
begin

text \<open>
  \<open>pkg/container\<close>: the metadata of a container and the two clients that find it,
  \<open>containerd.go\<close> and \<open>dockerd.go\<close>. What the daemons return is an argument: a record of the
  fields the code reads. The daemons' libraries, and the decoding of the JSON documents
  inside what containerd returns, are the fields of further records.

  A Go map is a partial function; where the code ranges over a map, the order of the
  iteration is that of a list.
\<close>

section \<open>Metadata\<close>

record ContainerPort =
  cp_Name :: string
  cp_ContainerPort :: u32
  cp_Protocol :: string
  cp_HostPort :: u32

record ContainerNetwork =
  NetworkID :: string
  Aliases :: "string list"
  IPAddress :: string

record 'ip ContainerMetadata =
  md_Name :: string
  md_ID :: string
  md_Labels :: "string \<rightharpoonup> string"
  md_Annotations :: "string \<rightharpoonup> string"
  md_Volumes :: "string \<rightharpoonup> string"
  md_Created :: string
  md_LogPath :: string
  md_Image :: string
  md_HostListens :: "string \<rightharpoonup> 'ip IPPort list"
  md_Networks :: "string \<rightharpoonup> ContainerNetwork"
  md_ContainerPorts :: "ContainerPort list"

definition zero_Metadata :: "'ip ContainerMetadata" where
  "zero_Metadata =
     \<lparr>md_Name = '''', md_ID = '''', md_Labels = Map.empty, md_Annotations = Map.empty,
      md_Volumes = Map.empty, md_Created = '''', md_LogPath = '''', md_Image = '''',
      md_HostListens = Map.empty, md_Networks = Map.empty, md_ContainerPorts = []\<rparr>"

text \<open>The loop over the mounts: of two with the same destination the later one stays.\<close>

definition volumes_of :: "(string \<times> string) list \<Rightarrow> (string \<rightharpoonup> string)" where
  "volumes_of mounts = fold (\<lambda>(dest, src) m. m(dest \<mapsto> src)) mounts Map.empty"

section \<open>containerd\<close>

text \<open>A container as containerd describes it.\<close>

record containerd_info =
  ci_ID :: string
  ci_Labels :: "string \<rightharpoonup> string"
  ci_Image :: string
  ci_CreatedAt :: string                     \<comment> \<open>\<open>CreatedAt.String()\<close>\<close>
  ci_Spec :: bytes                           \<comment> \<open>\<open>Spec.GetValue()\<close>\<close>
  ci_Extensions :: "string \<rightharpoonup> bytes"

record ContainerdMetadata =
  cm_LogPath :: string
  cm_Name :: string
  cm_Annotations :: "(string \<rightharpoonup> string) option"     \<comment> \<open>the map may be nil\<close>

text \<open>
  Decoding: the mounts of an OCI specification (those decoded before an error, when there is
  one), the metadata of the CRI plugin, and the ports in an annotation.
\<close>

record json_api =
  json_Mounts :: "bytes \<Rightarrow> (string \<times> string) list"
  json_Metadata :: "bytes \<Rightarrow> err + ContainerdMetadata"
  json_Ports :: "bytes \<Rightarrow> err + ContainerPort list"

definition MetadataLabel :: string where
  "MetadataLabel = ''io.cri-containerd.container.metadata''"

definition containerd_ports :: "json_api \<Rightarrow> ContainerdMetadata \<Rightarrow> ContainerPort list \<Rightarrow> ContainerPort list" where
  "containerd_ports js cm ports =
     (case cm_Annotations cm of
        None \<Rightarrow> ports
      | Some annotations \<Rightarrow>
          (case annotations KUBERNETES_ANNOTATION_CONTAINER_PORTS of
             None \<Rightarrow> ports
           | Some portData \<Rightarrow>
               (case json_Ports js portData of Inl e \<Rightarrow> ports | Inr containerPorts \<Rightarrow> containerPorts)))"

definition containerd_metadata :: "json_api \<Rightarrow> containerd_info \<Rightarrow> 'ip ContainerMetadata" where
  "containerd_metadata js contianer =
     (let metadata = zero_Metadata
            \<lparr>md_ID := ci_ID contianer, md_Labels := ci_Labels contianer, md_Image := ci_Image contianer,
             md_Created := ci_CreatedAt contianer,
             md_Volumes := volumes_of (json_Mounts js (ci_Spec contianer))\<rparr>
      in case ci_Extensions contianer MetadataLabel of
           None \<Rightarrow> metadata
         | Some data \<Rightarrow>
             (case json_Metadata js data of
                Inl e \<Rightarrow> metadata
              | Inr cm \<Rightarrow>
                  metadata\<lparr>md_ContainerPorts := containerd_ports js cm [],
                           md_LogPath := cm_LogPath cm, md_Name := cm_Name cm\<rparr>))"

text \<open>The client's pointer may be nil; otherwise its service answers by id.\<close>

definition containerd_GetContainerMetadata ::
  "json_api \<Rightarrow> (string \<Rightarrow> err + containerd_info) option \<Rightarrow> string \<Rightarrow> err + 'ip ContainerMetadata" where
  "containerd_GetContainerMetadata js client containerID =
     (case client of
        None \<Rightarrow> Inl ''containerd client not initialized''
      | Some get \<Rightarrow> go_bind (get containerID) (\<lambda>c. Inr (containerd_metadata js c)))"

definition containerd_ListContainerID ::
  "(err + containerd_info list) option \<Rightarrow> err + string list" where
  "containerd_ListContainerID client =
     (case client of
        None \<Rightarrow> Inl ''containerd client not initialized''
      | Some list \<Rightarrow> go_bind list (\<lambda>cs. Inr (map ci_ID cs)))"

section \<open>Docker\<close>

record docker_binding =
  HostIP :: string
  HostPort :: string

record docker_network =
  net_Ports :: "(string \<times> docker_binding list) list"
  net_Networks :: "(string \<times> ContainerNetwork) list"

text \<open>
  What inspecting a container returns. \<open>HostConfig\<close>, \<open>Config\<close> and \<open>NetworkSettings\<close> are pointers; the
  daemon always sets the first two, the code checks the third.
\<close>

record docker_info =
  di_Name :: string
  di_Labels :: "string \<rightharpoonup> string"
  di_Image :: string
  di_ID :: string
  di_Created :: string
  di_Mounts :: "(string \<times> string) list"
  di_LogPath :: string
  di_LogType :: string
  di_NetworkSettings :: "docker_network option"

record 'ip docker_api =
  port_Proto :: "string \<Rightarrow> string"
  port_Port :: "string \<Rightarrow> string"
  ParseIPPort :: "string \<Rightarrow> err + 'ip IPPort"

text \<open>The value \<open>strconv.ParseUint\<close> returns, error or not.\<close>

definition parse_uint_value :: "nat \<Rightarrow> bytes \<Rightarrow> nat" where
  "parse_uint_value bits s =
     (case parse_uint 10 bits s of
        Inr n \<Rightarrow> n | Inl ErrSyntax \<Rightarrow> 0 | Inl ErrRange \<Rightarrow> 2 ^ bits - 1)"

definition docker_listens :: "'ip docker_api \<Rightarrow> (string \<times> docker_binding list) list \<Rightarrow> 'ip IPPort list" where
  "docker_listens api ports =
     concat (map (\<lambda>(port, bindings).
       List.map_filter (\<lambda>b.
         if port_Proto api port = ''tcp''
         then (case ParseIPPort api (HostIP b @ '':'' @ HostPort b) of Inl e \<Rightarrow> None | Inr ipp \<Rightarrow> Some ipp)
         else None) bindings) ports)"

definition docker_ports :: "'ip docker_api \<Rightarrow> (string \<times> docker_binding list) list \<Rightarrow> ContainerPort list" where
  "docker_ports api ports =
     concat (map (\<lambda>(port, bindings).
       map (\<lambda>b. \<lparr>cp_Name = '''',
                 cp_ContainerPort = word_of_nat (parse_uint_value 32 (port_Port api port)),
                 cp_Protocol = port_Proto api port,
                 cp_HostPort = word_of_nat (parse_uint_value 32 (HostPort b))\<rparr>) bindings) ports)"

definition docker_metadata :: "'ip docker_api \<Rightarrow> docker_info \<Rightarrow> 'ip ContainerMetadata go" where
  "docker_metadata api inspect =
     (let metadata = zero_Metadata
            \<lparr>md_Name := di_Name inspect, md_Labels := di_Labels inspect, md_Image := di_Image inspect,
             md_ID := di_ID inspect, md_Created := di_Created inspect,
             md_Volumes := volumes_of (di_Mounts inspect)\<rparr>;
          metadata =
            (if di_LogPath inspect \<noteq> '''' \<and> di_LogType inspect = ''json-file''
             then metadata\<lparr>md_LogPath := di_LogPath inspect\<rparr> else metadata);
          metadata =
            (case di_NetworkSettings inspect of
               None \<Rightarrow> metadata
             | Some ns \<Rightarrow>
                 metadata\<lparr>md_ContainerPorts := docker_ports api (net_Ports ns),
                          md_HostListens := [''docker'' \<mapsto> docker_listens api (net_Ports ns)]\<rparr>)
      in case di_NetworkSettings inspect of
           None \<Rightarrow> Inl NilDereference
         | Some ns \<Rightarrow>
             Inr (metadata\<lparr>md_Networks := fold (\<lambda>(name, setting) m. m(name \<mapsto> setting)) (net_Networks ns) Map.empty\<rparr>))"

definition dockerd_GetContainerMetadata ::
  "'ip docker_api \<Rightarrow> (string \<Rightarrow> err + docker_info) option \<Rightarrow> string \<Rightarrow> (err + 'ip ContainerMetadata) go" where
  "dockerd_GetContainerMetadata api client containerID =
     (case client of
        None \<Rightarrow> Inr (Inl ''dockerd client not initialized'')
      | Some inspect \<Rightarrow>
          (case inspect containerID of
             Inl e \<Rightarrow> Inr (Inl e)
           | Inr i \<Rightarrow> go_bind (docker_metadata api i) (\<lambda>m. Inr (Inr m))))"

definition dockerd_ListContainerID :: "(err + docker_info list) option \<Rightarrow> err + string list" where
  "dockerd_ListContainerID client =
     (case client of
        None \<Rightarrow> Inl ''dockerd client not initialized''
      | Some list \<Rightarrow> go_bind list (\<lambda>cs. Inr (map di_ID cs)))"

section \<open>The interface of the clients\<close>

lemma volumes_of_map_of: "volumes_of mounts = map_of (rev mounts)"
proof -
  have "fold (\<lambda>(dest, src) m. m(dest \<mapsto> src)) mounts m = m ++ map_of (rev mounts)" for m :: "string \<rightharpoonup> string"
    by (induction mounts arbitrary: m) (auto simp: map_add_def fun_eq_iff split: option.splits)
  then show ?thesis by (simp add: volumes_of_def)
qed

text \<open>
  What the agent relies on when it asks a client for a container: an unknown container is an
  error, and a known one, if the daemon's answer is complete, comes with the daemon's id, labels
  and mounts.
\<close>

locale container_client =
  fixes get_metadata :: "'env \<Rightarrow> string \<Rightarrow> (err + 'ip ContainerMetadata) go"
    and daemon :: "'env \<Rightarrow> string \<Rightarrow> err + 'info"
    and complete :: "'info \<Rightarrow> bool"
    and info_ID :: "'info \<Rightarrow> string"
    and info_Labels :: "'info \<Rightarrow> (string \<rightharpoonup> string)"
    and info_Mounts :: "'env \<Rightarrow> 'info \<Rightarrow> (string \<times> string) list"
  assumes unknown_container: "daemon env i = Inl e \<Longrightarrow> get_metadata env i = Inr (Inl e)"
    and known_container: "daemon env i = Inr x \<Longrightarrow> complete x \<Longrightarrow>
      \<exists>m. get_metadata env i = Inr (Inr m) \<and> md_ID m = info_ID x \<and> md_Labels m = info_Labels x \<and>
        md_Volumes m = map_of (rev (info_Mounts env x))"
begin

lemma metadata_result:
  assumes "\<And>x. daemon env i = Inr x \<Longrightarrow> complete x"
  obtains e where "daemon env i = Inl e" and "get_metadata env i = Inr (Inl e)"
  | x m where "daemon env i = Inr x" and "get_metadata env i = Inr (Inr m)"
      and "md_ID m = info_ID x" and "md_Labels m = info_Labels x"
proof (cases "daemon env i")
  case (Inl e)
  then show ?thesis using unknown_container by (blast intro: that(1))
next
  case (Inr x)
  with known_container [OF Inr assms] show ?thesis by (blast intro: that(2))
qed

lemma metadata_safe: "(\<And>x. daemon env i = Inr x \<Longrightarrow> complete x) \<Longrightarrow> no_panic (get_metadata env i)"
  by (rule metadata_result [of env i]) simp_all

end

text \<open>The providers.\<close>

definition containerd_get :: "json_api \<times> (string \<Rightarrow> err + containerd_info) \<Rightarrow> string \<Rightarrow> (err + 'ip ContainerMetadata) go" where
  "containerd_get env i = Inr (containerd_GetContainerMetadata (fst env) (Some (snd env)) i)"

interpretation containerd: container_client containerd_get snd "\<lambda>_. True" ci_ID ci_Labels
    "\<lambda>env x. json_Mounts (fst env) (ci_Spec x)"
  by unfold_locales
    (auto simp: containerd_get_def containerd_GetContainerMetadata_def containerd_metadata_def
      volumes_of_map_of zero_Metadata_def Let_def split: option.splits sum.splits)

definition dockerd_get :: "'ip docker_api \<times> (string \<Rightarrow> err + docker_info) \<Rightarrow> string \<Rightarrow> (err + 'ip ContainerMetadata) go" where
  "dockerd_get env i = dockerd_GetContainerMetadata (fst env) (Some (snd env)) i"

interpretation dockerd: container_client dockerd_get snd "\<lambda>x. di_NetworkSettings x \<noteq> None" di_ID di_Labels
    "\<lambda>env x. di_Mounts x"
  by unfold_locales
    (auto simp: dockerd_get_def dockerd_GetContainerMetadata_def docker_metadata_def
      volumes_of_map_of Let_def split: option.splits)

text \<open>Docker's description of a container is turned into metadata without a panic exactly when
  it has network settings: the code checks for their absence before it reads the ports, and then
  reads the networks regardless. With settings, the id, the labels and the mounts (the
  later of two with one destination) are the daemon's, and there is a port for every
  binding, in order.\<close>
theorem dockerd_metadata_total:
  "case di_NetworkSettings x of
     None \<Rightarrow> docker_metadata api x = Inl NilDereference
   | Some ns \<Rightarrow>
       (\<exists>m. docker_metadata api x = Inr m \<and>
          md_ID m = di_ID x \<and> md_Labels m = di_Labels x \<and> md_Volumes m = map_of (rev (di_Mounts x)) \<and>
          map cp_Protocol (md_ContainerPorts m) =
            concat (map (\<lambda>(port, bs). replicate (length bs) (port_Proto api port)) (net_Ports ns)))"
proof -
  have "map cp_Protocol (docker_ports api ps) =
      concat (map (\<lambda>(port, bs). replicate (length bs) (port_Proto api port)) ps)" for ps
    by (induction ps) (auto simp: docker_ports_def map_replicate_const comp_def)
  then show ?thesis
    by (auto simp: docker_metadata_def Let_def volumes_of_map_of split: option.split)
qed

end
