(* ===== verification/Tracer_Events.thy ===== *)
theory Tracer_Events
imports L7_Types Net_Addr
begin

text \<open>
  \<open>pkg/ebpftracer/event.go\<close>: the events of the tracer, the structures the kernel programs
  write into the perf buffers, and their decoding by \<open>binary.Read\<close> in little-endian order.
\<close>

section \<open>Event types\<close>

abbreviation (input) EventTypeProcessStart :: u32 where "EventTypeProcessStart \<equiv> 1"
abbreviation (input) EventTypeProcessExit :: u32 where "EventTypeProcessExit \<equiv> 2"
abbreviation (input) EventTypeConnectionOpen :: u32 where "EventTypeConnectionOpen \<equiv> 3"
abbreviation (input) EventTypeConnectionClose :: u32 where "EventTypeConnectionClose \<equiv> 4"
abbreviation (input) EventTypeConnectionError :: u32 where "EventTypeConnectionError \<equiv> 5"
abbreviation (input) EventTypeListenOpen :: u32 where "EventTypeListenOpen \<equiv> 6"
abbreviation (input) EventTypeListenClose :: u32 where "EventTypeListenClose \<equiv> 7"
abbreviation (input) EventTypeFileOpen :: u32 where "EventTypeFileOpen \<equiv> 8"
abbreviation (input) EventTypeTCPRetransmit :: u32 where "EventTypeTCPRetransmit \<equiv> 9"
abbreviation (input) EventTypeL7Request :: u32 where "EventTypeL7Request \<equiv> 10"

abbreviation (input) EventReasonNone :: u32 where "EventReasonNone \<equiv> 0"
abbreviation (input) EventReasonOOMKill :: u32 where "EventReasonOOMKill \<equiv> 1"

section \<open>The structures of the kernel programs\<close>

record l7Event =
  l7_Fd :: u64
  l7_ConnectionTimestamp :: u64
  l7_Pid :: u32
  l7_Status :: u32
  l7_Duration :: u64
  l7_Protocol :: u8
  l7_Method :: u8
  l7_Padding :: u16
  l7_StatementId :: u32
  l7_PayloadSize :: u64

record fileEvent =
  file_Type :: u32
  file_Pid :: u32
  file_Fd :: u64

record procEvent =
  proc_Type :: u32
  proc_Pid :: u32
  proc_Reason :: u32

record tcpEvent =
  tcp_Fd :: u64
  tcp_Timestamp :: u64
  tcp_Type :: u32
  tcp_Pid :: u32
  tcp_SPort :: u16
  tcp_DPort :: u16
  tcp_SAddr :: bytes
  tcp_DAddr :: bytes

text \<open>The event the tracer publishes; \<open>L7Request\<close> is nil except for a traced request.\<close>

record 'ip Event =
  Type :: u32
  Reason :: u32
  Pid :: u32
  SrcAddr :: "'ip IPPort"
  DstAddr :: "'ip IPPort"
  Fd :: u64
  Timestamp :: u64
  L7Request :: "RequestData option"

definition zero_Event :: "'ip netaddr_api \<Rightarrow> 'ip Event" where
  "zero_Event na =
     \<lparr>Type = 0, Reason = 0, Pid = 0, SrcAddr = zero_IPPort na, DstAddr = zero_IPPort na,
      Fd = 0, Timestamp = 0, L7Request = None\<rparr>"

section \<open>The perf buffers\<close>

abbreviation (input) perfMapTypeProcEvents :: u8 where "perfMapTypeProcEvents \<equiv> 1"
abbreviation (input) perfMapTypeTCPEvents :: u8 where "perfMapTypeTCPEvents \<equiv> 2"
abbreviation (input) perfMapTypeFileEvents :: u8 where "perfMapTypeFileEvents \<equiv> 3"
abbreviation (input) perfMapTypeL7Events :: u8 where "perfMapTypeL7Events \<equiv> 4"

record perfEventMap =
  pe_name :: string
  pe_perCPUBufferSize :: nat
  pe_typ :: u8

definition perfEvenMaps :: "perfEventMap list" where
  "perfEvenMaps =
     [\<lparr>pe_name = ''proc_events'', pe_perCPUBufferSize = 4, pe_typ = perfMapTypeProcEvents\<rparr>,
      \<lparr>pe_name = ''tcp_listen_events'', pe_perCPUBufferSize = 4, pe_typ = perfMapTypeTCPEvents\<rparr>,
      \<lparr>pe_name = ''tcp_connect_events'', pe_perCPUBufferSize = 8, pe_typ = perfMapTypeTCPEvents\<rparr>,
      \<lparr>pe_name = ''tcp_retransmit_events'', pe_perCPUBufferSize = 4, pe_typ = perfMapTypeTCPEvents\<rparr>,
      \<lparr>pe_name = ''file_events'', pe_perCPUBufferSize = 4, pe_typ = perfMapTypeFileEvents\<rparr>,
      \<lparr>pe_name = ''l7_events'', pe_perCPUBufferSize = 32, pe_typ = perfMapTypeL7Events\<rparr>]"

section \<open>\<open>binary.Read\<close>\<close>

text \<open>
  \<open>binary.Read\<close> first reads as many bytes as the structure has, failing when there are fewer,
  and then decodes the fields one after the other; \<open>dec k\<close> decodes an unsigned field of
  \<open>k\<close> bytes. The readers return the structure and the bytes left in the buffer.
\<close>

definition dec :: "nat \<Rightarrow> bytes \<Rightarrow> 'w::len word \<times> bytes" where
  "dec k s = (word_of_nat (le_nat (take k s)), drop k s)"

definition read_l7Event :: "bytes \<Rightarrow> (l7Event \<times> bytes) option" where
  "read_l7Event s =
     (if length s < 48 then None
      else
        let (fd, s) = dec 8 s;
            (ts, s) = dec 8 s;
            (pid, s) = dec 4 s;
            (status, s) = dec 4 s;
            (duration, s) = dec 8 s;
            (protocol, s) = dec 1 s;
            (meth, s) = dec 1 s;
            (padding, s) = dec 2 s;
            (stmt, s) = dec 4 s;
            (size, s) = dec 8 s
        in Some (\<lparr>l7_Fd = fd, l7_ConnectionTimestamp = ts, l7_Pid = pid, l7_Status = status,
                  l7_Duration = duration, l7_Protocol = protocol, l7_Method = meth,
                  l7_Padding = padding, l7_StatementId = stmt, l7_PayloadSize = size\<rparr>, s))"

definition read_fileEvent :: "bytes \<Rightarrow> (fileEvent \<times> bytes) option" where
  "read_fileEvent s =
     (if length s < 16 then None
      else
        let (ty, s) = dec 4 s;
            (pid, s) = dec 4 s;
            (fd, s) = dec 8 s
        in Some (\<lparr>file_Type = ty, file_Pid = pid, file_Fd = fd\<rparr>, s))"

definition read_procEvent :: "bytes \<Rightarrow> (procEvent \<times> bytes) option" where
  "read_procEvent s =
     (if length s < 12 then None
      else
        let (ty, s) = dec 4 s;
            (pid, s) = dec 4 s;
            (reason, s) = dec 4 s
        in Some (\<lparr>proc_Type = ty, proc_Pid = pid, proc_Reason = reason\<rparr>, s))"

definition read_tcpEvent :: "bytes \<Rightarrow> (tcpEvent \<times> bytes) option" where
  "read_tcpEvent s =
     (if length s < 60 then None
      else
        let (fd, s) = dec 8 s;
            (ts, s) = dec 8 s;
            (ty, s) = dec 4 s;
            (pid, s) = dec 4 s;
            (sport, s) = dec 2 s;
            (dport, s) = dec 2 s
        in Some (\<lparr>tcp_Fd = fd, tcp_Timestamp = ts, tcp_Type = ty, tcp_Pid = pid,
                  tcp_SPort = sport, tcp_DPort = dport,
                  tcp_SAddr = take 16 s, tcp_DAddr = take 16 (drop 16 s)\<rparr>, drop 32 s))"

text \<open>What the kernel programs write: the fields in order, little-endian, without padding.\<close>

definition enc :: "nat \<Rightarrow> 'w::len word \<Rightarrow> bytes" where
  "enc k w = le_bytes k (unat w)"

definition l7Event_bytes :: "l7Event \<Rightarrow> bytes" where
  "l7Event_bytes v =
     enc 8 (l7_Fd v) @ enc 8 (l7_ConnectionTimestamp v) @ enc 4 (l7_Pid v) @ enc 4 (l7_Status v) @
     enc 8 (l7_Duration v) @ enc 1 (l7_Protocol v) @ enc 1 (l7_Method v) @ enc 2 (l7_Padding v) @
     enc 4 (l7_StatementId v) @ enc 8 (l7_PayloadSize v)"

definition fileEvent_bytes :: "fileEvent \<Rightarrow> bytes" where
  "fileEvent_bytes v = enc 4 (file_Type v) @ enc 4 (file_Pid v) @ enc 8 (file_Fd v)"

definition procEvent_bytes :: "procEvent \<Rightarrow> bytes" where
  "procEvent_bytes v = enc 4 (proc_Type v) @ enc 4 (proc_Pid v) @ enc 4 (proc_Reason v)"

definition tcpEvent_bytes :: "tcpEvent \<Rightarrow> bytes" where
  "tcpEvent_bytes v =
     enc 8 (tcp_Fd v) @ enc 8 (tcp_Timestamp v) @ enc 4 (tcp_Type v) @ enc 4 (tcp_Pid v) @
     enc 2 (tcp_SPort v) @ enc 2 (tcp_DPort v) @ tcp_SAddr v @ tcp_DAddr v"

section \<open>Decoding is exact\<close>

lemma length_enc [simp]: "length (enc k w) = k"
  by (simp add: enc_def)

lemma unat_mod_256: "LENGTH('w) = 8 * k \<Longrightarrow> unat (w :: 'w::len word) mod 256 ^ k = unat w"
proof -
  assume l: "LENGTH('w) = 8 * k"
  have "unat w < 2 ^ (8 * k)" using unsigned_less [of w] by (simp add: l)
  then show ?thesis by (simp add: power_mult)
qed

lemma dec_enc: "LENGTH('w) = 8 * k \<Longrightarrow> dec k (enc k (w :: 'w::len word) @ s) = (w, s)"
  by (simp add: dec_def enc_def le_nat_le_bytes unat_mod_256)

lemma dec_append: "LENGTH('w) = 8 * k \<Longrightarrow> k \<le> length s \<Longrightarrow> dec k s = (w :: 'w::len word, t) \<Longrightarrow> s = enc k w @ t"
proof -
  assume l: "LENGTH('w) = 8 * k" and k: "k \<le> length s" and d: "dec k s = (w, t)"
  have "le_nat (take k s) < 256 ^ k" using le_nat_bound [of "take k s"] k by simp
  then have "le_nat (take k s) < 2 ^ LENGTH('w)" by (simp add: l power_mult)
  then have "unat (word_of_nat (le_nat (take k s)) :: 'w word) = le_nat (take k s)"
    by (simp add: unat_of_nat take_bit_nat_eq_self)
  with d have "enc k w = take k s"
    using k by (auto simp: dec_def enc_def le_bytes_le_nat)
  with d show ?thesis by (auto simp: dec_def)
qed

lemmas dec_encs = dec_enc [of 8] dec_enc [of 4] dec_enc [of 2] dec_enc [of 1]

lemma read_l7Event_bytes: "read_l7Event (l7Event_bytes v @ s) = Some (v, s)"
  by (cases v) (simp add: read_l7Event_def l7Event_bytes_def dec_enc)

lemma read_fileEvent_bytes: "read_fileEvent (fileEvent_bytes v @ s) = Some (v, s)"
  by (cases v) (simp add: read_fileEvent_def fileEvent_bytes_def dec_enc)

lemma read_procEvent_bytes: "read_procEvent (procEvent_bytes v @ s) = Some (v, s)"
  by (cases v) (simp add: read_procEvent_def procEvent_bytes_def dec_enc)

lemma read_tcpEvent_bytes:
  "length (tcp_SAddr v) = 16 \<Longrightarrow> length (tcp_DAddr v) = 16 \<Longrightarrow>
   read_tcpEvent (tcpEvent_bytes v @ s) = Some (v, s)"
  by (cases v) (simp add: read_tcpEvent_def tcpEvent_bytes_def dec_enc)

lemma enc_dec:
  "LENGTH('w) = 8 * k \<Longrightarrow> k \<le> length s \<Longrightarrow> enc k (fst (dec k s) :: 'w::len word) = take k s"
  by (rule append_same_eq [THEN iffD1, of _ "drop k s"])
    (metis append_take_drop_id dec_append dec_def fst_conv)

lemma dec_split:
  "LENGTH('w) = 8 * k \<Longrightarrow> k \<le> length s \<Longrightarrow>
   enc k (fst (dec k s) :: 'w::len word) @ snd (dec k s :: 'w word \<times> bytes) = s"
  by (simp add: enc_dec) (simp add: dec_def)

lemma length_snd_dec: "length (snd (dec k s)) = length s - k"
  by (simp add: dec_def)

lemma bytes_read_l7Event: "read_l7Event s = Some (v, r) \<Longrightarrow> s = l7Event_bytes v @ r"
  unfolding read_l7Event_def Let_def case_prod_beta l7Event_bytes_def
  by (rule sym) (clarsimp split: if_split_asm simp: dec_split length_snd_dec)

lemma bytes_read_fileEvent: "read_fileEvent s = Some (v, r) \<Longrightarrow> s = fileEvent_bytes v @ r"
  unfolding read_fileEvent_def Let_def case_prod_beta fileEvent_bytes_def
  by (rule sym) (clarsimp split: if_split_asm simp: dec_split length_snd_dec)

lemma bytes_read_procEvent: "read_procEvent s = Some (v, r) \<Longrightarrow> s = procEvent_bytes v @ r"
  unfolding read_procEvent_def Let_def case_prod_beta procEvent_bytes_def
  by (rule sym) (clarsimp split: if_split_asm simp: dec_split length_snd_dec)

lemma take_drop_16: "take 16 s @ take 16 (drop 16 s) @ drop 32 s = s"
  using append_take_drop_id [of 16 "drop 16 s"] by simp

lemma bytes_read_tcpEvent:
  "read_tcpEvent s = Some (v, r) \<Longrightarrow>
   s = tcpEvent_bytes v @ r \<and> length (tcp_SAddr v) = 16 \<and> length (tcp_DAddr v) = 16"
  unfolding read_tcpEvent_def Let_def case_prod_beta tcpEvent_bytes_def
  by (rule conjI, rule sym) (clarsimp split: if_split_asm simp: dec_split length_snd_dec take_drop_16)+

text \<open>C15: binary.Read recovers exactly what the kernel programs wrote, for each of the four
  structures: a sample decodes to a value, with some bytes left over, if and only if it is the
  little-endian image of that value followed by those bytes. So no field is read at a wrong
  offset or width, and a sample too short for its structure never decodes.\<close>
theorem kernel_structs_exact:
  "(read_l7Event s = Some (v, r) \<longleftrightarrow> s = l7Event_bytes v @ r) \<and>
   (read_fileEvent s = Some (fe, r) \<longleftrightarrow> s = fileEvent_bytes fe @ r) \<and>
   (read_procEvent s = Some (pe, r) \<longleftrightarrow> s = procEvent_bytes pe @ r) \<and>
   (read_tcpEvent s = Some (te, r) \<longleftrightarrow>
      s = tcpEvent_bytes te @ r \<and> length (tcp_SAddr te) = 16 \<and> length (tcp_DAddr te) = 16)"
  by (intro conjI iffI)
    (simp_all only: read_l7Event_bytes read_fileEvent_bytes read_procEvent_bytes
      read_tcpEvent_bytes bytes_read_l7Event bytes_read_fileEvent bytes_read_procEvent
      bytes_read_tcpEvent simp_thms)

end
