(* ===== verification/Event_Bus.thy ===== *)
theory Event_Bus
imports Prelude
begin

text \<open>
  The contract between whoever publishes events and the channels subscribed to them: a
  subscription adds one listener of one type and nothing else, and a published event goes to
  every listener of its type. What each channel then receives depends on its own
  subscriptions alone.
\<close>

datatype ('ty, 'ch, 'ev) bus_act =
    Sub 'ty 'ch
  | Pub 'ev

text \<open>The events one channel receives, in order.\<close>

definition inbox :: "'ch \<Rightarrow> ('ch \<times> 'ev) list \<Rightarrow> 'ev list" where
  "inbox c ds = map snd (filter (\<lambda>d. fst d = c) ds)"

lemma inbox_Nil [simp]: "inbox c [] = []"
  by (simp add: inbox_def)

lemma inbox_append [simp]: "inbox c (ds @ es) = inbox c ds @ inbox c es"
  by (simp add: inbox_def)

text \<open>
  The specification, with nothing but a count of the subscriptions the channel itself made to
  each type so far.
\<close>

fun expected_inbox :: "('ev \<Rightarrow> 'ty) \<Rightarrow> 'ch \<Rightarrow> ('ty \<Rightarrow> nat) \<Rightarrow> ('ty, 'ch, 'ev) bus_act list \<Rightarrow> 'ev list" where
  "expected_inbox kind c n [] = []"
| "expected_inbox kind c n (Sub t d # as) =
     expected_inbox kind c (if d = c then n(t := Suc (n t)) else n) as"
| "expected_inbox kind c n (Pub e # as) = replicate (n (kind e)) e @ expected_inbox kind c n as"

lemma count_list_snoc [simp]: "count_list (xs @ [x]) y = count_list xs y + (if x = y then 1 else 0)"
  by (induction xs) auto

lemma inbox_to_all: "inbox c (map (\<lambda>d. (d, e)) cs) = replicate (count_list cs c) e"
  by (induction cs) (auto simp: inbox_def)

locale event_bus =
  fixes listeners :: "'s \<Rightarrow> 'ty \<Rightarrow> 'ch list"
    and subscribe :: "'s \<Rightarrow> 'ty \<Rightarrow> 'ch \<Rightarrow> 's"
    and publish :: "'s \<Rightarrow> 'ev \<Rightarrow> ('ch \<times> 'ev) list"
    and kind :: "'ev \<Rightarrow> 'ty"
  assumes listeners_subscribe:
      "listeners (subscribe s t c) t' = listeners s t' @ (if t' = t then [c] else [])"
    and publish_all: "publish s e = map (\<lambda>c. (c, e)) (listeners s (kind e))"
begin

fun bus_run :: "'s \<Rightarrow> ('ty, 'ch, 'ev) bus_act list \<Rightarrow> ('ch \<times> 'ev) list \<times> 's" where
  "bus_run s [] = ([], s)"
| "bus_run s (Sub t c # as) = bus_run (subscribe s t c) as"
| "bus_run s (Pub e # as) = (let r = bus_run s as in (publish s e @ fst r, snd r))"

lemma bus_run_inbox:
  "inbox c (fst (bus_run s as)) = expected_inbox kind c (\<lambda>t. count_list (listeners s t) c) as"
proof (induction as arbitrary: s)
  case Nil
  then show ?case by simp
next
  case (Cons a as)
  show ?case
  proof (cases a)
    case (Sub t d)
    have "(\<lambda>t'. count_list (listeners (subscribe s t d) t') c) =
      (if d = c then (\<lambda>t'. count_list (listeners s t') c)(t := Suc (count_list (listeners s t) c))
       else (\<lambda>t'. count_list (listeners s t') c))"
      by (auto simp: listeners_subscribe fun_eq_iff)
    then show ?thesis by (simp add: Sub Cons)
  next
    case (Pub e)
    have "inbox c (publish s e) = replicate (count_list (listeners s (kind e)) c) e"
      by (simp only: publish_all inbox_to_all)
    then show ?thesis by (simp add: Pub Cons Let_def)
  qed
qed

lemma bus_run_listeners:
  "listeners (snd (bus_run s as)) t =
   listeners s t @ List.map_filter (\<lambda>a. case a of Sub t' c \<Rightarrow> if t' = t then Some c else None | Pub e \<Rightarrow> None) as"
  by (induction s as rule: bus_run.induct)
    (auto simp: listeners_subscribe Let_def map_filter_simps)

end

end
