(* ===== verification/Tracer_Reader.thy ===== *)
theory Tracer_Reader
imports Tracer_Events Event_Bus Go_Strings
begin

text \<open>
  \<open>pkg/ebpftracer/ebpftracer.go\<close>: the state of the tracer, \<open>SubscribeEvents\<close>, and the loop
  \<open>Reader\<close> that takes the records of one perf buffer, decodes them and sends the events to
  the subscribed channels.

  The loop never ends in the source, so it is modelled by its iteration, one perf record at a
  time; \<open>tracer_run\<close> runs the iterations of all the readers, interleaved with subscriptions,
  in the order in which they happen.
\<close>

section \<open>The state\<close>

text \<open>
  Programs, links, perf readers, collections and channels are objects of other packages or of
  the run time; the tracer only keeps them, so they are opaque handles here.
\<close>

type_synonym handle = nat

record EBPFTracer =
  collection :: handle
  readers :: "string \<rightharpoonup> handle \<times> perfEventMap"
  links :: "handle list"
  uprobes :: "string \<rightharpoonup> handle"
  disableL7Tracing :: bool
  subscribers :: "u32 \<rightharpoonup> handle list"

abbreviation (input) MaxPayloadSize :: nat where "MaxPayloadSize \<equiv> 1024"

section \<open>Subscriptions\<close>

definition SubscribeEvents :: "EBPFTracer \<Rightarrow> u32 \<Rightarrow> handle \<Rightarrow> EBPFTracer" where
  "SubscribeEvents t eventType ch =
     (case subscribers t eventType of
        Some eventsCh \<Rightarrow> t\<lparr>subscribers := (subscribers t)(eventType \<mapsto> eventsCh @ [ch])\<rparr>
      | None \<Rightarrow> t\<lparr>subscribers := (subscribers t)(eventType \<mapsto> [ch])\<rparr>)"

definition publish :: "EBPFTracer \<Rightarrow> 'ip Event \<Rightarrow> (handle \<times> 'ip Event) list" where
  "publish t event =
     (case subscribers t (Type event) of
        Some eventsChan \<Rightarrow> map (\<lambda>ch. (ch, event)) eventsChan
      | None \<Rightarrow> [])"

section \<open>One record\<close>

text \<open>
  A record of a perf buffer. A Go slice may be extended up to the capacity of its array:
  \<open>Spare\<close> holds the bytes of the array of \<open>RawSample\<close> that lie behind its end.
\<close>

record perf_record =
  RawSample :: bytes
  Spare :: bytes
  LostSamples :: u64

definition reslice :: "bytes \<Rightarrow> bytes \<Rightarrow> nat \<Rightarrow> bytes go" where
  "reslice s spare n =
     (if n \<le> length s + length spare then Inr (take n (s @ spare)) else Inl SliceOutOfRange)"

definition ipPort :: "'ip netaddr_api \<Rightarrow> bytes \<Rightarrow> u16 \<Rightarrow> 'ip IPPort" where
  "ipPort na ip port = (fst (na_FromStdIP na ip), port)"

definition l7_payload :: "l7Event \<Rightarrow> bytes \<Rightarrow> bytes \<Rightarrow> bytes go" where
  "l7_payload v payload spare =
     (if l7_PayloadSize v = 0 then Inr []
      else if MaxPayloadSize < unat (l7_PayloadSize v) then reslice payload spare MaxPayloadSize
      else reslice payload spare (unat (l7_PayloadSize v)))"

definition l7_request :: "l7Event \<Rightarrow> bytes \<Rightarrow> RequestData" where
  "l7_request v payload =
     \<lparr>Protocol = l7_Protocol v, Status = uint (l7_Status v), Duration = sint (l7_Duration v),
      Method = l7_Method v, StatementId = l7_StatementId v, Payload = payload\<rparr>"

definition l7_event :: "'ip netaddr_api \<Rightarrow> l7Event \<Rightarrow> bytes \<Rightarrow> 'ip Event" where
  "l7_event na v payload =
     (if index_of payload ''CUPS/2.4.1'' = None
      then (zero_Event na)\<lparr>Type := EventTypeL7Request, Pid := l7_Pid v, Fd := l7_Fd v,
              Timestamp := l7_ConnectionTimestamp v, L7Request := Some (l7_request v payload)\<rparr>
      else zero_Event na)"

definition file_event :: "'ip netaddr_api \<Rightarrow> fileEvent \<Rightarrow> 'ip Event" where
  "file_event na v = (zero_Event na)\<lparr>Type := file_Type v, Pid := file_Pid v, Fd := file_Fd v\<rparr>"

definition proc_event :: "'ip netaddr_api \<Rightarrow> procEvent \<Rightarrow> 'ip Event" where
  "proc_event na v =
     (zero_Event na)\<lparr>Type := proc_Type v, Reason := proc_Reason v, Pid := proc_Pid v\<rparr>"

definition tcp_event :: "'ip netaddr_api \<Rightarrow> tcpEvent \<Rightarrow> 'ip Event" where
  "tcp_event na v =
     (zero_Event na)\<lparr>Type := tcp_Type v, Pid := tcp_Pid v,
        SrcAddr := ipPort na (tcp_SAddr v) (tcp_SPort v),
        DstAddr := ipPort na (tcp_DAddr v) (tcp_DPort v),
        Fd := tcp_Fd v, Timestamp := tcp_Timestamp v\<rparr>"

text \<open>
  The event of a record, before it is sent: \<open>None\<close> where the loop continues with the next
  record. \<open>Read\<close> returns an error (its text) or a record.
\<close>

definition reader_event :: "'ip netaddr_api \<Rightarrow> u8 \<Rightarrow> string + perf_record \<Rightarrow> 'ip Event option go" where
  "reader_event na pt read =
     (case read of
        Inl err \<Rightarrow> Inr None
      | Inr rec \<Rightarrow>
          if 0 < LostSamples rec then Inr None
          else if pt = perfMapTypeL7Events then
            (case read_l7Event (RawSample rec) of
               None \<Rightarrow> Inr None
             | Some (v, payload) \<Rightarrow>
                 go_bind (l7_payload v payload (Spare rec)) (\<lambda>p. Inr (Some (l7_event na v p))))
          else if pt = perfMapTypeFileEvents then
            Inr (map_option (\<lambda>(v, _). file_event na v) (read_fileEvent (RawSample rec)))
          else if pt = perfMapTypeProcEvents then
            Inr (map_option (\<lambda>(v, _). proc_event na v) (read_procEvent (RawSample rec)))
          else if pt = perfMapTypeTCPEvents then
            Inr (map_option (\<lambda>(v, _). tcp_event na v) (read_tcpEvent (RawSample rec)))
          else Inr None)"

text \<open>One iteration of \<open>Reader\<close>: the sends it makes.\<close>

definition Reader_step ::
  "'ip netaddr_api \<Rightarrow> EBPFTracer \<Rightarrow> u8 \<Rightarrow> string + perf_record \<Rightarrow> (handle \<times> 'ip Event) list go" where
  "Reader_step na t pt read =
     go_bind (reader_event na pt read) (\<lambda>ev.
       Inr (case ev of None \<Rightarrow> [] | Some event \<Rightarrow> publish t event))"

section \<open>Runs\<close>

datatype tracer_act =
    Subscribe u32 handle
  | Sample u8 "string + perf_record"

fun tracer_run ::
  "'ip netaddr_api \<Rightarrow> EBPFTracer \<Rightarrow> tracer_act list \<Rightarrow> ((handle \<times> 'ip Event) list \<times> EBPFTracer) go" where
  "tracer_run na t [] = Inr ([], t)"
| "tracer_run na t (Subscribe ty ch # as) = tracer_run na (SubscribeEvents t ty ch) as"
| "tracer_run na t (Sample pt read # as) =
     go_bind (Reader_step na t pt read) (\<lambda>ds.
     go_bind (tracer_run na t as) (\<lambda>(es, t'). Inr (ds @ es, t')))"

section \<open>Lemmas\<close>

lemma reslice_whole: "n \<le> length s \<Longrightarrow> reslice s spare n = Inr (take n s)"
  by (simp add: reslice_def)

lemma reslice_Inl: "reslice s spare n = Inl e \<longleftrightarrow> e = SliceOutOfRange \<and> length s + length spare < n"
  by (auto simp: reslice_def not_le)

lemma l7_payload_min:
  "l7_payload v payload spare = reslice payload spare (min MaxPayloadSize (unat (l7_PayloadSize v)))"
  by (auto simp: l7_payload_def reslice_def min_def unat_eq_zero)

lemma reader_event_simps:
  "reader_event na pt (Inl err) = Inr None"
  "0 < LostSamples rec \<Longrightarrow> reader_event na pt (Inr rec) = Inr None"
  "LostSamples rec = 0 \<Longrightarrow> reader_event na 4 (Inr rec) =
     (case read_l7Event (RawSample rec) of
        None \<Rightarrow> Inr None
      | Some (v, payload) \<Rightarrow>
          go_bind (l7_payload v payload (Spare rec)) (\<lambda>p. Inr (Some (l7_event na v p))))"
  "LostSamples rec = 0 \<Longrightarrow> reader_event na 3 (Inr rec) =
     Inr (map_option (\<lambda>(v, _). file_event na v) (read_fileEvent (RawSample rec)))"
  "LostSamples rec = 0 \<Longrightarrow> reader_event na 1 (Inr rec) =
     Inr (map_option (\<lambda>(v, _). proc_event na v) (read_procEvent (RawSample rec)))"
  "LostSamples rec = 0 \<Longrightarrow> reader_event na 2 (Inr rec) =
     Inr (map_option (\<lambda>(v, _). tcp_event na v) (read_tcpEvent (RawSample rec)))"
  by (simp_all add: reader_event_def)

text \<open>The samples whose payload lies in the buffer as far as the reader looks at it.\<close>

definition sample_fits :: "tracer_act \<Rightarrow> bool" where
  "sample_fits a =
     (case a of
        Sample pt (Inr rec) \<Rightarrow>
          (case read_l7Event (RawSample rec) of
             None \<Rightarrow> True
           | Some (v, payload) \<Rightarrow>
               pt \<noteq> perfMapTypeL7Events \<or> 0 < LostSamples rec \<or>
               min MaxPayloadSize (unat (l7_PayloadSize v)) \<le> length payload + length (Spare rec))
      | _ \<Rightarrow> True)"

lemma reader_event_no_panic: "sample_fits (Sample pt read) \<longleftrightarrow> no_panic (reader_event na pt read)"
proof (cases read)
  case (Inr rec)
  then show ?thesis
    by (cases "read_l7Event (RawSample rec)")
      (auto simp: sample_fits_def reader_event_def no_panic_iff go_bind_eq_Inr
        l7_payload_min reslice_def not_less word_gt_0 split: if_splits)
qed (simp add: sample_fits_def reader_event_def)

lemma tracer_run_no_panic: "no_panic (tracer_run na t as) \<longleftrightarrow> list_all sample_fits as"
proof (induction na t as rule: tracer_run.induct)
  case (1 na t)
  then show ?case by simp
next
  case (2 na t ty ch as)
  then show ?case by (simp add: sample_fits_def)
next
  case (3 na t pt read as)
  show ?case
  proof (cases "reader_event na pt read")
    case (Inl e)
    then show ?thesis
      by (simp add: reader_event_no_panic [of _ _ na] Reader_step_def)
  next
    case (Inr ev)
    then obtain ds where ds: "Reader_step na t pt read = Inr ds" by (simp add: Reader_step_def)
    with 3 [OF ds] Inr show ?thesis
      by (auto simp: reader_event_no_panic [of _ _ na] no_panic_iff go_bind_eq_Inr)
  qed
qed

section \<open>The tracer is an event bus\<close>

definition tracer_listeners :: "EBPFTracer \<Rightarrow> u32 \<Rightarrow> handle list" where
  "tracer_listeners t ty = map_get [] (subscribers t) ty"

interpretation tracer_bus: event_bus tracer_listeners SubscribeEvents publish Type
  by unfold_locales
    (auto simp: tracer_listeners_def SubscribeEvents_def publish_def map_get_def split: option.splits)

text \<open>The subscriptions and the published events of a run.\<close>

fun bus_acts :: "'ip netaddr_api \<Rightarrow> tracer_act list \<Rightarrow> (u32, handle, 'ip Event) bus_act list" where
  "bus_acts na [] = []"
| "bus_acts na (Subscribe ty ch # as) = Sub ty ch # bus_acts na as"
| "bus_acts na (Sample pt read # as) =
     (case reader_event na pt read of Inr (Some e) \<Rightarrow> Pub e # bus_acts na as | _ \<Rightarrow> bus_acts na as)"

lemma tracer_run_bus: "tracer_run na t as = Inr r \<Longrightarrow> tracer_bus.bus_run t (bus_acts na as) = r"
proof (induction na t as arbitrary: r rule: tracer_run.induct)
  case (1 na t)
  then show ?case by simp
next
  case (2 na t ty ch as)
  then show ?case by simp
next
  case (3 na t pt read as)
  from 3(2) obtain ds es t' where ds: "Reader_step na t pt read = Inr ds"
    and es: "tracer_run na t as = Inr (es, t')" and r: "r = (ds @ es, t')"
    by (auto simp: go_bind_eq_Inr)
  from ds obtain ev where ev: "reader_event na pt read = Inr ev"
    and d: "ds = (case ev of None \<Rightarrow> [] | Some event \<Rightarrow> publish t event)"
    by (auto simp: Reader_step_def go_bind_eq_Inr)
  from 3(1) [OF ds es] show ?case by (cases ev) (simp_all add: ev d r)
qed

section \<open>Properties\<close>

text \<open>C16: Dispatch is exact. Whatever the interleaving of subscriptions and perf records, the
  readers do not panic when the payloads lie in their buffers, and each channel receives just the
  decoded events of the types it subscribed to before them, in the order of the records and
  once per subscription; lost samples, read errors and samples that do not decode reach nobody, and
  the subscriptions of other channels make no difference.\<close>
theorem tracer_delivery:
  assumes "list_all sample_fits acts"
  shows "\<exists>ds t'. tracer_run na t acts = Inr (ds, t') \<and>
    inbox c ds =
      expected_inbox Type c (\<lambda>ty. count_list (map_get [] (subscribers t) ty) c) (bus_acts na acts)"
proof -
  from assms obtain r where r: "tracer_run na t acts = Inr r"
    using tracer_run_no_panic by (metis no_panic_iff)
  from tracer_bus.bus_run_inbox [of c t "bus_acts na acts"] show ?thesis
    by (cases r) (simp add: r tracer_run_bus [OF r] tracer_listeners_def)
qed

text \<open>C17: The only panic of the readers. Handling a perf record panics exactly when it is a
  request record whose declared payload, capped at 1024 bytes, runs past the array that holds the
  sample; in particular a record as the kernel writes it, with all 1024 bytes of payload behind
  the structure, never makes a reader panic.\<close>
theorem reader_panics_iff:
  "(reader_event na pt (Inr rec) = Inl p \<longleftrightarrow>
      p = SliceOutOfRange \<and> pt = perfMapTypeL7Events \<and> LostSamples rec = 0 \<and>
      (\<exists>v payload. RawSample rec = l7Event_bytes v @ payload \<and>
         length payload + length (Spare rec) < min MaxPayloadSize (unat (l7_PayloadSize v)))) \<and>
   (LostSamples rec = 0 \<and> RawSample rec = l7Event_bytes v @ payload \<and> length payload = MaxPayloadSize \<longrightarrow>
      reader_event na perfMapTypeL7Events (Inr rec) =
        Inr (Some (l7_event na v (take (unat (l7_PayloadSize v)) payload))))"
proof (intro conjI impI)
  have l7: "reader_event na 4 (Inr rec) = Inl p \<longleftrightarrow>
      p = SliceOutOfRange \<and> LostSamples rec = 0 \<and>
      (\<exists>v payload. RawSample rec = l7Event_bytes v @ payload \<and>
         length payload + length (Spare rec) < min MaxPayloadSize (unat (l7_PayloadSize v)))"
  proof (cases "read_l7Event (RawSample rec)")
    case None
    then have "RawSample rec \<noteq> l7Event_bytes v @ payload" for v payload
      by (metis option.distinct(1) read_l7Event_bytes)
    with None show ?thesis by (auto simp: reader_event_def)
  next
    case (Some w)
    then obtain v payload where w: "w = (v, payload)" and r: "RawSample rec = l7Event_bytes v @ payload"
      using bytes_read_l7Event by (cases w) auto
    have "RawSample rec = l7Event_bytes v' @ payload' \<longleftrightarrow> v' = v \<and> payload' = payload" for v' payload'
      by (metis r read_l7Event_bytes option.inject prod.inject)
    with Some w show ?thesis
      by (auto simp: reader_event_def go_bind_eq_Inl l7_payload_min reslice_Inl word_gt_0)
  qed
  have "pt \<noteq> 4 \<Longrightarrow> reader_event na pt (Inr rec) \<noteq> Inl p"
    by (simp add: reader_event_def)
  with l7 show "reader_event na pt (Inr rec) = Inl p \<longleftrightarrow>
      p = SliceOutOfRange \<and> pt = perfMapTypeL7Events \<and> LostSamples rec = 0 \<and>
      (\<exists>v payload. RawSample rec = l7Event_bytes v @ payload \<and>
         length payload + length (Spare rec) < min MaxPayloadSize (unat (l7_PayloadSize v)))"
    by (cases "pt = 4") auto
  assume "LostSamples rec = 0 \<and> RawSample rec = l7Event_bytes v @ payload \<and> length payload = MaxPayloadSize"
  then show "reader_event na perfMapTypeL7Events (Inr rec) =
        Inr (Some (l7_event na v (take (unat (l7_PayloadSize v)) payload)))"
    by (auto simp: reader_event_simps read_l7Event_bytes l7_payload_min reslice_def min_def)
qed

definition sample_l7 :: l7Event where
  "sample_l7 =
     \<lparr>l7_Fd = 7, l7_ConnectionTimestamp = 9, l7_Pid = 42, l7_Status = 200, l7_Duration = 1000,
      l7_Protocol = 1, l7_Method = 0, l7_Padding = 0, l7_StatementId = 0, l7_PayloadSize = 3\<rparr>"

lemma sample_l7_size: "unat (l7_PayloadSize sample_l7) = 3"
  by (simp add: sample_l7_def)

theorem reader_panics_iff_witness:
  "reader_event bytes_netaddr 4
     (Inr \<lparr>RawSample = l7Event_bytes sample_l7 @ replicate 1024 CHR ''x'', Spare = [], LostSamples = 0\<rparr>) =
   Inr (Some (l7_event bytes_netaddr sample_l7 (replicate 3 CHR ''x'')))"
  using reader_panics_iff [of bytes_netaddr 4
      "\<lparr>RawSample = l7Event_bytes sample_l7 @ replicate 1024 CHR ''x'', Spare = [], LostSamples = 0\<rparr>"
      SliceOutOfRange sample_l7 "replicate 1024 CHR ''x''"]
  by (simp add: sample_l7_size)

definition sample_tracer :: EBPFTracer where
  "sample_tracer = \<lparr>collection = 0, readers = Map.empty, links = [], uprobes = Map.empty,
     disableL7Tracing = False, subscribers = Map.empty\<rparr>"

definition sample_proc :: tracer_act where
  "sample_proc = Sample perfMapTypeProcEvents
     (Inr \<lparr>RawSample = procEvent_bytes \<lparr>proc_Type = 2, proc_Pid = 42, proc_Reason = 1\<rparr>,
           Spare = [], LostSamples = 0\<rparr>)"

lemma sample_proc_event:
  "bus_acts bytes_netaddr (sample_proc # acts) =
     Pub (proc_event bytes_netaddr \<lparr>proc_Type = 2, proc_Pid = 42, proc_Reason = 1\<rparr>)
       # bus_acts bytes_netaddr acts"
  using read_procEvent_bytes [of _ "[]"] by (simp add: sample_proc_def reader_event_simps)

lemma sample_proc_fits: "sample_fits sample_proc"
  using read_procEvent_bytes [of _ "[]"]
  by (simp add: sample_proc_def reader_event_no_panic [of _ _ bytes_netaddr] reader_event_simps)

theorem tracer_delivery_witness:
  "\<exists>ds t'. tracer_run bytes_netaddr sample_tracer
      [sample_proc, Subscribe 2 5, Subscribe 2 6, sample_proc, Subscribe 2 5, sample_proc] = Inr (ds, t') \<and>
    inbox 5 ds = replicate 3 (proc_event bytes_netaddr \<lparr>proc_Type = 2, proc_Pid = 42, proc_Reason = 1\<rparr>)"
  using tracer_delivery [of "[sample_proc, Subscribe 2 5, Subscribe 2 6, sample_proc, Subscribe 2 5, sample_proc]"
      bytes_netaddr sample_tracer 5]
  by (simp add: sample_proc_fits sample_proc_event)
    (simp add: sample_fits_def sample_tracer_def proc_event_def numeral_3_eq_3)

end
