(* ===== verification/Container.thy ===== *)
theory Container
imports Cgroup Sys_Net Container_Meta Tracer_Reader
begin

text \<open>
  \<open>pkg/container/container_provider.go\<close> and \<open>container.go\<close>: the containers the agent knows, the
  accounting of their connections, and the handler of the tracer's events that creates and
  forgets them.

  The maps of the context share the containers they point to: \<open>heap\<close> holds the containers in
  the order of their creation, and a pointer is a position in it. A connection is not
  changed after it is stored, so the two maps of a container that point to it hold copies. The
  host's connection tracker, which every container holds a pointer to, is part of the world
  outside; counters are kept as the 64 bits of the code's integers.
\<close>

section \<open>Containers\<close>

type_synonym PidFd = "u32 \<times> u64"

type_synonym 'ip AddrPair = "'ip IPPort \<times> 'ip IPPort"

record 'ip ActiveConnection =
  ac_Dest :: "'ip IPPort"
  ActualDest :: "'ip IPPort"
  ac_Pid :: u32
  ac_Fd :: u64
  ac_Timestamp :: u64
  ac_Closed :: "int option"      \<comment> \<open>\<open>None\<close> is the zero time; nothing sets it\<close>

record 'ip Container =
  ContainerID :: string
  Metadata :: "'ip ContainerMetadata"
  c_Cgroup :: Cgroup
  c_Pid :: u32
  connectionsByPidFd :: "PidFd \<rightharpoonup> 'ip ActiveConnection"
  connectsSuccessful :: "'ip AddrPair \<rightharpoonup> u64"
  connectsFailed :: "'ip IPPort \<rightharpoonup> u64"
  connectionsActive :: "'ip AddrPair \<rightharpoonup> 'ip ActiveConnection"
  connectLastAttempt :: "'ip IPPort \<rightharpoonup> int"

definition NewContainer :: "string \<Rightarrow> 'ip ContainerMetadata \<Rightarrow> Cgroup \<Rightarrow> u32 \<Rightarrow> 'ip Container" where
  "NewContainer containerID metadata cg pid =
     \<lparr>ContainerID = containerID, Metadata = metadata, c_Cgroup = cg, c_Pid = pid,
      connectionsByPidFd = Map.empty, connectsSuccessful = Map.empty, connectsFailed = Map.empty,
      connectionsActive = Map.empty, connectLastAttempt = Map.empty\<rparr>"

text \<open>\<open>m[k]++\<close> on a map of 64-bit counters.\<close>

definition count_up :: "('k \<rightharpoonup> u64) \<Rightarrow> 'k \<Rightarrow> ('k \<rightharpoonup> u64)" where
  "count_up m k = m(k \<mapsto> map_get 0 m k + 1)"

text \<open>
  A request only looks its connection up: both early returns and the end of the function leave
  the container as it is.
\<close>

definition OnL7Request :: "'ip Container \<Rightarrow> u32 \<Rightarrow> u64 \<Rightarrow> u64 \<Rightarrow> RequestData \<Rightarrow> 'ip Container" where
  "OnL7Request c pid fd timestamp r =
     (case connectionsByPidFd c (pid, fd) of
        None \<Rightarrow> c
      | Some conn \<Rightarrow> if timestamp \<noteq> 0 \<and> ac_Timestamp conn \<noteq> timestamp then c else c)"

definition getActualDestination ::
  "'ip netaddr_api \<Rightarrow> (bool \<Rightarrow> IPTuple \<Rightarrow> err + Con list) \<Rightarrow> 'ip IPPort \<Rightarrow> 'ip IPPort \<Rightarrow> 'ip IPPort option go" where
  "getActualDestination na get src dst =
     go_bind (GetActualDestination na get src dst) (\<lambda>actualDst.
       case actualDst of Some a \<Rightarrow> Inr (Some a) | None \<Rightarrow> Inr None)"

text \<open>\<open>now\<close> is \<open>time.Now()\<close>.\<close>

definition OnConnectionOpen ::
  "'ip netaddr_api \<Rightarrow> (bool \<Rightarrow> IPTuple \<Rightarrow> err + Con list) \<Rightarrow> int \<Rightarrow> 'ip Container \<Rightarrow>
   'ip IPPort \<Rightarrow> 'ip IPPort \<Rightarrow> u32 \<Rightarrow> u64 \<Rightarrow> u64 \<Rightarrow> bool \<Rightarrow> 'ip Container go" where
  "OnConnectionOpen na get now c srcAddr dstAddr pid fd timestamp isConnectError =
     (if na_IsLoopback na (fst dstAddr) then Inr c
      else
        go_bind (getActualDestination na get srcAddr dstAddr) (\<lambda>actual.
        let actualDst = (case actual of None \<Rightarrow> dstAddr | Some a \<Rightarrow> a);
            activeConnection = \<lparr>ac_Dest = dstAddr, ActualDest = actualDst, ac_Pid = pid, ac_Fd = fd,
                                ac_Timestamp = timestamp, ac_Closed = None\<rparr>;
            c = (if isConnectError
                 then c\<lparr>connectsFailed := count_up (connectsFailed c) dstAddr\<rparr>
                 else c\<lparr>connectionsActive := (connectionsActive c)((srcAddr, actualDst) \<mapsto> activeConnection),
                        connectionsByPidFd := (connectionsByPidFd c)((pid, fd) \<mapsto> activeConnection),
                        connectsSuccessful := count_up (connectsSuccessful c) (srcAddr, actualDst)\<rparr>)
        in Inr (c\<lparr>connectLastAttempt := (connectLastAttempt c)(dstAddr \<mapsto> now)\<rparr>)))"

section \<open>The clients\<close>

datatype client_kind = ContainerdClient | DockerdClient

text \<open>\<open>None\<close> is the nil provider.\<close>

definition NewContainerClientProvider :: "err + unit \<Rightarrow> err + unit \<Rightarrow> client_kind option" where
  "NewContainerClientProvider newContainerd newDockerd =
     (case newContainerd of
        Inr _ \<Rightarrow> Some ContainerdClient
      | Inl _ \<Rightarrow> (case newDockerd of Inr _ \<Rightarrow> Some DockerdClient | Inl _ \<Rightarrow> None))"

section \<open>The context\<close>

record 'ip ContainerContext =
  provider :: "client_kind option"
  containersById :: "string \<rightharpoonup> nat"
  containersByCgroupId :: "bytes \<rightharpoonup> nat"
  containersByPid :: "u32 \<rightharpoonup> nat option"     \<comment> \<open>\<open>Some None\<close>: an entry whose pointer is nil\<close>
  heap :: "'ip Container list"

text \<open>
  What the world outside answers while one event is handled: the files, the global control
  group, the container daemons, the kernel's connection tracking, the clock.
\<close>

record 'ip world =
  w_os :: os_api
  w_GlobalCgroup :: bytes
  w_Metadata :: "client_kind \<Rightarrow> string \<Rightarrow> (err + 'ip ContainerMetadata) go"
  w_conntrack :: "bool \<Rightarrow> IPTuple \<Rightarrow> err + Con list"
  w_now :: int

definition getContainerID :: "Cgroup \<Rightarrow> 'ip ContainerMetadata \<Rightarrow> string" where
  "getContainerID cg meta =
     (if ContainerType cg = ContainerTypeSystemdService then
        (if has_prefix (ContainerId cg) ''/system.slice/crio-conmon-'' then '''' else ContainerId cg)
      else if ContainerId cg = '''' then ''''
      else if ContainerType cg \<noteq> ContainerTypeDocker \<and> ContainerType cg \<noteq> ContainerTypeContainerd \<and>
              ContainerType cg \<noteq> ContainerTypeSandbox then ''''
      else if map_get '''' (md_Labels meta) KUBERNETES_LABEL_PODNAME \<noteq> '''' then
        let pod = map_get '''' (md_Labels meta) KUBERNETES_LABEL_PODNAME;
            namespace = map_get '''' (md_Labels meta) KUBERNETES_LABEL_NAMESPACE;
            name = map_get '''' (md_Labels meta) KUBERNETES_LABEL_CONTAINER_NAME;
            name = (if ContainerType cg = ContainerTypeSandbox then ''sandbox'' else name)
        in if name = '''' \<or> name = ''POD'' then ''''
           else ''/k8s/'' @ namespace @ ''/'' @ pod @ ''/'' @ name
      else '''')"

text \<open>
  The container returned to the caller is discarded by \<open>handleEvents\<close>, its only caller, so the
  model returns the context alone. Reading \<open>ctx.client\<close> with a nil provider panics. \<open>admit\<close> is
  what happens once the metadata is there.
\<close>

definition admit :: "'ip ContainerContext \<Rightarrow> u32 \<Rightarrow> Cgroup \<Rightarrow> 'ip ContainerMetadata \<Rightarrow> 'ip ContainerContext" where
  "admit ctx pid cg metadata =
     (let id = getContainerID cg metadata
      in if id = '''' then
           (if Id cg = ''/init.scope'' \<and> pid \<noteq> 1 then ctx
            else ctx\<lparr>containersByPid := (containersByPid ctx)(pid \<mapsto> None)\<rparr>)
         else
           let c = length (heap ctx)
           in ctx\<lparr>heap := heap ctx @ [NewContainer id metadata cg pid],
                  containersByPid := (containersByPid ctx)(pid \<mapsto> Some c),
                  containersByCgroupId := (containersByCgroupId ctx)(Id cg \<mapsto> c),
                  containersById := (containersById ctx)(id \<mapsto> c)\<rparr>)"

definition createContainer :: "'ip world \<Rightarrow> 'ip ContainerContext \<Rightarrow> u32 \<Rightarrow> 'ip ContainerContext go" where
  "createContainer w ctx pid =
     (case containersByPid ctx pid of
        Some _ \<Rightarrow> Inr ctx
      | None \<Rightarrow>
          (case ReadCgroupByPid (w_os w) (w_GlobalCgroup w) pid of
             Inl err \<Rightarrow> Inr ctx
           | Inr cg \<Rightarrow>
               (case containersByCgroupId ctx (Id cg) of
                  Some c \<Rightarrow> Inr (ctx\<lparr>containersByPid := (containersByPid ctx)(pid \<mapsto> Some c)\<rparr>)
                | None \<Rightarrow>
                    if ContainerType cg = ContainerTypeDocker \<or> ContainerType cg = ContainerTypeContainerd then
                      go_bind (deref (provider ctx)) (\<lambda>client.
                      go_bind (w_Metadata w client (ContainerId cg)) (\<lambda>r.
                        Inr (case r of Inl err \<Rightarrow> ctx | Inr metadata \<Rightarrow> admit ctx pid cg metadata)))
                    else Inr ctx)))"

text \<open>One event of the loop \<open>handleEvents\<close>. Every type not named is ignored.\<close>

definition handle_event :: "'ip netaddr_api \<Rightarrow> 'ip world \<Rightarrow> 'ip ContainerContext \<Rightarrow> 'ip Event \<Rightarrow> 'ip ContainerContext go" where
  "handle_event na w ctx event =
     (if Type event = EventTypeProcessStart then createContainer w ctx (Pid event)
      else if Type event = EventTypeProcessExit then
        (case containersByPid ctx (Pid event) of
           None \<Rightarrow> Inr ctx
         | Some p \<Rightarrow>
             go_bind (deref p) (\<lambda>c.
               Inr (ctx\<lparr>containersByCgroupId := map_delete (containersByCgroupId ctx) (Id (c_Cgroup (heap ctx ! c))),
                        containersById := map_delete (containersById ctx) (ContainerID (heap ctx ! c)),
                        containersByPid := map_delete (containersByPid ctx) (Pid event)\<rparr>)))
      else if Type event = EventTypeConnectionOpen then
        (case containersByPid ctx (Pid event) of
           Some (Some c) \<Rightarrow>
             go_bind (OnConnectionOpen na (w_conntrack w) (w_now w) (heap ctx ! c) (SrcAddr event)
                        (DstAddr event) (Pid event) (Fd event) (Timestamp event) False) (\<lambda>c'.
               Inr (ctx\<lparr>heap := (heap ctx)[c := c']\<rparr>))
         | _ \<Rightarrow> Inr ctx)
      else if Type event = EventTypeConnectionError then
        (case containersByPid ctx (Pid event) of
           Some (Some c) \<Rightarrow>
             go_bind (OnConnectionOpen na (w_conntrack w) (w_now w) (heap ctx ! c) (SrcAddr event)
                        (DstAddr event) (Pid event) (Fd event) 0 True) (\<lambda>c'.
               Inr (ctx\<lparr>heap := (heap ctx)[c := c']\<rparr>))
         | _ \<Rightarrow> Inr ctx)
      else if Type event = EventTypeL7Request then
        (case L7Request event of
           None \<Rightarrow> Inr ctx
         | Some r \<Rightarrow>
             (case containersByPid ctx (Pid event) of
                Some (Some c) \<Rightarrow>
                  Inr (ctx\<lparr>heap := (heap ctx)[c := OnL7Request (heap ctx ! c) (Pid event) (Fd event) (Timestamp event) r]\<rparr>)
              | _ \<Rightarrow> Inr ctx))
      else Inr ctx)"

text \<open>The loop, over the events of the channel, each with the world as it is then.\<close>

fun handleEvents :: "'ip netaddr_api \<Rightarrow> 'ip ContainerContext \<Rightarrow> ('ip world \<times> 'ip Event) list \<Rightarrow> 'ip ContainerContext go" where
  "handleEvents na ctx [] = Inr ctx"
| "handleEvents na ctx ((w, event) # es) =
     go_bind (handle_event na w ctx event) (\<lambda>ctx'. handleEvents na ctx' es)"

section \<open>Start\<close>

text \<open>Subscribing through a nil tracer panics on its lock.\<close>

definition ebpfEventSubscribe :: "EBPFTracer option \<Rightarrow> handle \<Rightarrow> EBPFTracer go" where
  "ebpfEventSubscribe tracer events =
     go_bind (deref tracer) (\<lambda>t.
       Inr (fold (\<lambda>ty t. SubscribeEvents t ty events)
              [EventTypeProcessStart, EventTypeProcessExit, EventTypeConnectionOpen,
               EventTypeConnectionClose, EventTypeConnectionError, EventTypeListenOpen,
               EventTypeListenClose, EventTypeFileOpen, EventTypeTCPRetransmit, EventTypeL7Request] t))"

text \<open>The events sent for the processes that already run.\<close>

definition initContainer :: "'ip netaddr_api \<Rightarrow> os_api \<Rightarrow> 'ip Event list" where
  "initContainer na os =
     (case GetAllPids os of
        Inl e \<Rightarrow> []
      | Inr pids \<Rightarrow> map (\<lambda>pid. (zero_Event na)\<lparr>Type := EventTypeProcessStart, Pid := pid\<rparr>) pids)"

definition empty_context :: "client_kind option \<Rightarrow> 'ip ContainerContext" where
  "empty_context p =
     \<lparr>provider = p, containersById = Map.empty, containersByCgroupId = Map.empty,
      containersByPid = Map.empty, heap = []\<rparr>"

end
