(* ===== verification/Container_Props.thy ===== *)
theory Container_Props
imports Container
begin

text \<open>
  The correctness of the container context: its invariant, what can make the event loop panic,
  the accounting of connections, and the abstract table of processes it implements.
\<close>

section \<open>The invariant\<close>

text \<open>
  A container the agent keeps is one of a pod, named by its labels; its connections are filed under
  their own process and descriptor, and under their own actual destination; loopback
  connections are not filed.
\<close>

definition container_ok :: "'ip netaddr_api \<Rightarrow> 'ip Container \<Rightarrow> bool" where
  "container_ok na c =
     (ContainerID c \<noteq> '''' \<and> ContainerID c = getContainerID (c_Cgroup c) (Metadata c) \<and>
      ContainerType (c_Cgroup c) \<in> {ContainerTypeDocker, ContainerTypeContainerd} \<and>
      (\<forall>pid fd a. connectionsByPidFd c (pid, fd) = Some a \<longrightarrow>
         ac_Pid a = pid \<and> ac_Fd a = fd \<and> \<not> na_IsLoopback na (fst (ac_Dest a))) \<and>
      (\<forall>src dst a. connectionsActive c (src, dst) = Some a \<longrightarrow>
         ActualDest a = dst \<and> \<not> na_IsLoopback na (fst (ac_Dest a))))"

text \<open>
  The maps point to containers with the keys they are under, and what the two tables by name hold
  belongs to a process that is still known: nothing leaks.
\<close>

definition live :: "'ip ContainerContext \<Rightarrow> nat \<Rightarrow> bool" where
  "live ctx c = (\<exists>pid. containersByPid ctx pid = Some (Some c))"

definition ctx_ok :: "'ip netaddr_api \<Rightarrow> 'ip ContainerContext \<Rightarrow> bool" where
  "ctx_ok na ctx =
     ((\<forall>c \<in> set (heap ctx). container_ok na c) \<and>
      (\<forall>pid c. containersByPid ctx pid = Some (Some c) \<longrightarrow> c < length (heap ctx)) \<and>
      (\<forall>i c. containersById ctx i = Some c \<longrightarrow> live ctx c \<and> ContainerID (heap ctx ! c) = i) \<and>
      (\<forall>k c. containersByCgroupId ctx k = Some c \<longrightarrow> live ctx c \<and> Id (c_Cgroup (heap ctx ! c)) = k))"

lemma ctx_okD:
  assumes "ctx_ok na ctx"
  shows "\<And>c. c < length (heap ctx) \<Longrightarrow> container_ok na (heap ctx ! c)"
    and "\<And>pid c. containersByPid ctx pid = Some (Some c) \<Longrightarrow> c < length (heap ctx)"
    and "\<And>i c. containersById ctx i = Some c \<Longrightarrow> live ctx c \<and> ContainerID (heap ctx ! c) = i"
    and "\<And>k c. containersByCgroupId ctx k = Some c \<Longrightarrow> live ctx c \<and> Id (c_Cgroup (heap ctx ! c)) = k"
  using assms by (auto simp: ctx_ok_def)

lemma live_bound: "ctx_ok na ctx \<Longrightarrow> live ctx c \<Longrightarrow> c < length (heap ctx)"
  by (auto simp: live_def ctx_okD)

lemma ctx_ok_empty: "ctx_ok na (empty_context p)"
  by (simp add: ctx_ok_def empty_context_def)

section \<open>The operations on one container\<close>

lemma OnL7Request_same [simp]: "OnL7Request c pid fd ts r = c"
  by (simp add: OnL7Request_def split: option.split)

text \<open>The destination a connection is filed under.\<close>

definition actual_dst ::
  "'ip netaddr_api \<Rightarrow> (bool \<Rightarrow> IPTuple \<Rightarrow> err + Con list) \<Rightarrow> 'ip IPPort \<Rightarrow> 'ip IPPort \<Rightarrow> 'ip IPPort" where
  "actual_dst na get src dst =
     (case GetActualDestination na get src dst of Inr (Some a) \<Rightarrow> a | _ \<Rightarrow> dst)"

lemma GetActualDestination_Inr: "\<exists>r. GetActualDestination na get src dst = Inr r"
  by (cases "get (na_Is6 na (fst dst)) (conntrack_query na src dst)")
    (simp_all add: GetActualDestination_def sessions_loop_eq [OF conntrack_query_valid])

definition conn_of :: "'ip IPPort \<Rightarrow> 'ip IPPort \<Rightarrow> u32 \<Rightarrow> u64 \<Rightarrow> u64 \<Rightarrow> 'ip ActiveConnection" where
  "conn_of dst actual pid fd ts =
     \<lparr>ac_Dest = dst, ActualDest = actual, ac_Pid = pid, ac_Fd = fd, ac_Timestamp = ts, ac_Closed = None\<rparr>"

definition opened ::
  "'ip netaddr_api \<Rightarrow> (bool \<Rightarrow> IPTuple \<Rightarrow> err + Con list) \<Rightarrow> int \<Rightarrow> 'ip Container \<Rightarrow>
   'ip IPPort \<Rightarrow> 'ip IPPort \<Rightarrow> u32 \<Rightarrow> u64 \<Rightarrow> u64 \<Rightarrow> bool \<Rightarrow> 'ip Container" where
  "opened na get now c src dst pid fd ts err =
     (if na_IsLoopback na (fst dst) then c
      else
        let a = actual_dst na get src dst;
            c = (if err then c\<lparr>connectsFailed := count_up (connectsFailed c) dst\<rparr>
                 else c\<lparr>connectionsActive := (connectionsActive c)((src, a) \<mapsto> conn_of dst a pid fd ts),
                        connectionsByPidFd := (connectionsByPidFd c)((pid, fd) \<mapsto> conn_of dst a pid fd ts),
                        connectsSuccessful := count_up (connectsSuccessful c) (src, a)\<rparr>)
        in c\<lparr>connectLastAttempt := (connectLastAttempt c)(dst \<mapsto> now)\<rparr>)"

lemma OnConnectionOpen_eq:
  "OnConnectionOpen na get now c src dst pid fd ts err = Inr (opened na get now c src dst pid fd ts err)"
proof -
  obtain r where "GetActualDestination na get src dst = Inr r" using GetActualDestination_Inr by blast
  then show ?thesis
    by (cases r)
      (simp_all add: OnConnectionOpen_def opened_def getActualDestination_def actual_dst_def
        conn_of_def Let_def)
qed

lemma opened_fixed [simp]:
  "ContainerID (opened na get now c src dst pid fd ts err) = ContainerID c"
  "Metadata (opened na get now c src dst pid fd ts err) = Metadata c"
  "c_Cgroup (opened na get now c src dst pid fd ts err) = c_Cgroup c"
  by (simp_all add: opened_def Let_def)

lemma opened_ok: "container_ok na c \<Longrightarrow> container_ok na (opened na get now c src dst pid fd ts err)"
  by (auto simp: container_ok_def opened_def conn_of_def Let_def)

lemma opened_counts:
  "map_get 0 (connectsFailed (opened na get now c src dst pid fd ts err)) d =
     map_get 0 (connectsFailed c) d + (if \<not> na_IsLoopback na (fst dst) \<and> err \<and> d = dst then 1 else 0)"
  "map_get 0 (connectsSuccessful (opened na get now c src dst pid fd ts err)) k =
     map_get 0 (connectsSuccessful c) k +
       (if \<not> na_IsLoopback na (fst dst) \<and> \<not> err \<and> k = (src, actual_dst na get src dst) then 1 else 0)"
  by (simp_all add: opened_def count_up_def Let_def)

section \<open>The steps\<close>

text \<open>The event loop, case by case, with what a step does written out.\<close>

inductive ctx_step :: "'ip netaddr_api \<Rightarrow> 'ip world \<Rightarrow> 'ip ContainerContext \<Rightarrow> 'ip Event \<Rightarrow> 'ip ContainerContext \<Rightarrow> bool"
  for na w ctx e where
  Ignore: "ctx_step na w ctx e ctx"
| Adopt: "Type e = 1 \<Longrightarrow> containersByPid ctx (Pid e) = None \<Longrightarrow>
    ReadCgroupByPid (w_os w) (w_GlobalCgroup w) (Pid e) = Inr cg \<Longrightarrow>
    containersByCgroupId ctx (Id cg) = Some c \<Longrightarrow>
    ctx_step na w ctx e (ctx\<lparr>containersByPid := (containersByPid ctx)(Pid e \<mapsto> Some c)\<rparr>)"
| Skip: "Type e = 1 \<Longrightarrow> containersByPid ctx (Pid e) = None \<Longrightarrow>
    ctx_step na w ctx e (ctx\<lparr>containersByPid := (containersByPid ctx)(Pid e \<mapsto> None)\<rparr>)"
| Create: "Type e = 1 \<Longrightarrow> containersByPid ctx (Pid e) = None \<Longrightarrow>
    ReadCgroupByPid (w_os w) (w_GlobalCgroup w) (Pid e) = Inr cg \<Longrightarrow>
    containersByCgroupId ctx (Id cg) = None \<Longrightarrow>
    ContainerType cg \<in> {ContainerTypeDocker, ContainerTypeContainerd} \<Longrightarrow>
    i = getContainerID cg m \<Longrightarrow> i \<noteq> '''' \<Longrightarrow> c = length (heap ctx) \<Longrightarrow>
    ctx_step na w ctx e
      (ctx\<lparr>heap := heap ctx @ [NewContainer i m cg (Pid e)],
           containersByPid := (containersByPid ctx)(Pid e \<mapsto> Some c),
           containersByCgroupId := (containersByCgroupId ctx)(Id cg \<mapsto> c),
           containersById := (containersById ctx)(i \<mapsto> c)\<rparr>)"
| Exit: "Type e = 2 \<Longrightarrow> containersByPid ctx (Pid e) = Some (Some c) \<Longrightarrow>
    ctx_step na w ctx e
      (ctx\<lparr>containersByCgroupId := map_delete (containersByCgroupId ctx) (Id (c_Cgroup (heap ctx ! c))),
           containersById := map_delete (containersById ctx) (ContainerID (heap ctx ! c)),
           containersByPid := map_delete (containersByPid ctx) (Pid e)\<rparr>)"
| Open: "Type e = 3 \<and> \<not> err \<and> ts = Timestamp e \<or> Type e = 5 \<and> err \<and> ts = 0 \<Longrightarrow>
    containersByPid ctx (Pid e) = Some (Some c) \<Longrightarrow>
    ctx_step na w ctx e
      (ctx\<lparr>heap := (heap ctx)[c := opened na (w_conntrack w) (w_now w) (heap ctx ! c) (SrcAddr e) (DstAddr e)
             (Pid e) (Fd e) ts err]\<rparr>)"


lemma admit_step:
  assumes "Type e = 1" and "containersByPid ctx (Pid e) = None"
    and "ReadCgroupByPid (w_os w) (w_GlobalCgroup w) (Pid e) = Inr cg"
    and "containersByCgroupId ctx (Id cg) = None"
    and "ContainerType cg \<in> {ContainerTypeDocker, ContainerTypeContainerd}"
  shows "ctx_step na w ctx e (admit ctx (Pid e) cg m)"
  unfolding admit_def Let_def
  using ctx_step.Ignore [of na w ctx e] ctx_step.Skip [OF assms(1,2), of na w]
    ctx_step.Create [OF assms refl _ refl, of m na] by simp

lemma createContainer_cases:
  assumes "createContainer w ctx pid = Inr ctx'"
  obtains "ctx' = ctx"
  | cg c where "containersByPid ctx pid = None" and "ReadCgroupByPid (w_os w) (w_GlobalCgroup w) pid = Inr cg"
      and "containersByCgroupId ctx (Id cg) = Some c"
      and "ctx' = ctx\<lparr>containersByPid := (containersByPid ctx)(pid \<mapsto> Some c)\<rparr>"
  | cg client m where "containersByPid ctx pid = None" and "ReadCgroupByPid (w_os w) (w_GlobalCgroup w) pid = Inr cg"
      and "containersByCgroupId ctx (Id cg) = None"
      and "ContainerType cg \<in> {ContainerTypeDocker, ContainerTypeContainerd}"
      and "provider ctx = Some client" and "w_Metadata w client (ContainerId cg) = Inr (Inr m)"
      and "ctx' = admit ctx pid cg m"
proof (cases "containersByPid ctx pid")
  case (Some x)
  with assms show ?thesis using that(1) by (simp add: createContainer_def)
next
  case None
  show ?thesis
  proof (cases "ReadCgroupByPid (w_os w) (w_GlobalCgroup w) pid")
    case (Inl x)
    with assms None show ?thesis using that(1) by (simp add: createContainer_def)
  next
    case (Inr cg)
    show ?thesis
    proof (cases "containersByCgroupId ctx (Id cg)")
      case (Some c)
      with assms None Inr show ?thesis using that(2) by (simp add: createContainer_def)
    next
      case none: None
      show ?thesis
      proof (cases "ContainerType cg = ContainerTypeDocker \<or> ContainerType cg = ContainerTypeContainerd")
        case False
        with assms None Inr none show ?thesis using that(1) by (simp add: createContainer_def)
      next
        case True
        with assms None Inr none obtain client r where p: "provider ctx = Some client"
          and r: "w_Metadata w client (ContainerId cg) = Inr r"
          and c: "ctx' = (case r of Inl err \<Rightarrow> ctx | Inr m \<Rightarrow> admit ctx pid cg m)"
          by (auto simp: createContainer_def deref_def go_bind_eq_Inr split: option.split_asm)
        show ?thesis
        proof (cases r)
          case (Inl e)
          with c show ?thesis using that(1) by simp
        next
          fix m assume "r = Inr m"
          with p r c True None Inr none show ?thesis using that(3) by simp
        qed
      qed
    qed
  qed
qed

lemma createContainer_step:
  assumes "Type e = 1" and "createContainer w ctx (Pid e) = Inr ctx'"
  shows "ctx_step na w ctx e ctx'"
  using assms(2)
proof (cases rule: createContainer_cases)
  case 1
  then show ?thesis by (simp add: ctx_step.Ignore)
next
  case (2 cg c)
  then show ?thesis using assms(1) by (simp add: ctx_step.Adopt)
next
  case (3 cg client m)
  then show ?thesis using admit_step [OF assms(1)] by simp
qed

lemma handle_event_step:
  assumes "handle_event na w ctx e = Inr ctx'"
  shows "ctx_step na w ctx e ctx'"
proof -
  consider "Type e = 1" | "Type e = 2" | "Type e = 3" | "Type e = 5"
    | "Type e \<noteq> 1" "Type e \<noteq> 2" "Type e \<noteq> 3" "Type e \<noteq> 5" by blast
  then show ?thesis
  proof cases
    case 1
    with assms show ?thesis by (simp add: handle_event_def createContainer_step)
  next
    case 2
    with assms show ?thesis
      by (auto simp: handle_event_def deref_def intro: ctx_step.Ignore ctx_step.Exit
          split: option.split_asm)
  next
    case 3
    with assms show ?thesis
      by (auto simp: handle_event_def OnConnectionOpen_eq intro: ctx_step.Ignore
          intro!: ctx_step.Open split: option.split_asm)
  next
    case 4
    with assms show ?thesis
      by (auto simp: handle_event_def OnConnectionOpen_eq intro: ctx_step.Ignore
          intro!: ctx_step.Open split: option.split_asm)
  next
    case 5
    with assms have "ctx' = ctx"
      by (auto simp: handle_event_def split: option.split_asm if_split_asm)
    then show ?thesis by (simp add: ctx_step.Ignore)
  qed
qed

section \<open>The invariant is kept\<close>

lemma nth_snoc [simp]: "(xs @ [x]) ! length xs = x"
  by simp

lemma ctx_ok_Adopt:
  assumes ok: "ctx_ok na ctx" and new: "containersByPid ctx pid = None" and c: "live ctx c"
  shows "ctx_ok na (ctx\<lparr>containersByPid := (containersByPid ctx)(pid \<mapsto> Some c)\<rparr>)"
proof -
  let ?ctx = "ctx\<lparr>containersByPid := (containersByPid ctx)(pid \<mapsto> Some c)\<rparr>"
  have l: "live ?ctx d" if "live ctx d" for d
    using that new by (auto simp: live_def) (metis option.distinct(1))
  then show ?thesis
    using ok live_bound [OF ok c] unfolding ctx_ok_def by auto
qed

lemma ctx_ok_Skip:
  assumes ok: "ctx_ok na ctx" and new: "containersByPid ctx pid = None"
  shows "ctx_ok na (ctx\<lparr>containersByPid := (containersByPid ctx)(pid \<mapsto> None)\<rparr>)"
proof -
  let ?ctx = "ctx\<lparr>containersByPid := (containersByPid ctx)(pid \<mapsto> None)\<rparr>"
  have l: "live ?ctx d" if "live ctx d" for d
    using that new by (auto simp: live_def) (metis option.distinct(1))
  then show ?thesis using ok unfolding ctx_ok_def by auto
qed

lemma container_ok_new:
  assumes "ContainerType cg \<in> {ContainerTypeDocker, ContainerTypeContainerd}" and "getContainerID cg m \<noteq> ''''"
  shows "container_ok na (NewContainer (getContainerID cg m) m cg pid)"
  using assms by (simp add: container_ok_def NewContainer_def)

lemma ctx_ok_Create:
  assumes ok: "ctx_ok na ctx" and new: "containersByPid ctx pid = None"
    and ty: "ContainerType cg \<in> {ContainerTypeDocker, ContainerTypeContainerd}"
    and i: "i = getContainerID cg m" "i \<noteq> ''''" and c: "c = length (heap ctx)"
  shows "ctx_ok na (ctx\<lparr>heap := heap ctx @ [NewContainer i m cg pid],
           containersByPid := (containersByPid ctx)(pid \<mapsto> Some c),
           containersByCgroupId := (containersByCgroupId ctx)(Id cg \<mapsto> c),
           containersById := (containersById ctx)(i \<mapsto> c)\<rparr>)" (is "ctx_ok na ?ctx")
proof -
  have l: "live ?ctx d" if "live ctx d" for d
    using that new by (auto simp: live_def) (metis option.distinct(1))
  have lc: "live ?ctx c" by (auto simp: live_def)
  have n: "heap ?ctx ! d = heap ctx ! d" if "live ctx d" for d
    using live_bound [OF ok that] by (simp add: nth_append)
  have nc: "heap ?ctx ! c = NewContainer i m cg pid" by (simp add: c)
  show ?thesis
    unfolding ctx_ok_def
  proof (intro conjI allI impI ballI)
    fix d assume "d \<in> set (heap ?ctx)"
    then show "container_ok na d"
      using ok container_ok_new [OF ty, of m] i by (auto simp: ctx_ok_def)
  next
    fix p d assume "containersByPid ?ctx p = Some (Some d)"
    then show "d < length (heap ?ctx)"
      using ctx_okD(2) [OF ok, of p d] by (auto simp: c split: if_splits)
  next
    fix k d assume d: "containersById ?ctx k = Some d"
    show "live ?ctx d" and "ContainerID (heap ?ctx ! d) = k"
      using d lc nc l n ctx_okD(3) [OF ok, of k d]
      by (auto simp: NewContainer_def split: if_splits simp del: nth_append_length)
  next
    fix k d assume d: "containersByCgroupId ?ctx k = Some d"
    show "live ?ctx d" and "Id (c_Cgroup (heap ?ctx ! d)) = k"
      using d lc nc l n ctx_okD(4) [OF ok, of k d]
      by (auto simp: NewContainer_def split: if_splits simp del: nth_append_length)
  qed
qed

lemma ctx_ok_Exit:
  assumes ok: "ctx_ok na ctx" and pid: "containersByPid ctx pid = Some (Some c)"
  shows "ctx_ok na
    (ctx\<lparr>containersByCgroupId := map_delete (containersByCgroupId ctx) (Id (c_Cgroup (heap ctx ! c))),
         containersById := map_delete (containersById ctx) (ContainerID (heap ctx ! c)),
         containersByPid := map_delete (containersByPid ctx) pid\<rparr>)" (is "ctx_ok na ?ctx")
proof -
  have l: "live ?ctx d" if d: "live ctx d" "d \<noteq> c" for d
  proof -
    from d(1) obtain p where p: "containersByPid ctx p = Some (Some d)" by (auto simp: live_def)
    with pid d(2) have "p \<noteq> pid" by auto
    with p show ?thesis by (auto simp: live_def)
  qed
  show ?thesis
    unfolding ctx_ok_def
  proof (intro conjI allI impI ballI)
    fix d assume "d \<in> set (heap ?ctx)"
    then show "container_ok na d" using ok by (auto simp: ctx_ok_def)
  next
    fix p d assume "containersByPid ?ctx p = Some (Some d)"
    then show "d < length (heap ?ctx)" using ctx_okD(2) [OF ok, of p d] by (auto split: if_splits)
  next
    fix k d assume d: "containersById ?ctx k = Some d"
    show "live ?ctx d" and "ContainerID (heap ?ctx ! d) = k"
      using d l ctx_okD(3) [OF ok, of k d] by (auto split: if_splits)
  next
    fix k d assume d: "containersByCgroupId ?ctx k = Some d"
    show "live ?ctx d" and "Id (c_Cgroup (heap ?ctx ! d)) = k"
      using d l ctx_okD(4) [OF ok, of k d] by (auto split: if_splits)
  qed
qed

lemma ctx_ok_heap_update:
  assumes ok: "ctx_ok na ctx" and c: "c < length (heap ctx)"
    and "container_ok na x" and "ContainerID x = ContainerID (heap ctx ! c)"
    and "c_Cgroup x = c_Cgroup (heap ctx ! c)"
  shows "ctx_ok na (ctx\<lparr>heap := (heap ctx)[c := x]\<rparr>)"
  using assms unfolding ctx_ok_def live_def
  by (auto simp: nth_list_update dest!: set_update_subset_insert [THEN subsetD])

lemma ctx_step_ok:
  assumes ok: "ctx_ok na ctx" and "ctx_step na w ctx e ctx'"
  shows "ctx_ok na ctx'"
  using assms(2)
proof (cases rule: ctx_step.cases)
  case Ignore
  with ok show ?thesis by simp
next
  case (Adopt cg c)
  with ok show ?thesis by (simp add: ctx_ok_Adopt ctx_okD(4))
next
  case Skip
  with ok show ?thesis by (simp add: ctx_ok_Skip)
next
  case (Create cg i m c)
  show ?thesis unfolding Create by (rule ctx_ok_Create [OF ok]) (use Create in simp_all)
next
  case (Exit c)
  with ok show ?thesis by (simp add: ctx_ok_Exit)
next
  case (Open err ts c)
  with ok show ?thesis
    by (simp add: ctx_ok_heap_update opened_ok ctx_okD(1) ctx_okD(2))
qed

lemma handleEvents_ok:
  "ctx_ok na ctx \<Longrightarrow> handleEvents na ctx es = Inr ctx' \<Longrightarrow> ctx_ok na ctx'"
proof (induction na ctx es rule: handleEvents.induct)
  case (1 na ctx)
  then show ?case by simp
next
  case (2 na ctx w e es)
  then obtain ctx1 where "handle_event na w ctx e = Inr ctx1" and "handleEvents na ctx1 es = Inr ctx'"
    by (auto simp: go_bind_eq_Inr)
  with 2 show ?case using ctx_step_ok handle_event_step by metis
qed

section \<open>A world with one container\<close>

text \<open>
  For the examples: every process is in the Docker container \<open>sample_id\<close>, which has the given
  labels; the kernel tracks no connections.
\<close>

definition sample_world :: "(string \<rightharpoonup> string) \<Rightarrow> bytes world" where
  "sample_world labels =
     \<lparr>w_os = \<lparr>os_Open = (\<lambda>_. None),
              os_ReadFile = (\<lambda>_. Inr (cgroup_text [(''0'', [''''], ''/docker/'' @ sample_id)])),
              os_Scan = (\<lambda>_. Inl ''ENOENT''), os_ReadDir = (\<lambda>_. Inr []), os_Readlink = (\<lambda>_. Inl ''ENOENT''), os_Stat = (\<lambda>_. None)\<rparr>,
      w_GlobalCgroup = '''',
      w_Metadata = (\<lambda>_ i. Inr (Inr (zero_Metadata\<lparr>md_ID := i, md_Labels := labels\<rparr>))),
      w_conntrack = (\<lambda>_ _. Inl ''ENOENT''), w_now = 0\<rparr>"

definition start_event :: "'ip netaddr_api \<Rightarrow> u32 \<Rightarrow> 'ip Event" where
  "start_event na pid = (zero_Event na)\<lparr>Type := EventTypeProcessStart, Pid := pid\<rparr>"

definition exit_event :: "'ip netaddr_api \<Rightarrow> u32 \<Rightarrow> 'ip Event" where
  "exit_event na pid = (zero_Event na)\<lparr>Type := EventTypeProcessExit, Pid := pid\<rparr>"

lemma event_types [simp]:
  "Type (start_event na pid) = 1" "Pid (start_event na pid) = pid"
  "Type (exit_event na pid) = 2" "Pid (exit_event na pid) = pid"
  by (simp_all add: start_event_def exit_event_def)

lemma sample_id_elem: "path_elem sample_id"
  by (simp add: path_elem_def sample_id_def numeral_eq_Suc)

lemma sample_path_join: "path_Join ['''', ''/docker/'' @ sample_id] = ''/docker/'' @ sample_id"
proof -
  have e: "\<forall>c \<in> set [''docker'', sample_id]. path_elem c" using sample_id_elem by (simp add: path_elem_def)
  have j: "''/docker/'' @ sample_id = CHR ''/'' # join_char (CHR ''/'') [''docker'', sample_id]" by simp
  have "path_Join ['''', ''/docker/'' @ sample_id] = path_Clean (''/docker/'' @ sample_id)"
    by (simp add: path_Join_def)
  then show ?thesis using path_Clean_elems [OF e] by (simp only: j)
qed

lemma sample_entry: "\<forall>e \<in> set [(''0'', [''''], ''/docker/'' @ sample_id)]. wf_entry e"
proof -
  have "CHR ''\<newline>'' \<notin> set sample_id" by (simp add: sample_id_def)
  then show ?thesis by (simp add: wf_entry_def)
qed

definition sample_cgroup :: Cgroup where
  "sample_cgroup =
     \<lparr>Id = ''/docker/'' @ sample_id, cg_Version = V2, ContainerType = ContainerTypeDocker,
      ContainerId = sample_id,
      subsystems = cgroup_subsystems '''' (cgroup_text [(''0'', [''''], ''/docker/'' @ sample_id)])\<rparr>"

lemma sample_read:
  "ReadCgroupByPid (w_os (sample_world l)) (w_GlobalCgroup (sample_world l)) pid = Inr sample_cgroup"
proof -
  let ?es = "[(''0'', [''''], ''/docker/'' @ sample_id)]"
  have c: "controller_path '''' ?es ''cpu'' = ''''" by (simp add: controller_path_def)
  have d: "controller_path '''' ?es '''' = ''/docker/'' @ sample_id"
    using sample_path_join by (simp add: controller_path_def)
  have t: "containerByCgroup (''/docker/'' @ sample_id) = Inr (ContainerTypeDocker, sample_id)"
    using docker_path_id [OF sample_id_wf, of "[]"] by (simp only: append_Nil2)
  show ?thesis
    unfolding ReadCgroupByPid_def ReadCgroupFromFile_def cgroup_of_data_def Let_def
    using cgroup_subsystems_text [OF sample_entry, of "''''"] c d t
    by (simp add: sample_world_def sample_cgroup_def del: append.simps)
qed

definition pod_labels :: "string \<rightharpoonup> string" where
  "pod_labels = [KUBERNETES_LABEL_PODNAME \<mapsto> ''web-0'', KUBERNETES_LABEL_NAMESPACE \<mapsto> ''shop'',
     KUBERNETES_LABEL_CONTAINER_NAME \<mapsto> ''nginx'']"

lemma sample_id_not_empty [simp]: "sample_id \<noteq> ''''"
  by (simp add: sample_id_def)

lemma sample_cgroup_fields:
  "ContainerType sample_cgroup = ContainerTypeDocker" "ContainerId sample_cgroup = sample_id"
  "Id sample_cgroup \<noteq> ''/init.scope''"
  by (simp_all add: sample_cgroup_def)

lemma sample_metadata:
  "w_Metadata (sample_world l) k i = Inr (Inr (zero_Metadata\<lparr>md_ID := i, md_Labels := l\<rparr>))"
  by (simp add: sample_world_def)

lemma pod_container_id:
  "getContainerID sample_cgroup (zero_Metadata\<lparr>md_ID := i, md_Labels := pod_labels\<rparr>) = ''/k8s/shop/web-0/nginx''"
  by (simp add: getContainerID_def sample_cgroup_def pod_labels_def KUBERNETES_LABEL_PODNAME_def
      KUBERNETES_LABEL_NAMESPACE_def KUBERNETES_LABEL_CONTAINER_NAME_def Let_def)

lemma plain_container_id:
  "getContainerID sample_cgroup (zero_Metadata\<lparr>md_ID := i, md_Labels := Map.empty\<rparr>) = ''''"
  by (simp add: getContainerID_def sample_cgroup_def)

lemma sample_create:
  assumes "containersByPid ctx pid = None" and "containersByCgroupId ctx (Id sample_cgroup) = None"
    and "provider ctx = Some client"
  shows "createContainer (sample_world l) ctx pid =
    Inr (admit ctx pid sample_cgroup (zero_Metadata\<lparr>md_ID := sample_id, md_Labels := l\<rparr>))"
  using assms by (simp add: createContainer_def sample_read deref_def sample_metadata sample_cgroup_fields)

section \<open>Properties\<close>

text \<open>C18: The tables stay consistent. Whatever the events and whatever the world answers, as long as
  the loop runs: every container kept is a pod's, Docker's or containerd's, under the name its
  labels give; each map points to existing containers under their own keys; connections
  are filed under their own process, descriptor and destination; and the tables by name
  and by control group only hold containers of processes still known, so nothing leaks.\<close>
theorem context_consistent:
  assumes "handleEvents na (empty_context p) es = Inr ctx"
  shows "ctx_ok na ctx"
  using handleEvents_ok [OF ctx_ok_empty assms] .

theorem context_consistent_witness:
  "\<exists>ctx. handleEvents bytes_netaddr (empty_context (Some DockerdClient))
      [(sample_world pod_labels, start_event bytes_netaddr 42)] = Inr ctx \<and>
    containersByPid ctx 42 = Some (Some 0) \<and> ctx_ok bytes_netaddr ctx"
proof -
  let ?m = "zero_Metadata\<lparr>md_ID := sample_id, md_Labels := pod_labels\<rparr> :: bytes ContainerMetadata"
  let ?ctx = "admit (empty_context (Some DockerdClient)) 42 sample_cgroup ?m"
  have r: "handleEvents bytes_netaddr (empty_context (Some DockerdClient))
      [(sample_world pod_labels, start_event bytes_netaddr 42)] = Inr ?ctx"
    by (simp add: handle_event_def sample_create empty_context_def)
  have "containersByPid ?ctx 42 = Some (Some 0)"
    by (simp add: admit_def Let_def pod_container_id empty_context_def)
  with r context_consistent [OF r] show ?thesis by blast
qed

text \<open>C19: What can crash the agent. Handling an event panics in just two situations: a process exits
  whose entry holds the nil pointer that marks a container the agent ignores; or a process
  of a new Docker or containerd control group starts while there is no container client, or
  while the client itself panics. Connections, requests and all other events never do.\<close>
theorem context_panics_iff:
  "handle_event na w ctx e = Inl p \<longleftrightarrow>
     Type e = EventTypeProcessExit \<and> containersByPid ctx (Pid e) = Some None \<and> p = NilDereference \<or>
     Type e = EventTypeProcessStart \<and> containersByPid ctx (Pid e) = None \<and>
       (\<exists>cg. ReadCgroupByPid (w_os w) (w_GlobalCgroup w) (Pid e) = Inr cg \<and>
          containersByCgroupId ctx (Id cg) = None \<and>
          (ContainerType cg = ContainerTypeDocker \<or> ContainerType cg = ContainerTypeContainerd) \<and>
          (case provider ctx of None \<Rightarrow> p = NilDereference
           | Some client \<Rightarrow> w_Metadata w client (ContainerId cg) = Inl p))"
proof -
  have create: "createContainer w ctx pid = Inl p \<longleftrightarrow> containersByPid ctx pid = None \<and>
       (\<exists>cg. ReadCgroupByPid (w_os w) (w_GlobalCgroup w) pid = Inr cg \<and>
          containersByCgroupId ctx (Id cg) = None \<and>
          (ContainerType cg = ContainerTypeDocker \<or> ContainerType cg = ContainerTypeContainerd) \<and>
          (case provider ctx of None \<Rightarrow> p = NilDereference
           | Some client \<Rightarrow> w_Metadata w client (ContainerId cg) = Inl p))" for pid
    by (cases "provider ctx")
      (auto simp: createContainer_def deref_def go_bind_eq_Inl split: option.split sum.split)
  show ?thesis
    by (auto simp: handle_event_def create OnConnectionOpen_eq deref_def split: option.split)
qed

text \<open>A container the agent ignores crashes it. When the first process of a new Docker or containerd
  control group starts, and the container carries no pod label (any container outside
  Kubernetes), the agent records a nil entry for the process; when that process exits, the
  handler dereferences the entry and the agent panics.\<close>
theorem ignored_container_exit_panics:
  assumes "containersByPid ctx pid = None" and "provider ctx = Some client"
    and "ReadCgroupByPid (w_os w) (w_GlobalCgroup w) pid = Inr cg"
    and "containersByCgroupId ctx (Id cg) = None" and "Id cg \<noteq> ''/init.scope''"
    and "ContainerType cg = ContainerTypeDocker \<or> ContainerType cg = ContainerTypeContainerd"
    and "w_Metadata w client (ContainerId cg) = Inr (Inr m)"
    and "map_get '''' (md_Labels m) KUBERNETES_LABEL_PODNAME = ''''"
  shows "handleEvents na ctx [(w, start_event na pid), (w', exit_event na pid)] = Inl NilDereference"
proof -
  have "getContainerID cg m = ''''" using assms(6,8) by (auto simp: getContainerID_def)
  with assms show ?thesis
    by (simp add: handle_event_def createContainer_def deref_def admit_def)
qed

theorem ignored_container_exit_panics_witness:
  "handleEvents bytes_netaddr (empty_context (Some DockerdClient))
     [(sample_world Map.empty, start_event bytes_netaddr 42), (sample_world Map.empty, exit_event bytes_netaddr 42)] =
   Inl NilDereference"
  by (rule ignored_container_exit_panics [of _ _ DockerdClient _ sample_cgroup
        "zero_Metadata\<lparr>md_ID := sample_id, md_Labels := Map.empty\<rparr>"])
    (simp_all add: sample_read empty_context_def sample_metadata sample_cgroup_fields zero_Metadata_def)

text \<open>The exit of one process splits its container in two. Of two known processes of a container
  one exits and a third one of the same control group starts: although the container still
  runs, a second object for it, with the same name, is created for the newcomer, while the
  surviving process keeps the first; from then on the container's connections are counted in
  two places.\<close>
theorem sibling_exit_splits_container:
  assumes "ctx_ok na ctx" and "pid \<noteq> sib" and "new \<noteq> pid"
    and "containersByPid ctx pid = Some (Some c)" and "containersByPid ctx sib = Some (Some c)"
    and "containersByPid ctx new = None" and "provider ctx = Some client"
    and "ReadCgroupByPid (w_os w) (w_GlobalCgroup w) new = Inr (c_Cgroup (heap ctx ! c))"
    and "w_Metadata w client (ContainerId (c_Cgroup (heap ctx ! c))) = Inr (Inr (Metadata (heap ctx ! c)))"
  shows "\<exists>ctx' c'. handleEvents na ctx [(w', exit_event na pid), (w, start_event na new)] = Inr ctx' \<and>
    containersByPid ctx' sib = Some (Some c) \<and> containersByPid ctx' new = Some (Some c') \<and> c' \<noteq> c \<and>
    ContainerID (heap ctx' ! c') = ContainerID (heap ctx' ! c) \<and>
    c_Cgroup (heap ctx' ! c') = c_Cgroup (heap ctx' ! c)"
proof -
  let ?k = "heap ctx ! c"
  have c: "c < length (heap ctx)" using ctx_okD(2) [OF assms(1,4)] .
  have k: "container_ok na ?k" using ctx_okD(1) [OF assms(1) c] .
  define ctx1 where "ctx1 = ctx
    \<lparr>containersByCgroupId := map_delete (containersByCgroupId ctx) (Id (c_Cgroup ?k)),
     containersById := map_delete (containersById ctx) (ContainerID ?k),
     containersByPid := map_delete (containersByPid ctx) pid\<rparr>"
  have exit: "handle_event na w' ctx (exit_event na pid) = Inr ctx1"
    using assms(4) by (simp add: handle_event_def deref_def ctx1_def)
  have "containersByPid ctx1 new = None" "containersByCgroupId ctx1 (Id (c_Cgroup ?k)) = None"
    "provider ctx1 = Some client"
    using assms(6,7) by (simp_all add: ctx1_def)
  moreover have "ContainerType (c_Cgroup ?k) = ContainerTypeDocker \<or> ContainerType (c_Cgroup ?k) = ContainerTypeContainerd"
    using k by (auto simp: container_ok_def)
  ultimately have "createContainer w ctx1 new = Inr (admit ctx1 new (c_Cgroup ?k) (Metadata ?k))"
    using assms(8,9) by (simp add: createContainer_def deref_def)
  then have start: "handle_event na w ctx1 (start_event na new) = Inr (admit ctx1 new (c_Cgroup ?k) (Metadata ?k))"
    by (simp add: handle_event_def)
  have i: "getContainerID (c_Cgroup ?k) (Metadata ?k) = ContainerID ?k" "ContainerID ?k \<noteq> ''''"
    using k by (auto simp: container_ok_def)
  have "new \<noteq> sib" using assms(5,6) by auto
  with assms(2,5) i c exit start show ?thesis
    by (auto simp: admit_def ctx1_def NewContainer_def nth_append Let_def)
qed

abbreviation (input) pod_world :: "bytes world" where
  "pod_world \<equiv> sample_world pod_labels"

definition pod_container :: "bytes Container" where
  "pod_container = NewContainer ''/k8s/shop/web-0/nginx''
     (zero_Metadata\<lparr>md_ID := sample_id, md_Labels := pod_labels\<rparr>) sample_cgroup 7"

definition two_processes :: "bytes ContainerContext" where
  "two_processes =
     \<lparr>provider = Some DockerdClient, containersById = [''/k8s/shop/web-0/nginx'' \<mapsto> 0],
      containersByCgroupId = [Id sample_cgroup \<mapsto> 0],
      containersByPid = [7 \<mapsto> Some 0, 8 \<mapsto> Some 0], heap = [pod_container]\<rparr>"

lemma two_processes_run:
  "handleEvents bytes_netaddr (empty_context (Some DockerdClient))
     [(pod_world, start_event bytes_netaddr 7), (pod_world, start_event bytes_netaddr 8)] = Inr two_processes"
proof -
  let ?ctx = "admit (empty_context (Some DockerdClient)) 7 sample_cgroup
    (zero_Metadata\<lparr>md_ID := sample_id, md_Labels := pod_labels\<rparr>) :: bytes ContainerContext"
  have a: "?ctx = \<lparr>provider = Some DockerdClient, containersById = [''/k8s/shop/web-0/nginx'' \<mapsto> 0],
      containersByCgroupId = [Id sample_cgroup \<mapsto> 0], containersByPid = [7 \<mapsto> Some 0], heap = [pod_container]\<rparr>"
    unfolding admit_def Let_def pod_container_id by (simp add: empty_context_def pod_container_def)
  have "handle_event bytes_netaddr pod_world (empty_context (Some DockerdClient)) (start_event bytes_netaddr 7) = Inr ?ctx"
    by (simp add: handle_event_def sample_create empty_context_def)
  moreover have "handle_event bytes_netaddr pod_world ?ctx (start_event bytes_netaddr 8) = Inr two_processes"
    unfolding a
    by (simp add: handle_event_def createContainer_def sample_read two_processes_def fun_upd_twist)
  ultimately show ?thesis by simp
qed

theorem sibling_exit_splits_container_witness:
  "\<exists>ctx' c'. handleEvents bytes_netaddr two_processes
      [(pod_world, exit_event bytes_netaddr 7), (pod_world, start_event bytes_netaddr 9)] = Inr ctx' \<and>
    containersByPid ctx' 8 = Some (Some 0) \<and> containersByPid ctx' 9 = Some (Some c') \<and> c' \<noteq> 0 \<and>
    ContainerID (heap ctx' ! c') = ContainerID (heap ctx' ! 0) \<and>
    c_Cgroup (heap ctx' ! c') = c_Cgroup (heap ctx' ! 0)"
  by (rule sibling_exit_splits_container [OF handleEvents_ok [OF ctx_ok_empty two_processes_run],
        of 7 8 9 0 DockerdClient])
    (simp_all add: two_processes_def pod_container_def NewContainer_def sample_read sample_metadata
      sample_cgroup_fields)

section \<open>Accounting\<close>

text \<open>
  The connections a run accounts to containers: container, whether the attempt failed, source, and
  the destination it is filed under.
\<close>

definition conn_entry ::
  "'ip netaddr_api \<Rightarrow> 'ip world \<Rightarrow> 'ip ContainerContext \<Rightarrow> 'ip Event \<Rightarrow>
   (nat \<times> bool \<times> 'ip IPPort \<times> 'ip IPPort) list" where
  "conn_entry na w ctx e =
     (case containersByPid ctx (Pid e) of
        Some (Some c) \<Rightarrow>
          if na_IsLoopback na (fst (DstAddr e)) then []
          else if Type e = EventTypeConnectionOpen
          then [(c, False, SrcAddr e, actual_dst na (w_conntrack w) (SrcAddr e) (DstAddr e))]
          else if Type e = EventTypeConnectionError then [(c, True, SrcAddr e, DstAddr e)]
          else []
      | _ \<Rightarrow> [])"

fun conn_log ::
  "'ip netaddr_api \<Rightarrow> 'ip ContainerContext \<Rightarrow> ('ip world \<times> 'ip Event) list \<Rightarrow>
   (nat \<times> bool \<times> 'ip IPPort \<times> 'ip IPPort) list" where
  "conn_log na ctx [] = []"
| "conn_log na ctx ((w, e) # es) =
     conn_entry na w ctx e @
       (case handle_event na w ctx e of Inl p \<Rightarrow> [] | Inr ctx' \<Rightarrow> conn_log na ctx' es)"

definition successes :: "'ip ContainerContext \<Rightarrow> nat \<Rightarrow> 'ip IPPort \<times> 'ip IPPort \<Rightarrow> u64" where
  "successes ctx c k = (if c < length (heap ctx) then map_get 0 (connectsSuccessful (heap ctx ! c)) k else 0)"

definition failures :: "'ip ContainerContext \<Rightarrow> nat \<Rightarrow> 'ip IPPort \<Rightarrow> u64" where
  "failures ctx c d = (if c < length (heap ctx) then map_get 0 (connectsFailed (heap ctx ! c)) d else 0)"

definition logged :: "(nat \<times> bool \<times> 'ip IPPort \<times> 'ip IPPort) list \<Rightarrow> (nat \<times> bool \<times> 'ip IPPort \<times> 'ip IPPort \<Rightarrow> bool) \<Rightarrow> u64" where
  "logged l P = of_nat (length (filter P l))"

lemma logged_append: "logged (l @ m) P = logged l P + logged m P"
  by (simp add: logged_def)

lemma counters_admit:
  "successes (admit ctx pid cg m) c k = successes ctx c k" "failures (admit ctx pid cg m) c d = failures ctx c d"
  by (auto simp: admit_def Let_def successes_def failures_def NewContainer_def nth_append less_Suc_eq)

lemma counters_same_heap:
  "heap ctx' = heap ctx \<Longrightarrow> successes ctx' c k = successes ctx c k \<and> failures ctx' c d = failures ctx c d"
  by (simp add: successes_def failures_def)

lemma createContainer_counters:
  "createContainer w ctx pid = Inr ctx' \<Longrightarrow> successes ctx' c k = successes ctx c k \<and> failures ctx' c d = failures ctx c d"
  by (erule createContainer_cases) (simp_all add: counters_admit, simp add: successes_def failures_def)

lemma opened_counters:
  assumes "r < length (heap ctx)"
  shows "successes (ctx\<lparr>heap := (heap ctx)[r := opened na get now (heap ctx ! r) src dst pid fd ts err]\<rparr>) c k =
      successes ctx c k + (if c = r \<and> \<not> na_IsLoopback na (fst dst) \<and> \<not> err \<and> k = (src, actual_dst na get src dst) then 1 else 0)"
    and "failures (ctx\<lparr>heap := (heap ctx)[r := opened na get now (heap ctx ! r) src dst pid fd ts err]\<rparr>) c d =
      failures ctx c d + (if c = r \<and> \<not> na_IsLoopback na (fst dst) \<and> err \<and> d = dst then 1 else 0)"
  using assms by (auto simp: successes_def failures_def nth_list_update opened_counts)

lemma handle_event_counters:
  assumes ok: "ctx_ok na ctx" and h: "handle_event na w ctx e = Inr ctx'"
  shows "successes ctx' c (s, d) = successes ctx c (s, d) + logged (conn_entry na w ctx e) (\<lambda>x. x = (c, False, s, d))"
    and "failures ctx' c d = failures ctx c d +
      logged (conn_entry na w ctx e) (\<lambda>x. fst x = c \<and> fst (snd x) \<and> snd (snd (snd x)) = d)"
proof -
  consider "Type e = 1" | "Type e = 2" | "Type e = 3" | "Type e = 5"
    | "Type e \<noteq> 1" "Type e \<noteq> 2" "Type e \<noteq> 3" "Type e \<noteq> 5" by blast
  then have "successes ctx' c (s, d) = successes ctx c (s, d) + logged (conn_entry na w ctx e) (\<lambda>x. x = (c, False, s, d)) \<and>
    failures ctx' c d = failures ctx c d +
      logged (conn_entry na w ctx e) (\<lambda>x. fst x = c \<and> fst (snd x) \<and> snd (snd (snd x)) = d)"
  proof cases
    case 1
    then have "createContainer w ctx (Pid e) = Inr ctx'" using h by (simp add: handle_event_def)
    from createContainer_counters [OF this] 1 show ?thesis
      by (simp add: conn_entry_def logged_def split: option.split)
  next
    case 2
    then have "heap ctx' = heap ctx" using h by (auto simp: handle_event_def deref_def split: option.split_asm)
    from counters_same_heap [OF this] 2 show ?thesis
      by (simp add: conn_entry_def logged_def split: option.split)
  next
    case 3
    with h ok show ?thesis
      by (auto simp: handle_event_def OnConnectionOpen_eq conn_entry_def logged_def opened_counters
          ctx_okD(2) split: option.split_asm)
  next
    case 4
    with h ok show ?thesis
      by (auto simp: handle_event_def OnConnectionOpen_eq conn_entry_def logged_def opened_counters
          ctx_okD(2) split: option.split_asm)
  next
    case 5
    then have "ctx' = ctx" using h by (auto simp: handle_event_def split: option.split_asm if_split_asm)
    with 5 show ?thesis by (simp add: conn_entry_def logged_def split: option.split)
  qed
  then show "successes ctx' c (s, d) = successes ctx c (s, d) + logged (conn_entry na w ctx e) (\<lambda>x. x = (c, False, s, d))"
    and "failures ctx' c d = failures ctx c d +
      logged (conn_entry na w ctx e) (\<lambda>x. fst x = c \<and> fst (snd x) \<and> snd (snd (snd x)) = d)" by blast+
qed

lemma handleEvents_counters:
  assumes "ctx_ok na ctx" and "handleEvents na ctx es = Inr ctx'"
  shows "successes ctx' c (src, dst) =
      successes ctx c (src, dst) + logged (conn_log na ctx es) (\<lambda>x. x = (c, False, src, dst)) \<and>
    failures ctx' c dst =
      failures ctx c dst +
        logged (conn_log na ctx es) (\<lambda>x. fst x = c \<and> fst (snd x) \<and> snd (snd (snd x)) = dst)"
  using assms
proof (induction na ctx es rule: handleEvents.induct)
  case (1 na ctx)
  then show ?case by (simp add: logged_def)
next
  case (2 na ctx w e es)
  then obtain ctx1 where h: "handle_event na w ctx e = Inr ctx1" and r: "handleEvents na ctx1 es = Inr ctx'"
    by (auto simp: go_bind_eq_Inr)
  have "ctx_ok na ctx1" by (rule ctx_step_ok [OF 2(2) handle_event_step [OF h]])
  from 2(1) [OF h this r] show ?case
    by (simp add: h handle_event_counters [OF 2(2) h] logged_append)
qed

text \<open>Connections are counted exactly. Over any run, the successful connections a container
  counts for a source and an actual destination grow by the number of connections its own
  processes opened between the two, and its failed ones for a destination by the number of its
  own failed attempts there; loopback destinations are not counted, the events of other
  processes change nothing, and neither does any other event. (Counters are 64-bit.)\<close>
theorem connection_accounting:
  assumes "ctx_ok na ctx" and "handleEvents na ctx es = Inr ctx'"
  shows "successes ctx' c (src, dst) =
      successes ctx c (src, dst) + logged (conn_log na ctx es) (\<lambda>x. x = (c, False, src, dst)) \<and>
    failures ctx' c dst =
      failures ctx c dst +
        logged (conn_log na ctx es) (\<lambda>x. fst x = c \<and> fst (snd x) \<and> snd (snd (snd x)) = dst)"
  by (rule handleEvents_counters [OF assms])

definition sample_open :: "bytes Event" where
  "sample_open = (zero_Event bytes_netaddr)
     \<lparr>Type := EventTypeConnectionOpen, Pid := 8, Fd := 5,
      SrcAddr := (map byte_of [10, 0, 0, 7], 4000), DstAddr := (map byte_of [10, 0, 0, 9], 443)\<rparr>"

lemma sample_open_fields:
  "Type sample_open = 3" "Pid sample_open = 8" "SrcAddr sample_open = (map byte_of [10, 0, 0, 7], 4000)"
  "DstAddr sample_open = (map byte_of [10, 0, 0, 9], 443)"
  by (simp_all add: sample_open_def)

lemma sample_open_not_loopback: "\<not> na_IsLoopback bytes_netaddr (byte_of 10 # x)"
proof -
  have "byte_val (byte_of 10) \<noteq> byte_val (byte_of 127)" by simp
  then have "byte_of 10 \<noteq> byte_of 127" by metis
  then show ?thesis by (simp add: bytes_netaddr_def)
qed

lemma sample_conntrack: "actual_dst na (w_conntrack (sample_world l)) src dst = dst"
  by (simp add: actual_dst_def GetActualDestination_def sample_world_def)

theorem connection_accounting_witness:
  "\<exists>ctx'. handleEvents bytes_netaddr two_processes [(pod_world, sample_open), (pod_world, sample_open)] = Inr ctx' \<and>
    successes ctx' 0 ((map byte_of [10, 0, 0, 7], 4000), (map byte_of [10, 0, 0, 9], 443)) = 2"
proof -
  let ?s = "(map byte_of [10, 0, 0, 7], 4000) :: bytes IPPort"
  let ?d = "(map byte_of [10, 0, 0, 9], 443) :: bytes IPPort"
  have ok: "ctx_ok bytes_netaddr two_processes" by (rule handleEvents_ok [OF ctx_ok_empty two_processes_run])
  have step: "\<exists>ctx'. handle_event bytes_netaddr pod_world ctx sample_open = Inr ctx' \<and> containersByPid ctx' 8 = Some (Some 0)"
    if "containersByPid ctx 8 = Some (Some 0)" for ctx
    using that by (simp add: handle_event_def sample_open_fields OnConnectionOpen_eq)
  have pid: "containersByPid two_processes 8 = Some (Some 0)" by (simp add: two_processes_def)
  obtain ctx1 where c1: "handle_event bytes_netaddr pod_world two_processes sample_open = Inr ctx1"
    and p1: "containersByPid ctx1 8 = Some (Some 0)" using step [OF pid] by blast
  obtain ctx2 where c2: "handle_event bytes_netaddr pod_world ctx1 sample_open = Inr ctx2"
    using step [OF p1] by blast
  have e: "conn_entry bytes_netaddr pod_world ctx sample_open = [(0, False, ?s, ?d)]"
    if "containersByPid ctx 8 = Some (Some 0)" for ctx
    using that by (simp add: conn_entry_def sample_open_fields sample_open_not_loopback sample_conntrack)
  have run: "handleEvents bytes_netaddr two_processes [(pod_world, sample_open), (pod_world, sample_open)] = Inr ctx2"
    by (simp add: c1 c2)
  have "successes two_processes 0 (?s, ?d) = 0"
    by (simp add: successes_def two_processes_def pod_container_def NewContainer_def)
  with connection_accounting [OF ok run, of 0 ?s ?d] run show ?thesis
    by (simp add: c1 c2 e [OF pid] e [OF p1] logged_def)
qed

section \<open>The abstract table of processes\<close>

text \<open>
  What the context keeps, without the containers: for each process it has decided about, the
  control group whose container it belongs to or \<open>None\<close> when it is ignored, and the control
  groups under which a container can be joined.
\<close>

type_synonym proc_table = "(u32 \<rightharpoonup> bytes option) \<times> bytes set"

definition abs_ctx :: "'ip ContainerContext \<Rightarrow> proc_table" where
  "abs_ctx ctx =
     (\<lambda>pid. map_option (map_option (\<lambda>c. Id (c_Cgroup (heap ctx ! c)))) (containersByPid ctx pid),
      dom (containersByCgroupId ctx))"

text \<open>
  What the world says of a process that starts: nothing to record, ignored, or in the container of a
  control group.
\<close>

datatype verdict = Unseen | Ignored | Monitored

definition judge :: "client_kind option \<Rightarrow> 'ip world \<Rightarrow> u32 \<Rightarrow> Cgroup \<Rightarrow> verdict" where
  "judge p w pid cg =
     (if ContainerType cg \<notin> {ContainerTypeDocker, ContainerTypeContainerd} then Unseen
      else case w_Metadata w (the p) (ContainerId cg) of
        Inr (Inr m) \<Rightarrow>
          if getContainerID cg m \<noteq> '''' then Monitored
          else if Id cg = ''/init.scope'' \<and> pid \<noteq> 1 then Unseen else Ignored
      | _ \<Rightarrow> Unseen)"

definition spec_event :: "client_kind option \<Rightarrow> 'ip world \<Rightarrow> proc_table \<Rightarrow> 'ip Event \<Rightarrow> proc_table" where
  "spec_event p w tbl e =
     (case tbl of (procs, groups) \<Rightarrow>
        if Type e = EventTypeProcessStart \<and> procs (Pid e) = None then
          (case ReadCgroupByPid (w_os w) (w_GlobalCgroup w) (Pid e) of
             Inl err \<Rightarrow> tbl
           | Inr cg \<Rightarrow>
               if Id cg \<in> groups then (procs(Pid e \<mapsto> Some (Id cg)), groups)
               else (case judge p w (Pid e) cg of
                       Unseen \<Rightarrow> tbl
                     | Ignored \<Rightarrow> (procs(Pid e \<mapsto> None), groups)
                     | Monitored \<Rightarrow> (procs(Pid e \<mapsto> Some (Id cg)), insert (Id cg) groups)))
        else if Type e = EventTypeProcessExit then
          (case procs (Pid e) of
             Some (Some k) \<Rightarrow> (procs(Pid e := None), groups - {k})
           | _ \<Rightarrow> tbl)
        else tbl)"

lemma abs_ctx_admit:
  assumes "ctx_ok na ctx"
  shows "abs_ctx (admit ctx pid cg m) =
    (if getContainerID cg m \<noteq> '''' then
       ((fst (abs_ctx ctx))(pid \<mapsto> Some (Id cg)), insert (Id cg) (snd (abs_ctx ctx)))
     else if Id cg = ''/init.scope'' \<and> pid \<noteq> 1 then abs_ctx ctx
     else ((fst (abs_ctx ctx))(pid \<mapsto> None), snd (abs_ctx ctx)))"
proof -
  have "map_option (\<lambda>c. Id (c_Cgroup ((heap ctx @ [x]) ! c))) v = map_option (\<lambda>c. Id (c_Cgroup (heap ctx ! c))) v"
    if "containersByPid ctx p = Some v" for p v and x
    using that ctx_okD(2) [OF assms, of p] by (cases v) (auto simp: nth_append)
  then show ?thesis
    by (auto simp: admit_def abs_ctx_def Let_def NewContainer_def fun_eq_iff dom_def
        map_option_case split: option.splits)
qed

lemma judge_createContainer:
  assumes "createContainer w ctx pid = Inr ctx'" and "containersByPid ctx pid = None"
    and "ReadCgroupByPid (w_os w) (w_GlobalCgroup w) pid = Inr cg" and "containersByCgroupId ctx (Id cg) = None"
    and ok: "ctx_ok na ctx"
  shows "abs_ctx ctx' =
    (case judge (provider ctx) w pid cg of
       Unseen \<Rightarrow> abs_ctx ctx
     | Ignored \<Rightarrow> ((fst (abs_ctx ctx))(pid \<mapsto> None), snd (abs_ctx ctx))
     | Monitored \<Rightarrow> ((fst (abs_ctx ctx))(pid \<mapsto> Some (Id cg)), insert (Id cg) (snd (abs_ctx ctx))))"
proof (cases "ContainerType cg = ContainerTypeDocker \<or> ContainerType cg = ContainerTypeContainerd")
  case False
  with assms show ?thesis by (auto simp: createContainer_def judge_def)
next
  case True
  with assms obtain client r where p: "provider ctx = Some client" and r: "w_Metadata w client (ContainerId cg) = Inr r"
    and c: "ctx' = (case r of Inl err \<Rightarrow> ctx | Inr m \<Rightarrow> admit ctx pid cg m)"
    by (auto simp: createContainer_def deref_def go_bind_eq_Inr split: option.split_asm)
  show ?thesis
  proof (cases r)
    case (Inl e)
    with p r c True show ?thesis by (auto simp: judge_def)
  next
    case (Inr m)
    with p r c True show ?thesis by (auto simp: judge_def abs_ctx_admit [OF ok])
  qed
qed

lemma fst_abs_ctx: "fst (abs_ctx ctx) pid =
    map_option (map_option (\<lambda>c. Id (c_Cgroup (heap ctx ! c)))) (containersByPid ctx pid)"
  by (simp add: abs_ctx_def)

lemma in_snd_abs_ctx: "k \<in> snd (abs_ctx ctx) \<longleftrightarrow> containersByCgroupId ctx k \<noteq> None"
  by (auto simp: abs_ctx_def)

lemma abs_ctx_heap:
  assumes "c < length (heap ctx)" and "c_Cgroup x = c_Cgroup (heap ctx ! c)"
  shows "abs_ctx (ctx\<lparr>heap := (heap ctx)[c := x]\<rparr>) = abs_ctx ctx"
proof -
  have "c_Cgroup ((heap ctx)[c := x] ! d) = c_Cgroup (heap ctx ! d)" for d
    using assms by (cases "d = c") simp_all
  then show ?thesis by (simp add: abs_ctx_def)
qed

lemma abs_start:
  assumes ok: "ctx_ok na ctx" and h: "createContainer w ctx (Pid e) = Inr ctx'" and t: "Type e = 1"
  shows "abs_ctx ctx' = spec_event (provider ctx) w (abs_ctx ctx) e"
proof (cases "containersByPid ctx (Pid e)")
  case (Some v)
  with h t show ?thesis
    by (auto simp: createContainer_def spec_event_def fst_abs_ctx split: prod.split)
      (auto simp: abs_ctx_def)
next
  case None
  then have n: "fst (abs_ctx ctx) (Pid e) = None" by (simp add: fst_abs_ctx)
  show ?thesis
  proof (cases "ReadCgroupByPid (w_os w) (w_GlobalCgroup w) (Pid e)")
    case (Inl err)
    with h t None n show ?thesis
      by (cases "abs_ctx ctx") (auto simp: createContainer_def spec_event_def)
  next
    case (Inr cg)
    show ?thesis
    proof (cases "containersByCgroupId ctx (Id cg)")
      case (Some c)
      then have k: "Id (c_Cgroup (heap ctx ! c)) = Id cg" using ctx_okD(4) [OF ok] by blast
      have "Id cg \<in> snd (abs_ctx ctx)" using Some by (simp add: in_snd_abs_ctx)
      moreover have "abs_ctx ctx' = ((fst (abs_ctx ctx))(Pid e \<mapsto> Some (Id cg)), snd (abs_ctx ctx))"
        using h None Inr Some k by (auto simp: createContainer_def abs_ctx_def fun_eq_iff)
      ultimately show ?thesis using t n Inr
        by (cases "abs_ctx ctx") (auto simp: spec_event_def)
    next
      case new: None
      then have "Id cg \<notin> snd (abs_ctx ctx)" by (simp add: in_snd_abs_ctx)
      with judge_createContainer [OF h None Inr new ok] t n Inr show ?thesis
        by (cases "abs_ctx ctx") (auto simp: spec_event_def split: verdict.split)
    qed
  qed
qed

text \<open>C21: The context implements a table of processes. Forgetting the container objects, each event that
  is handled acts on the table of processes and on the set of control groups that can be
  joined just as the abstract step does: a start joins a known group or is judged by control
  group, metadata and labels, once; an exit removes the process and its group; connections,
  requests and other events leave the table as it is.\<close>
theorem context_refines_table:
  assumes "ctx_ok na ctx" and "handle_event na w ctx e = Inr ctx'"
  shows "abs_ctx ctx' = spec_event (provider ctx) w (abs_ctx ctx) e"
proof (cases "Type e = 1")
  case True
  with assms abs_start [OF assms(1) _ True] show ?thesis by (simp add: handle_event_def)
next
  case start: False
  show ?thesis
  proof (cases "Type e = 2")
    case True
    with assms(2) show ?thesis
      by (auto simp: handle_event_def deref_def spec_event_def abs_ctx_def fun_eq_iff
          split: option.split_asm if_split_asm)
  next
    case exit: False
    have same: "abs_ctx ctx' = abs_ctx ctx"
      using handle_event_step [OF assms(2)]
    proof (cases rule: ctx_step.cases)
      case (Open err ts c)
      with ctx_okD(2) [OF assms(1)] show ?thesis by (simp add: abs_ctx_heap)
    qed (use start exit in simp_all)
    with start exit show ?thesis by (cases "abs_ctx ctx") (simp add: spec_event_def)
  qed
qed

theorem context_refines_table_witness:
  "\<exists>ctx'. handle_event bytes_netaddr pod_world two_processes (exit_event bytes_netaddr 7) = Inr ctx' \<and>
    abs_ctx ctx' = spec_event (Some DockerdClient) pod_world (abs_ctx two_processes) (exit_event bytes_netaddr 7)"
proof -
  have ok: "ctx_ok bytes_netaddr two_processes" by (rule handleEvents_ok [OF ctx_ok_empty two_processes_run])
  obtain ctx' where h: "handle_event bytes_netaddr pod_world two_processes (exit_event bytes_netaddr 7) = Inr ctx'"
    by (simp add: handle_event_def two_processes_def deref_def)
  have "provider two_processes = Some DockerdClient" by (simp add: two_processes_def)
  with h context_refines_table [OF ok h] show ?thesis by simp
qed

section \<open>Start\<close>

lemma ebpfEventSubscribe_listeners:
  "\<exists>t'. ebpfEventSubscribe (Some t) events = Inr t' \<and>
    (\<forall>ty. tracer_listeners t' ty =
       tracer_listeners t ty @ (if ty \<in> {1, 2, 3, 4, 5, 6, 7, 8, 9, 10} then [events] else []))"
  by (simp add: ebpfEventSubscribe_def deref_def tracer_bus.listeners_subscribe)

end
