(* ===== verification/Agent_Schedule.thy ===== *)
theory Agent_Schedule
imports Container_Props
begin

text \<open>
  The goroutines around the agent's event channel (\<open>pkg/container/container.go\<close>): the start of the context and
  then the tracer's readers send, one loop handles. The model is a step relation over what each
  sender still has to send, the bounded channel and the context, for every schedule. The loop
  runs from the start; the readers run only on the tracer of a context that
  \<open>NewContainerContext\<close> has returned, and it returns when all announcements of running
  processes are in the channel.
\<close>

section \<open>State and steps\<close>

text \<open>The capacity of \<open>ctx.events\<close>.\<close>

definition events_capacity :: nat where
  "events_capacity = 10000"

text \<open>
  Events carry the number of their sender: 0 is the start of the context (\<open>initContainer\<close>), the others are
  readers. A handled event is kept with the world as it was
  then. A panic of the handler ends the process: the context is then the panic.
\<close>

record 'ip agent =
  to_send :: "'ip Event list list"
  channel :: "(nat \<times> 'ip Event) list"
  handled :: "(nat \<times> 'ip world \<times> 'ip Event) list"
  context_now :: "'ip ContainerContext go"

definition agent_start :: "client_kind option \<Rightarrow> 'ip Event list list \<Rightarrow> 'ip agent" where
  "agent_start p todo =
     \<lparr>to_send = todo, channel = [], handled = [], context_now = Inr (empty_context p)\<rparr>"

text \<open>
  A reader sends only when nothing is left to announce (it does not run before); the loop handles at any time.
\<close>

inductive agent_step :: "'ip netaddr_api \<Rightarrow> nat \<Rightarrow> 'ip agent \<Rightarrow> 'ip agent \<Rightarrow> bool" for na cap where
  send:
    "context_now s = Inr ctx \<Longrightarrow> i < length (to_send s) \<Longrightarrow> to_send s ! i = e # es \<Longrightarrow>
     0 < i \<longrightarrow> to_send s ! 0 = [] \<Longrightarrow> length (channel s) < cap \<Longrightarrow>
     agent_step na cap s (s\<lparr>to_send := (to_send s)[i := es], channel := channel s @ [(i, e)]\<rparr>)"
| handle:
    "context_now s = Inr ctx \<Longrightarrow> channel s = (i, e) # q \<Longrightarrow>
     agent_step na cap s (s\<lparr>channel := q, handled := handled s @ [(i, w, e)], context_now := handle_event na w ctx e\<rparr>)"

inductive_cases agent_stepE: "agent_step na cap s s'"

section \<open>The invariant\<close>

lemma go_bind_return: "go_bind m Inr = m"
  by (cases m) simp_all

lemma handleEvents_snoc:
  "handleEvents na ctx (es @ [(w, e)]) = go_bind (handleEvents na ctx es) (\<lambda>c. handle_event na w c e)"
proof (induction es arbitrary: ctx)
  case (Cons x es)
  obtain v d where x: "x = (v, d)" by (cases x)
  show ?case by (cases "handle_event na v ctx d") (simp_all add: x Cons)
qed (simp add: go_bind_return)

text \<open>The events of one sender that have left it: handled ones, then those in the channel.\<close>

definition left_sender :: "'ip agent \<Rightarrow> nat \<Rightarrow> 'ip Event list" where
  "left_sender s i =
     map snd (filter (\<lambda>x. fst x = i) (map (\<lambda>(i, w, e). (i, e)) (handled s) @ channel s))"

text \<open>No event of a reader comes before an announcement.\<close>

definition announced_first :: "(nat \<times> 'a) list \<Rightarrow> bool" where
  "announced_first xs \<longleftrightarrow> (\<forall>x \<in> set (dropWhile (\<lambda>x. fst x = 0) xs). fst x \<noteq> 0)"

lemma announced_first_Nil [simp]: "announced_first []"
  by (simp add: announced_first_def)

lemma announced_first_Cons:
  "announced_first (x # xs) \<longleftrightarrow> (if fst x = 0 then announced_first xs else \<forall>y \<in> set xs. fst y \<noteq> 0)"
  by (simp add: announced_first_def)

lemma announced_first_snoc:
  "announced_first xs \<Longrightarrow> fst x \<noteq> 0 \<or> (\<forall>y \<in> set xs. fst y = 0) \<Longrightarrow> announced_first (xs @ [x])"
  by (auto simp: announced_first_def dropWhile_append)

lemma announced_first_readers: "\<forall>y \<in> set xs. fst y \<noteq> 0 \<Longrightarrow> announced_first xs"
  by (cases xs) (auto simp: announced_first_Cons)

lemma announced_first_map: "announced_first (map (\<lambda>(i, w, e). (i, e)) xs) = announced_first xs"
  by (induction xs) (auto simp: announced_first_Cons)

definition sent_events :: "'ip agent \<Rightarrow> (nat \<times> 'ip Event) list" where
  "sent_events s = map (\<lambda>(i, w, e). (i, e)) (handled s) @ channel s"

definition announced_inv :: "'ip agent \<Rightarrow> bool" where
  "announced_inv s \<longleftrightarrow>
     announced_first (sent_events s) \<and> (to_send s ! 0 \<noteq> [] \<longrightarrow> (\<forall>x \<in> set (sent_events s). fst x = 0))"

definition schedule_inv ::
  "'ip netaddr_api \<Rightarrow> nat \<Rightarrow> client_kind option \<Rightarrow> 'ip Event list list \<Rightarrow> 'ip agent \<Rightarrow> bool" where
  "schedule_inv na cap p todo s \<longleftrightarrow>
     length (channel s) \<le> cap \<and>
     context_now s = handleEvents na (empty_context p) (map snd (handled s)) \<and>
     length (to_send s) = length todo \<and>
     (\<forall>i. i < length todo \<longrightarrow> left_sender s i @ to_send s ! i = todo ! i) \<and>
     (\<forall>x \<in> set (sent_events s). fst x < length todo) \<and>
     announced_inv s"

lemma schedule_inv_start: "schedule_inv na cap p todo (agent_start p todo)"
  by (simp add: schedule_inv_def agent_start_def left_sender_def sent_events_def announced_inv_def)

lemma sent_events_handle:
  "channel s = (i, e) # q \<Longrightarrow>
   sent_events (s\<lparr>channel := q, handled := handled s @ [(i, w, e)], context_now := c\<rparr>) = sent_events s"
  by (simp add: sent_events_def)

lemma announced_inv_step:
  assumes "agent_step na cap s s'" and "announced_inv s"
  shows "announced_inv s'"
  using assms(1)
proof cases
  case (send ctx i e es)
  have sent: "sent_events s' = sent_events s @ [(i, e)]" using send by (simp add: sent_events_def)
  have old: "announced_first (sent_events s)" "to_send s ! 0 \<noteq> [] \<Longrightarrow> \<forall>x \<in> set (sent_events s). fst x = 0"
    using assms(2) by (auto simp: announced_inv_def)
  show ?thesis
  proof (cases "i = 0")
    case True
    then have "to_send s ! 0 \<noteq> []" using send(4) by simp
    note all = old(2) [OF this]
    have "announced_first (sent_events s @ [(i, e)])" by (rule announced_first_snoc) (use old all in auto)
    then show ?thesis using all True by (simp add: announced_inv_def sent)
  next
    case False
    then have "to_send s' ! 0 = []" using send by simp
    moreover have "announced_first (sent_events s @ [(i, e)])" by (rule announced_first_snoc) (use old False in auto)
    ultimately show ?thesis by (simp add: announced_inv_def sent)
  qed
next
  case (handle ctx i e q w)
  then show ?thesis using assms(2) sent_events_handle [OF handle(3)] by (simp add: announced_inv_def)
qed

lemma schedule_inv_step:
  assumes "agent_step na cap s s'" and "schedule_inv na cap p todo s"
  shows "schedule_inv na cap p todo s'"
  using assms(1)
proof cases
  case (send ctx i e es)
  have "left_sender s' k @ to_send s' ! k = left_sender s k @ to_send s ! k" if "k < length (to_send s)" for k
    using that send(1,3,4) by (cases "k = i") (simp_all add: left_sender_def)
  moreover have "sent_events s' = sent_events s @ [(i, e)]" using send(1) by (simp add: sent_events_def)
  moreover have "announced_inv s'"
    by (rule announced_inv_step [OF assms(1)]) (use assms(2) in \<open>simp add: schedule_inv_def\<close>)
  ultimately show ?thesis using send(1,3,6) assms(2) by (simp add: schedule_inv_def)
next
  case (handle ctx i e q w)
  then have "left_sender s' k = left_sender s k" for k by (simp add: left_sender_def)
  moreover have "sent_events s' = sent_events s" using handle by (simp add: sent_events_def)
  moreover have "announced_inv s'"
    by (rule announced_inv_step [OF assms(1)]) (use assms(2) in \<open>simp add: schedule_inv_def\<close>)
  moreover have "handleEvents na (empty_context p) (map snd (handled s)) = Inr ctx"
    using handle(2) assms(2) unfolding schedule_inv_def by metis
  then have "handleEvents na (empty_context p) (map snd (handled s) @ [(w, e)]) = handle_event na w ctx e"
    by (simp only: handleEvents_snoc go_bind_Inr)
  ultimately show ?thesis using handle assms(2) by (simp add: schedule_inv_def)
qed

lemma schedule_inv_steps:
  "(agent_step na cap)\<^sup>*\<^sup>* s s' \<Longrightarrow> schedule_inv na cap p todo s \<Longrightarrow> schedule_inv na cap p todo s'"
  by (induction rule: rtranclp_induct) (auto intro: schedule_inv_step)

section \<open>Progress\<close>

definition events_left :: "'ip agent \<Rightarrow> nat" where
  "events_left s = 2 * sum_list (map length (to_send s)) + length (channel s)"

lemma sum_list_length_update:
  "i < length xss \<Longrightarrow> xss ! i = e # es \<Longrightarrow> sum_list (map length xss) = Suc (sum_list (map length (xss[i := es])))"
  by (induction xss arbitrary: i) (auto split: nat.split simp: nth_Cons')

lemma events_left_step: "agent_step na cap s s' \<Longrightarrow> Suc (events_left s') = events_left s"
proof (erule agent_stepE)
  fix i e es
  assume "s' = s\<lparr>to_send := (to_send s)[i := es], channel := channel s @ [(i, e)]\<rparr>"
    and "i < length (to_send s)" and "to_send s ! i = e # es"
  then show ?thesis using sum_list_length_update [of i "to_send s" e es] by (simp add: events_left_def)
qed (simp add: events_left_def)

lemma agent_steps_count: "(agent_step na cap ^^ n) s s' \<Longrightarrow> n + events_left s' = events_left s"
proof (induction n arbitrary: s')
  case (Suc n)
  then obtain t where "(agent_step na cap ^^ n) s t" "agent_step na cap t s'" by auto
  with Suc.IH [of t] events_left_step [of na cap t s'] show ?case by simp
qed simp

lemma agent_steps_reach: "(agent_step na cap ^^ n) s s' \<Longrightarrow> (agent_step na cap)\<^sup>*\<^sup>* s s'"
  by (rule relpowp_imp_rtranclp)

lemma agent_stuck:
  assumes "0 < cap" and "\<nexists>s'. agent_step na cap s s'" and "context_now s = Inr ctx"
  shows "channel s = [] \<and> (\<forall>i < length (to_send s). to_send s ! i = [])"
proof
  show c: "channel s = []"
  proof (cases "channel s")
    case (Cons x q)
    then obtain i e where "channel s = (i, e) # q" by (cases x) auto
    with assms(2,3) show ?thesis using agent_step.handle [OF assms(3)] by blast
  qed
  have none: "to_send s ! i = []" if i: "i < length (to_send s)" and first: "0 < i \<longrightarrow> to_send s ! 0 = []" for i
  proof (rule ccontr)
    assume "to_send s ! i \<noteq> []"
    then obtain e es where e: "to_send s ! i = e # es" by (cases "to_send s ! i") auto
    have "length (channel s) < cap" using c assms(1) by simp
    from agent_step.send [OF assms(3) i e first this] assms(2) show False by blast
  qed
  show "\<forall>i < length (to_send s). to_send s ! i = []"
  proof (intro allI impI)
    fix i assume i: "i < length (to_send s)"
    then have "to_send s ! 0 = []" by (intro none) auto
    with i show "to_send s ! i = []" by (intro none) auto
  qed
qed

section \<open>Properties\<close>

text \<open>The event channel under every schedule. Whatever the interleaving of the readers, of the start and
  of the handler: the channel never holds more than its capacity; the events of each sender are
  handled in the order in which it sends them, none lost or doubled, the rest being in the
  channel or still to be sent; and the context is what handling the handled events one after
  the other makes of the empty one, so that its tables are consistent as long as no handler has
  panicked.\<close>
theorem channel_any_schedule:
  assumes "(agent_step na cap)\<^sup>*\<^sup>* (agent_start p todo) s"
  shows "length (channel s) \<le> cap \<and> length (to_send s) = length todo \<and>
    (\<forall>i < length todo. left_sender s i @ to_send s ! i = todo ! i) \<and>
    context_now s = handleEvents na (empty_context p) (map snd (handled s)) \<and>
    (\<forall>ctx. context_now s = Inr ctx \<longrightarrow> ctx_ok na ctx)"
proof -
  have "schedule_inv na cap p todo s" using assms schedule_inv_start by (rule schedule_inv_steps)
  then show ?thesis using handleEvents_ok [OF ctx_ok_empty] by (auto simp: schedule_inv_def)
qed

text \<open>C2: The channel delivers. Every schedule ends after at most two steps for each event to be sent; when nothing
  can move any more, either a handler has panicked or every event of every sender has been
  handled, and exactly two steps were made for each. The capacity, as long as it is not zero,
  makes no difference.\<close>
theorem channel_delivers:
  assumes "(agent_step na cap ^^ n) (agent_start p todo) s" and "0 < cap"
  shows "n \<le> 2 * sum_list (map length todo) \<and>
    ((\<nexists>s'. agent_step na cap s s') \<longrightarrow>
      (\<exists>e. context_now s = Inl e) \<or>
      (n = 2 * sum_list (map length todo) \<and>
       (\<forall>i < length todo. map (\<lambda>(j, w, e). e) (filter (\<lambda>x. fst x = i) (handled s)) = todo ! i)))"
proof -
  have count: "n + events_left s = 2 * sum_list (map length todo)"
    using agent_steps_count [OF assms(1)] by (simp add: events_left_def agent_start_def)
  have inv: "schedule_inv na cap p todo s"
    using agent_steps_reach [OF assms(1)] schedule_inv_start by (rule schedule_inv_steps)
  have "n = 2 * sum_list (map length todo) \<and>
      (\<forall>i < length todo. map (\<lambda>(j, w, e). e) (filter (\<lambda>x. fst x = i) (handled s)) = todo ! i)"
    if stuck: "\<nexists>s'. agent_step na cap s s'" and ctx: "context_now s = Inr ctx" for ctx
  proof
    note empty = agent_stuck [OF assms(2) stuck ctx]
    then have "\<forall>x \<in> set (map length (to_send s)). x = 0" by (auto simp: in_set_conv_nth)
    then have "sum_list (map length (to_send s)) = 0" by (simp only: sum_list_eq_0_iff)
    with count empty show "n = 2 * sum_list (map length todo)" by (simp add: events_left_def)
    show "\<forall>i < length todo. map (\<lambda>(j, w, e). e) (filter (\<lambda>x. fst x = i) (handled s)) = todo ! i"
    proof (intro allI impI)
      fix i assume i: "i < length todo"
      have "left_sender s i = todo ! i" using inv i empty by (simp add: schedule_inv_def)
      moreover have "left_sender s i = map (\<lambda>(j, w, e). e) (filter (\<lambda>x. fst x = i) (handled s))"
        using empty by (simp add: left_sender_def filter_map comp_def split_def)
      ultimately show "map (\<lambda>(j, w, e). e) (filter (\<lambda>x. fst x = i) (handled s)) = todo ! i" by simp
    qed
  qed
  moreover have "\<exists>e. context_now s = Inl e" if "\<forall>ctx. context_now s \<noteq> Inr ctx"
    using that by (cases "context_now s") auto
  ultimately show ?thesis using count by auto
qed

section \<open>Which orders can happen\<close>

text \<open>
  An order in which the events of all senders can be handled: each sender's events in their order, the
  announcements (sender 0) before the readers' events.
\<close>

definition merge_of :: "'ip Event list list \<Rightarrow> (nat \<times> 'ip world \<times> 'ip Event) list \<Rightarrow> bool" where
  "merge_of todo order \<longleftrightarrow>
     (\<forall>i < length todo. map (\<lambda>(j, w, e). e) (filter (\<lambda>x. fst x = i) order) = todo ! i) \<and>
     (\<forall>x \<in> set order. fst x < length todo) \<and> announced_first order"

lemma merge_of_Cons:
  "merge_of todo ((i, w, e) # order) \<longleftrightarrow>
    i < length todo \<and> (0 < i \<longrightarrow> todo ! 0 = []) \<and> (\<exists>es. todo ! i = e # es \<and> merge_of (todo[i := es]) order)"
proof
  assume m: "merge_of todo ((i, w, e) # order)"
  then have a: "announced_first order"
    by (auto simp: merge_of_def announced_first_Cons announced_first_readers split: if_splits)
  have z: "0 < i \<longrightarrow> todo ! 0 = []"
  proof
    assume i: "0 < i"
    then have "\<forall>x \<in> set order. fst x \<noteq> 0" using m by (simp add: merge_of_def announced_first_Cons)
    then have "filter (\<lambda>x. fst x = 0) ((i, w, e) # order) = []" using i by (auto simp: filter_empty_conv)
    moreover have "0 < length todo" using m by (auto simp: merge_of_def)
    then have "map (\<lambda>(j, w, e). e) (filter (\<lambda>x. fst x = 0) ((i, w, e) # order)) = todo ! 0"
      using m unfolding merge_of_def by blast
    ultimately show "todo ! 0 = []" by (metis list.map(1))
  qed
  from m have i: "i < length todo" and all: "\<forall>x \<in> set order. fst x < length todo"
    by (simp_all add: merge_of_def)
  from m i have ei: "todo ! i = e # map (\<lambda>(j, w, e). e) (filter (\<lambda>x. fst x = i) order)"
    by (auto simp: merge_of_def)
  have "map (\<lambda>(j, w, e). e) (filter (\<lambda>x. fst x = k) order) = todo ! k" if "k < length todo" "k \<noteq> i" for k
    using m that by (auto simp: merge_of_def)
  with i all ei a have "merge_of (todo[i := map (\<lambda>(j, w, e). e) (filter (\<lambda>x. fst x = i) order)]) order"
    by (simp add: merge_of_def nth_list_update)
  with i ei z show "i < length todo \<and> (0 < i \<longrightarrow> todo ! 0 = []) \<and>
      (\<exists>es. todo ! i = e # es \<and> merge_of (todo[i := es]) order)" by blast
next
  assume "i < length todo \<and> (0 < i \<longrightarrow> todo ! 0 = []) \<and> (\<exists>es. todo ! i = e # es \<and> merge_of (todo[i := es]) order)"
  then obtain es where i: "i < length todo" and z: "0 < i \<longrightarrow> todo ! 0 = []" and ei: "todo ! i = e # es"
    and m: "merge_of (todo[i := es]) order" by blast
  have "announced_first ((i, w, e) # order)"
  proof (cases "i = 0")
    case False
    then have "0 < length (todo[i := es])" and "todo[i := es] ! 0 = []" using i z by auto
    then have "filter (\<lambda>x. fst x = 0) order = []" using m by (auto simp: merge_of_def)
    then show ?thesis using False by (simp add: announced_first_Cons filter_empty_conv)
  qed (use m in \<open>simp add: merge_of_def announced_first_Cons\<close>)
  moreover
  have "map (\<lambda>(j, w, e). e) (filter (\<lambda>x. fst x = k) ((i, w, e) # order)) = todo ! k" if "k < length todo" for k
    using m that i ei by (cases "k = i") (auto simp: merge_of_def nth_list_update)
  ultimately show "merge_of todo ((i, w, e) # order)" using m i by (simp add: merge_of_def)
qed

lemma merge_of_Nil: "merge_of todo [] \<longleftrightarrow> (\<forall>i < length todo. todo ! i = [])"
  by (auto simp: merge_of_def)

lemma realise_order:
  assumes "merge_of (to_send s) order" and "channel s = []" and "context_now s = Inr c"
    and "handleEvents na c (map snd order) = Inr ctx" and "0 < cap"
  shows "\<exists>s'. (agent_step na cap)\<^sup>*\<^sup>* s s' \<and> handled s' = handled s @ order \<and> channel s' = [] \<and>
    context_now s' = Inr ctx \<and> (\<forall>i < length (to_send s'). to_send s' ! i = [])"
  using assms(1-4)
proof (induction order arbitrary: s c)
  case Nil
  then show ?case by (auto simp: merge_of_Nil)
next
  case (Cons x order)
  obtain i w e where x: "x = (i, w, e)" by (cases x)
  from Cons.prems(1) obtain es where i: "i < length (to_send s)" and ei: "to_send s ! i = e # es"
    and first: "0 < i \<longrightarrow> to_send s ! 0 = []" and m: "merge_of ((to_send s)[i := es]) order"
    by (auto simp: x merge_of_Cons)
  from Cons.prems(4) obtain c' where c': "handle_event na w c e = Inr c'"
    and rest: "handleEvents na c' (map snd order) = Inr ctx" by (auto simp: x go_bind_eq_Inr)
  let ?s1 = "s\<lparr>to_send := (to_send s)[i := es], channel := channel s @ [(i, e)]\<rparr>"
  let ?s2 = "?s1\<lparr>channel := [], handled := handled ?s1 @ [(i, w, e)], context_now := handle_event na w c e\<rparr>"
  have "length (channel s) < cap" using Cons.prems(2) assms(5) by simp
  from agent_step.send [OF Cons.prems(3) i ei first this] have 1: "agent_step na cap s ?s1" .
  have 2: "agent_step na cap ?s1 ?s2"
    by (rule agent_step.handle [of _ c]) (use Cons.prems(2,3) in simp_all)
  obtain s' where "(agent_step na cap)\<^sup>*\<^sup>* ?s2 s'" "handled s' = handled ?s2 @ order" "channel s' = []"
    "context_now s' = Inr ctx" "\<forall>i < length (to_send s'). to_send s' ! i = []"
    using Cons.IH [of ?s2 c', OF _ _ _ rest] m c' by auto
  with 1 2 show ?case by (intro exI [of _ s']) (auto simp: x intro: converse_rtranclp_into_rtranclp)
qed

lemma finished_stuck:
  "channel s = [] \<Longrightarrow> \<forall>i < length (to_send s). to_send s ! i = [] \<Longrightarrow> \<nexists>s'. agent_step na cap s s'"
  by (auto elim!: agent_stepE)

lemma finished_merge:
  assumes "schedule_inv na cap p todo s" and "channel s = []" and "\<forall>i < length (to_send s). to_send s ! i = []"
  shows "merge_of todo (handled s)"
proof -
  have "left_sender s i = map (\<lambda>(j, w, e). e) (filter (\<lambda>x. fst x = i) (handled s))" for i
    using assms(2) by (simp add: left_sender_def filter_map comp_def split_def)
  then show ?thesis
    using assms by (auto simp: schedule_inv_def merge_of_def sent_events_def announced_inv_def announced_first_map split_beta)
qed

lemma outcome_of_order:
  assumes "merge_of todo order" and "handleEvents na (empty_context p) (map snd order) = Inr ctx" and "0 < cap"
  shows "\<exists>s. (agent_step na cap)\<^sup>*\<^sup>* (agent_start p todo) s \<and> (\<nexists>s'. agent_step na cap s s') \<and>
    handled s = order \<and> context_now s = Inr ctx"
proof -
  have "\<exists>s'. (agent_step na cap)\<^sup>*\<^sup>* (agent_start p todo) s' \<and> handled s' = handled (agent_start p todo) @ order \<and>
      channel s' = [] \<and> context_now s' = Inr ctx \<and> (\<forall>i < length (to_send s'). to_send s' ! i = [])"
    by (rule realise_order [OF _ _ _ assms(2,3)]) (simp_all add: agent_start_def assms(1))
  then obtain s' where s': "(agent_step na cap)\<^sup>*\<^sup>* (agent_start p todo) s'" "handled s' = order" "context_now s' = Inr ctx"
    "channel s' = []" "\<forall>i < length (to_send s'). to_send s' ! i = []"
    by (auto simp: agent_start_def)
  with finished_stuck [OF s'(4,5)] show ?thesis by blast
qed

text \<open>C3: The contexts a run can end in without a panic. They are exactly those that some merge of the
  senders' events gives, handled one after the other: each sender's events in their order, and the
  announcements of the running processes before every event of a reader, because the readers do not run before
  all announcements are sent. The channel imposes no other order, whatever its capacity, as long as it
  is above zero. The world that a handler meets is arbitrary at each event.\<close>
theorem channel_outcomes:
  assumes "0 < cap"
  shows "(\<exists>s. (agent_step na cap)\<^sup>*\<^sup>* (agent_start p todo) s \<and> (\<nexists>s'. agent_step na cap s s') \<and> context_now s = Inr ctx) \<longleftrightarrow>
    (\<exists>order. merge_of todo order \<and> handleEvents na (empty_context p) (map snd order) = Inr ctx)"
proof
  assume "\<exists>s. (agent_step na cap)\<^sup>*\<^sup>* (agent_start p todo) s \<and> (\<nexists>s'. agent_step na cap s s') \<and> context_now s = Inr ctx"
  then obtain s where r: "(agent_step na cap)\<^sup>*\<^sup>* (agent_start p todo) s" and stuck: "\<nexists>s'. agent_step na cap s s'"
    and c: "context_now s = Inr ctx" by blast
  have inv: "schedule_inv na cap p todo s" using r schedule_inv_start by (rule schedule_inv_steps)
  note e = agent_stuck [OF assms stuck c]
  have "merge_of todo (handled s)" using finished_merge [OF inv] e by blast
  moreover have "handleEvents na (empty_context p) (map snd (handled s)) = Inr ctx"
    using inv c by (simp add: schedule_inv_def)
  ultimately show "\<exists>order. merge_of todo order \<and> handleEvents na (empty_context p) (map snd order) = Inr ctx" by blast
next
  assume "\<exists>order. merge_of todo order \<and> handleEvents na (empty_context p) (map snd order) = Inr ctx"
  then obtain order where m: "merge_of todo order" and h: "handleEvents na (empty_context p) (map snd order) = Inr ctx" by blast
  from outcome_of_order [OF m h assms]
  show "\<exists>s. (agent_step na cap)\<^sup>*\<^sup>* (agent_start p todo) s \<and> (\<nexists>s'. agent_step na cap s s') \<and> context_now s = Inr ctx"
    by blast
qed

section \<open>A race\<close>

text \<open>A process starts and opens a connection; the two events come from different readers.\<close>

definition open_42 :: "bytes Event" where
  "open_42 = sample_open\<lparr>Pid := 42\<rparr>"

abbreviation (input) start_42 :: "bytes Event" where
  "start_42 \<equiv> start_event bytes_netaddr 42"

abbreviation (input) the_source :: "bytes IPPort" where "the_source \<equiv> (map byte_of [10, 0, 0, 7], 4000)"
abbreviation (input) the_dest :: "bytes IPPort" where "the_dest \<equiv> (map byte_of [10, 0, 0, 9], 443)"

lemma open_42_fields:
  "Type open_42 = 3" "Pid open_42 = 42" "SrcAddr open_42 = the_source" "DstAddr open_42 = the_dest"
  by (simp_all add: open_42_def sample_open_fields)

definition with_42 :: "bytes ContainerContext" where
  "with_42 = admit (empty_context (Some DockerdClient)) 42 sample_cgroup (zero_Metadata\<lparr>md_ID := sample_id, md_Labels := pod_labels\<rparr>)"

lemma start_42_handled:
  "handle_event bytes_netaddr (sample_world pod_labels) (empty_context (Some DockerdClient)) start_42 = Inr with_42"
  by (simp add: handle_event_def sample_create empty_context_def with_42_def)

lemma open_42_ignored:
  "handle_event bytes_netaddr w (empty_context p) open_42 = Inr (empty_context p)"
  by (simp add: handle_event_def open_42_fields empty_context_def)

lemma with_42_pid: "containersByPid with_42 42 = Some (Some 0)"
  by (simp add: with_42_def admit_def Let_def pod_container_id empty_context_def)

lemma with_42_count: "successes with_42 0 k = 0"
  by (simp add: successes_def with_42_def admit_def Let_def pod_container_id empty_context_def NewContainer_def)

lemma open_42_counted:
  "\<exists>ctx. handle_event bytes_netaddr (sample_world pod_labels) with_42 open_42 = Inr ctx \<and>
    successes ctx 0 (the_source, the_dest) = 1"
proof -
  obtain ctx where h: "handle_event bytes_netaddr (sample_world pod_labels) with_42 open_42 = Inr ctx"
    by (simp add: handle_event_def open_42_fields with_42_pid OnConnectionOpen_eq)
  have ok: "ctx_ok bytes_netaddr with_42"
    by (rule handleEvents_ok [OF ctx_ok_empty [of _ "Some DockerdClient"], where es = "[(sample_world pod_labels, start_42)]"])
      (simp add: start_42_handled)
  have "conn_entry bytes_netaddr (sample_world pod_labels) with_42 open_42 = [(0, False, the_source, the_dest)]"
    by (simp add: conn_entry_def open_42_fields with_42_pid sample_open_not_loopback sample_conntrack)
  with handle_event_counters(1) [OF ok h, of 0 the_source the_dest] show ?thesis
    using h by (simp add: with_42_count logged_def)
qed

lemma pair_merge:
  "merge_of [[], [a], [b]] [(1, w, a), (2, v, b)]" "merge_of [[], [a], [b]] [(2, v, b), (1, w, a)]"
  by (simp_all add: merge_of_def less_Suc_eq numeral_3_eq_3 numeral_2_eq_2 announced_first_Cons)

lemma open_42_lost:
  "handleEvents bytes_netaddr (empty_context (Some DockerdClient))
     (map snd [(2, w, open_42), (1, sample_world pod_labels, start_42)]) = Inr with_42"
  by (simp add: open_42_ignored start_42_handled)

text \<open>Two readers race. A process starts and opens a connection; the start comes from one perf buffer and the
  connection from another. Both orders are possible runs: in one the container counts the
  connection, in the other the connection is handled before its process is known and is
  counted nowhere, for good.\<close>
theorem event_race:
  "\<exists>s1 ctx1 s2 ctx2.
    (agent_step bytes_netaddr events_capacity)\<^sup>*\<^sup>* (agent_start (Some DockerdClient) [[], [start_42], [open_42]]) s1 \<and>
    (\<nexists>s'. agent_step bytes_netaddr events_capacity s1 s') \<and> context_now s1 = Inr ctx1 \<and>
    successes ctx1 0 (the_source, the_dest) = 1 \<and>
    (agent_step bytes_netaddr events_capacity)\<^sup>*\<^sup>* (agent_start (Some DockerdClient) [[], [start_42], [open_42]]) s2 \<and>
    (\<nexists>s'. agent_step bytes_netaddr events_capacity s2 s') \<and> context_now s2 = Inr ctx2 \<and>
    containersByPid ctx2 42 = Some (Some 0) \<and> successes ctx2 0 (the_source, the_dest) = 0"
proof -
  have cap: "0 < events_capacity" by (simp add: events_capacity_def)
  obtain ctx1 where h: "handle_event bytes_netaddr (sample_world pod_labels) with_42 open_42 = Inr ctx1"
    and n: "successes ctx1 0 (the_source, the_dest) = 1" using open_42_counted by blast
  have e1: "handleEvents bytes_netaddr (empty_context (Some DockerdClient))
      (map snd [(1, sample_world pod_labels, start_42), (2, sample_world pod_labels, open_42)]) = Inr ctx1"
    by (simp add: start_42_handled h)
  show ?thesis
    using outcome_of_order [OF pair_merge(1) e1 cap] n outcome_of_order [OF pair_merge(2) open_42_lost cap]
      with_42_pid with_42_count [of "(the_source, the_dest)"] by blast
qed

theorem channel_outcomes_witness:
  "\<exists>s. (agent_step bytes_netaddr events_capacity)\<^sup>*\<^sup>* (agent_start (Some DockerdClient) [[], [start_42], [open_42]]) s \<and>
    (\<nexists>s'. agent_step bytes_netaddr events_capacity s s') \<and> context_now s = Inr with_42"
proof -
  have "0 < events_capacity" by (simp add: events_capacity_def)
  from channel_outcomes [OF this, of bytes_netaddr "Some DockerdClient" "[[], [start_42], [open_42]]" with_42]
  show ?thesis using pair_merge(2) open_42_lost by blast
qed

text \<open>One step of that run: the connection is in the channel.\<close>

lemma one_sent:
  "agent_step bytes_netaddr events_capacity (agent_start (Some DockerdClient) [[], [start_42], [open_42]])
     (agent_start (Some DockerdClient) [[], [start_42], []]\<lparr>channel := [(2, open_42)]\<rparr>)"
  using agent_step.send [of "agent_start (Some DockerdClient) [[], [start_42], [open_42]]" "empty_context (Some DockerdClient)"
      2 open_42 "[]" events_capacity bytes_netaddr]
  by (simp add: agent_start_def events_capacity_def)

theorem channel_any_schedule_witness:
  "\<exists>s. channel s = [(2, open_42)] \<and> left_sender s 2 @ to_send s ! 2 = [open_42] \<and>
    length (channel s) \<le> events_capacity \<and> context_now s = Inr (empty_context (Some DockerdClient))"
proof -
  let ?s = "agent_start (Some DockerdClient) [[], [start_42], []]\<lparr>channel := [(2, open_42)]\<rparr>"
  note c = channel_any_schedule [OF r_into_rtranclp [of "agent_step bytes_netaddr events_capacity", OF one_sent]]
  from c have "\<forall>i < 3. left_sender ?s i @ to_send ?s ! i = [[], [start_42], [open_42]] ! i" by simp
  then have "left_sender ?s 2 @ to_send ?s ! 2 = [open_42]" by (auto dest!: spec [of _ 2])
  with c show ?thesis by (intro exI [of _ ?s]) (simp add: agent_start_def)
qed

theorem channel_delivers_witness:
  "\<exists>n s. (agent_step bytes_netaddr events_capacity ^^ n) (agent_start (Some DockerdClient) [[], [start_42], [open_42]]) s \<and>
    n = 4 \<and> map (\<lambda>(j, w, e). e) (filter (\<lambda>x. fst x = 2) (handled s)) = [open_42]"
proof -
  have cap: "0 < events_capacity" by (simp add: events_capacity_def)
  obtain s where r: "(agent_step bytes_netaddr events_capacity)\<^sup>*\<^sup>* (agent_start (Some DockerdClient) [[], [start_42], [open_42]]) s"
    and stuck: "\<nexists>s'. agent_step bytes_netaddr events_capacity s s'" and c: "context_now s = Inr with_42"
    using outcome_of_order [OF pair_merge(2) open_42_lost cap] by blast
  from r obtain n where n: "(agent_step bytes_netaddr events_capacity ^^ n) (agent_start (Some DockerdClient) [[], [start_42], [open_42]]) s"
    by (auto dest: rtranclp_imp_relpowp)
  from channel_delivers [OF n cap] stuck c
  have "n = 2 * sum_list (map length [[], [start_42], [open_42]])"
    and "\<forall>i < length [[], [start_42], [open_42]]. map (\<lambda>(j, w, e). e) (filter (\<lambda>x. fst x = i) (handled s)) = [[], [start_42], [open_42]] ! i"
    by auto
  then have "n = 4" and "map (\<lambda>(j, w, e). e) (filter (\<lambda>x. fst x = 2) (handled s)) = [open_42]"
    by (simp, auto dest!: spec [of _ 2])
  with n show ?thesis by (intro exI [of _ n] exI [of _ s] conjI)
qed

end
