(* ===== verification/Connection_Tables.thy ===== *)
theory Connection_Tables
imports Agent_Schedule
begin

text \<open>
  What a container's two tables of connections hold after a run of the event loop: for each descriptor, and
  for each pair of addresses, the connection that was opened last. Nothing takes an entry out again.
\<close>

section \<open>The log of connections\<close>

text \<open>The connections a run files: container, source, and the entry of the tables.\<close>

definition open_entry ::
  "'ip netaddr_api \<Rightarrow> 'ip world \<Rightarrow> 'ip ContainerContext \<Rightarrow> 'ip Event \<Rightarrow> (nat \<times> 'ip IPPort \<times> 'ip ActiveConnection) list" where
  "open_entry na w ctx e =
     (case containersByPid ctx (Pid e) of
        Some (Some c) \<Rightarrow>
          if Type e = EventTypeConnectionOpen \<and> \<not> na_IsLoopback na (fst (DstAddr e))
          then [(c, SrcAddr e,
                 conn_of (DstAddr e) (actual_dst na (w_conntrack w) (SrcAddr e) (DstAddr e)) (Pid e) (Fd e) (Timestamp e))]
          else []
      | _ \<Rightarrow> [])"

fun open_log ::
  "'ip netaddr_api \<Rightarrow> 'ip ContainerContext \<Rightarrow> ('ip world \<times> 'ip Event) list \<Rightarrow>
   (nat \<times> 'ip IPPort \<times> 'ip ActiveConnection) list" where
  "open_log na ctx [] = []"
| "open_log na ctx ((w, e) # es) =
     open_entry na w ctx e @
       (case handle_event na w ctx e of Inl p \<Rightarrow> [] | Inr ctx' \<Rightarrow> open_log na ctx' es)"

text \<open>The tables of one container, empty for one that does not exist yet.\<close>

definition by_fd :: "'ip ContainerContext \<Rightarrow> nat \<Rightarrow> PidFd \<rightharpoonup> 'ip ActiveConnection" where
  "by_fd ctx c = (if c < length (heap ctx) then connectionsByPidFd (heap ctx ! c) else Map.empty)"

definition by_addr :: "'ip ContainerContext \<Rightarrow> nat \<Rightarrow> 'ip AddrPair \<rightharpoonup> 'ip ActiveConnection" where
  "by_addr ctx c = (if c < length (heap ctx) then connectionsActive (heap ctx ! c) else Map.empty)"

text \<open>The last entries of a log, by key.\<close>

definition last_by_fd :: "(nat \<times> 'ip IPPort \<times> 'ip ActiveConnection) list \<Rightarrow> nat \<Rightarrow> PidFd \<rightharpoonup> 'ip ActiveConnection" where
  "last_by_fd l c = map_of (rev (map (\<lambda>(_, src, a). ((ac_Pid a, ac_Fd a), a)) (filter (\<lambda>x. fst x = c) l)))"

definition last_by_addr :: "(nat \<times> 'ip IPPort \<times> 'ip ActiveConnection) list \<Rightarrow> nat \<Rightarrow> 'ip AddrPair \<rightharpoonup> 'ip ActiveConnection" where
  "last_by_addr l c = map_of (rev (map (\<lambda>(_, src, a). ((src, ActualDest a), a)) (filter (\<lambda>x. fst x = c) l)))"

lemma last_by_append:
  "last_by_fd (l @ m) c = last_by_fd l c ++ last_by_fd m c"
  "last_by_addr (l @ m) c = last_by_addr l c ++ last_by_addr m c"
  by (simp_all add: last_by_fd_def last_by_addr_def)

lemma last_by_Nil [simp]: "last_by_fd [] c = Map.empty" "last_by_addr [] c = Map.empty"
  by (simp_all add: last_by_fd_def last_by_addr_def)

lemma last_by_one:
  "last_by_fd [(d, src, a)] c = (if d = c then [(ac_Pid a, ac_Fd a) \<mapsto> a] else Map.empty)"
  "last_by_addr [(d, src, a)] c = (if d = c then [(src, ActualDest a) \<mapsto> a] else Map.empty)"
  by (simp_all add: last_by_fd_def last_by_addr_def)

section \<open>One event\<close>

lemma tables_same_heap: "heap ctx' = heap ctx \<Longrightarrow> by_fd ctx' c = by_fd ctx c \<and> by_addr ctx' c = by_addr ctx c"
  by (simp add: by_fd_def by_addr_def)

lemma tables_admit: "by_fd (admit ctx pid cg m) c = by_fd ctx c" "by_addr (admit ctx pid cg m) c = by_addr ctx c"
  by (auto simp: admit_def Let_def by_fd_def by_addr_def NewContainer_def nth_append less_Suc_eq)

lemma createContainer_tables:
  "createContainer w ctx pid = Inr ctx' \<Longrightarrow> by_fd ctx' c = by_fd ctx c \<and> by_addr ctx' c = by_addr ctx c"
  by (erule createContainer_cases) (simp_all add: tables_admit, simp add: by_fd_def by_addr_def)

lemma opened_tables:
  assumes "r < length (heap ctx)"
  shows "by_fd (ctx\<lparr>heap := (heap ctx)[r := opened na get now (heap ctx ! r) src dst pid fd ts err]\<rparr>) c =
      by_fd ctx c ++ (if c = r \<and> \<not> na_IsLoopback na (fst dst) \<and> \<not> err
        then [(pid, fd) \<mapsto> conn_of dst (actual_dst na get src dst) pid fd ts] else Map.empty)"
    and "by_addr (ctx\<lparr>heap := (heap ctx)[r := opened na get now (heap ctx ! r) src dst pid fd ts err]\<rparr>) c =
      by_addr ctx c ++ (if c = r \<and> \<not> na_IsLoopback na (fst dst) \<and> \<not> err
        then [(src, actual_dst na get src dst) \<mapsto> conn_of dst (actual_dst na get src dst) pid fd ts] else Map.empty)"
  using assms by (auto simp: by_fd_def by_addr_def nth_list_update opened_def Let_def)

lemma conn_of_fields [simp]:
  "ac_Pid (conn_of d a pid fd ts) = pid" "ac_Fd (conn_of d a pid fd ts) = fd" "ActualDest (conn_of d a pid fd ts) = a"
  "ac_Dest (conn_of d a pid fd ts) = d" "ac_Closed (conn_of d a pid fd ts) = None"
  by (simp_all add: conn_of_def)

lemma handle_event_tables:
  assumes ok: "ctx_ok na ctx" and h: "handle_event na w ctx e = Inr ctx'"
  shows "by_fd ctx' c = by_fd ctx c ++ last_by_fd (open_entry na w ctx e) c \<and>
    by_addr ctx' c = by_addr ctx c ++ last_by_addr (open_entry na w ctx e) c"
proof -
  consider "Type e = 1" | "Type e = 2" | "Type e = 3" | "Type e = 5"
    | "Type e \<noteq> 1" "Type e \<noteq> 2" "Type e \<noteq> 3" "Type e \<noteq> 5" by blast
  then show ?thesis
  proof cases
    case 1
    then have "createContainer w ctx (Pid e) = Inr ctx'" using h by (simp add: handle_event_def)
    moreover have "open_entry na w ctx e = []" using 1 by (simp add: open_entry_def split: option.split)
    ultimately show ?thesis using createContainer_tables by simp
  next
    case 2
    then have "heap ctx' = heap ctx" using h by (auto simp: handle_event_def deref_def split: option.split_asm)
    moreover have "open_entry na w ctx e = []" using 2 by (simp add: open_entry_def split: option.split)
    ultimately show ?thesis using tables_same_heap [of ctx' ctx] by simp
  next
    case 3
    with h ok show ?thesis
      by (auto simp: handle_event_def OnConnectionOpen_eq open_entry_def opened_tables last_by_one
          ctx_okD(2) split: option.split_asm)
  next
    case 4
    with h ok show ?thesis
      by (auto simp: handle_event_def OnConnectionOpen_eq open_entry_def opened_tables
          ctx_okD(2) split: option.split_asm)
  next
    case 5
    then have "ctx' = ctx" using h by (auto simp: handle_event_def split: option.split_asm if_split_asm)
    moreover have "open_entry na w ctx e = []" using 5 by (simp add: open_entry_def split: option.split)
    ultimately show ?thesis by simp
  qed
qed

section \<open>A run\<close>

lemma handleEvents_tables:
  assumes "ctx_ok na ctx" and "handleEvents na ctx es = Inr ctx'"
  shows "by_fd ctx' c = by_fd ctx c ++ last_by_fd (open_log na ctx es) c \<and>
    by_addr ctx' c = by_addr ctx c ++ last_by_addr (open_log na ctx es) c"
  using assms
proof (induction na ctx es rule: handleEvents.induct)
  case (1 na ctx)
  then show ?case by simp
next
  case (2 na ctx w e es)
  then obtain ctx1 where h: "handle_event na w ctx e = Inr ctx1" and r: "handleEvents na ctx1 es = Inr ctx'"
    by (auto simp: go_bind_eq_Inr)
  have "ctx_ok na ctx1" by (rule ctx_step_ok [OF 2(2) handle_event_step [OF h]])
  from 2(1) [OF h this r] show ?case
    by (simp add: h handle_event_tables [OF 2(2) h] last_by_append)
qed

lemma open_entry_closed: "(d, src, a) \<in> set (open_entry na w ctx e) \<Longrightarrow> ac_Closed a = None"
  by (auto simp: open_entry_def split: option.split_asm if_split_asm)

lemma open_log_closed: "(d, src, a) \<in> set (open_log na ctx es) \<Longrightarrow> ac_Closed a = None"
proof (induction na ctx es rule: open_log.induct)
  case (2 na ctx w e es)
  show ?case
  proof (cases "handle_event na w ctx e")
    case (Inl p)
    with 2(2) have "(d, src, a) \<in> set (open_entry na w ctx e)" by simp
    then show ?thesis by (rule open_entry_closed)
  next
    case (Inr ctx')
    with 2(2) have "(d, src, a) \<in> set (open_entry na w ctx e) \<or> (d, src, a) \<in> set (open_log na ctx' es)" by simp
    then show ?thesis using 2(1) [OF Inr] open_entry_closed by blast
  qed
qed simp

text \<open>C20: What the tables of connections hold. After any run from the start, a container's table by process and
  descriptor holds, for each key, exactly the last connection that a process of the container opened
  under it, and its table of active connections, for each source and actual destination, the last
  one opened between the two; loopback connections and failed attempts are not in them. No event
  takes an entry out or marks it as closed, neither the end of the connection nor that of the
  process, so as long as the container is reachable both tables grow with the connections ever made.\<close>
theorem connection_tables:
  assumes "handleEvents na (empty_context p) es = Inr ctx" and "c < length (heap ctx)"
  shows "connectionsByPidFd (heap ctx ! c) = last_by_fd (open_log na (empty_context p) es) c \<and>
    connectionsActive (heap ctx ! c) = last_by_addr (open_log na (empty_context p) es) c \<and>
    ran (connectionsActive (heap ctx ! c)) \<inter> {a. ac_Closed a \<noteq> None} = {}"
proof -
  have empty: "by_fd (empty_context p) c = Map.empty" "by_addr (empty_context p) c = Map.empty"
    by (simp_all add: by_fd_def by_addr_def empty_context_def)
  have t: "connectionsByPidFd (heap ctx ! c) = last_by_fd (open_log na (empty_context p) es) c"
    "connectionsActive (heap ctx ! c) = last_by_addr (open_log na (empty_context p) es) c"
    using handleEvents_tables [OF ctx_ok_empty assms(1), of c] assms(2) by (simp_all add: empty) (simp_all add: by_fd_def by_addr_def)
  have "ac_Closed a = None" if "a \<in> ran (last_by_addr (open_log na (empty_context p) es) c)" for a
    using that open_log_closed [of _ _ a na "empty_context p" es] by (auto simp: last_by_addr_def ran_def dest!: map_of_SomeD)
  with t show ?thesis by auto
qed

text \<open>The process of the example opens a connection and exits: the entry is still there.\<close>

abbreviation (input) open_and_exit :: "(bytes world \<times> bytes Event) list" where
  "open_and_exit \<equiv> [(sample_world pod_labels, start_42), (sample_world pod_labels, open_42),
     (sample_world pod_labels, exit_event bytes_netaddr 42)]"

lemma open_42_numbers: "Fd open_42 = 5" "Timestamp open_42 = 0"
  by (simp_all add: open_42_def sample_open_def zero_Event_def)

theorem connection_tables_witness:
  "\<exists>ctx. handleEvents bytes_netaddr (empty_context (Some DockerdClient)) open_and_exit = Inr ctx \<and>
    containersByPid ctx 42 = None \<and>
    connectionsByPidFd (heap ctx ! 0) (42, 5) = Some (conn_of the_dest the_dest 42 5 0)"
proof -
  obtain ctx1 where h: "handle_event bytes_netaddr (sample_world pod_labels) with_42 open_42 = Inr ctx1"
    by (simp add: handle_event_def open_42_fields with_42_pid OnConnectionOpen_eq)
  have len: "length (heap with_42) = 1"
    by (simp add: with_42_def admit_def Let_def pod_container_id empty_context_def)
  then have len1: "length (heap ctx1) = 1" and pid1: "containersByPid ctx1 42 = Some (Some 0)"
    using h by (auto simp: handle_event_def open_42_fields with_42_pid OnConnectionOpen_eq)
  obtain ctx2 where x: "handle_event bytes_netaddr (sample_world pod_labels) ctx1 (exit_event bytes_netaddr 42) = Inr ctx2"
    and gone: "containersByPid ctx2 42 = None" and len2: "length (heap ctx2) = 1"
    using len1 by (simp add: handle_event_def pid1 deref_def map_delete_def)
  have run: "handleEvents bytes_netaddr (empty_context (Some DockerdClient)) open_and_exit = Inr ctx2"
    by (simp add: start_42_handled h x)
  have e1: "open_entry bytes_netaddr (sample_world pod_labels) (empty_context (Some DockerdClient)) start_42 = []"
    by (simp add: open_entry_def empty_context_def)
  have e2: "open_entry bytes_netaddr (sample_world pod_labels) with_42 open_42 =
      [(0, the_source, conn_of the_dest the_dest 42 5 0)]"
    by (simp add: open_entry_def open_42_fields open_42_numbers with_42_pid sample_open_not_loopback sample_conntrack)
  have e3: "open_entry bytes_netaddr (sample_world pod_labels) ctx1 (exit_event bytes_netaddr 42) = []"
    by (simp add: open_entry_def pid1)
  have log: "open_log bytes_netaddr (empty_context (Some DockerdClient)) open_and_exit =
      [(0, the_source, conn_of the_dest the_dest 42 5 0)]"
    by (simp add: start_42_handled h x e1 e2 e3)
  have "0 < length (heap ctx2)" by (simp add: len2)
  from connection_tables [OF run this] have "connectionsByPidFd (heap ctx2 ! 0) (42, 5) = Some (conn_of the_dest the_dest 42 5 0)"
    by (simp only: log last_by_one) simp
  with run gone show ?thesis by blast
qed

end
