(* ===== verification/Tracer_Program.thy ===== *)
theory Tracer_Program
imports Tracer_Reader Sys_Proc
begin

text \<open>
  \<open>pkg/ebpftracer/ebpftracer.go\<close>: choice and loading of the kernel program, attachment of its
  probes, the perf readers, closing.

  The eBPF library, the comparison of versions, and the table of embedded programs are arguments.
\<close>

section \<open>The program\<close>

text \<open>\<open>table\<close> is \<open>ebpfProg\<close>: for an architecture, minimal versions and programs.\<close>

definition getProgram ::
  "(string \<Rightarrow> string \<Rightarrow> int) \<Rightarrow> os_api \<Rightarrow> (string \<rightharpoonup> (string \<times> bytes) list) \<Rightarrow> string \<Rightarrow> string \<Rightarrow> err + bytes" where
  "getProgram semver_Compare os table GOARCH kernelVersion =
     (case table GOARCH of
        None \<Rightarrow> Inl (''Unsupported  architecture: '' @ GOARCH @ ''  '')
      | Some ps \<Rightarrow>
          let kv = ''v'' @ KernelMajorMinor kernelVersion;
              prg = (case find (\<lambda>p. 0 \<le> semver_Compare kv (fst p)) ps of None \<Rightarrow> [] | Some p \<Rightarrow> snd p)
          in if prg = [] then Inl (''unsupported kernel version: '' @ kernelVersion)
             else case os_Stat os ''/sys/kernel/debug/tracing'' of
               Some e \<Rightarrow> Inl (''kernel tracing is not available: '' @ e)
             | None \<Rightarrow> Inr prg)"

section \<open>Loading and attaching\<close>

datatype prog_type = TracePoint | Kprobe | OtherProg

record ProgramSpec =
  ps_Name :: string
  ps_Type :: prog_type
  ps_AttachTo :: string
  ps_SectionName :: string

text \<open>
  The eBPF library: reading a specification (its handle and the programs in it, in the order in
  which the map of them is traversed), loading it as a collection, its programs by name, attaching, opening a perf reader
  on one of its maps, and what \<open>Close\<close> does on a nil perf reader: it may return, or panic on the nil
  pointer.
\<close>

record ebpf_api =
  LoadCollectionSpec :: "bytes \<Rightarrow> err + handle \<times> ProgramSpec list"
  NewCollection :: "handle \<Rightarrow> err + handle"
  coll_Program :: "string \<Rightarrow> handle"
  link_Tracepoint :: "string \<Rightarrow> string \<Rightarrow> handle \<Rightarrow> err + handle"
  link_Kprobe :: "string \<Rightarrow> handle \<Rightarrow> err + handle"
  perf_NewReader :: "string \<Rightarrow> nat \<Rightarrow> err + handle"
  perf_Close_nil :: "unit go"

definition attach_program :: "ebpf_api \<Rightarrow> ProgramSpec \<Rightarrow> EBPFTracer \<Rightarrow> EBPFTracer go" where
  "attach_program api spec t =
     (let program = coll_Program api (ps_Name spec)
      in case ps_Type spec of
           TracePoint \<Rightarrow>
             let parts = splitn_char (CHR ''/'') 2 (ps_AttachTo spec)
             in go_bind (idx parts 0) (\<lambda>p0. go_bind (idx parts 1) (\<lambda>p1.
                  Inr (case link_Tracepoint api p0 p1 program of
                         Inl e \<Rightarrow> t | Inr l \<Rightarrow> t\<lparr>links := links t @ [l]\<rparr>)))
         | Kprobe \<Rightarrow>
             if has_prefix (ps_SectionName spec) ''uprobe/''
             then Inr (t\<lparr>uprobes := (uprobes t)(ps_Name spec \<mapsto> program)\<rparr>)
             else Inr (case link_Kprobe api (ps_AttachTo spec) program of
                         Inl e \<Rightarrow> t | Inr l \<Rightarrow> t\<lparr>links := links t @ [l]\<rparr>)
         | OtherProg \<Rightarrow> Inr t)"

fun attach_programs :: "ebpf_api \<Rightarrow> ProgramSpec list \<Rightarrow> EBPFTracer \<Rightarrow> EBPFTracer go" where
  "attach_programs api [] t = Inr t"
| "attach_programs api (s # ss) t = go_bind (attach_program api s t) (attach_programs api ss)"

text \<open>
  Opening the readers: \<open>Inl\<close> an error with the tracer as it was left, its links and the readers
  already open among them.
\<close>

fun open_readers :: "ebpf_api \<Rightarrow> perfEventMap list \<Rightarrow> EBPFTracer \<Rightarrow> ((err \<times> EBPFTracer) + EBPFTracer) go" where
  "open_readers api [] t = Inr (Inr t)"
| "open_readers api (pe # pes) t =
     (case perf_NewReader api (pe_name pe) (pe_perCPUBufferSize pe) of
        Inl err \<Rightarrow>
          go_bind (perf_Close_nil api) (\<lambda>_.
            Inr (Inl (''failed to new  '' @ pe_name pe @ '' perfEvent Reader '', t)))
      | Inr reader \<Rightarrow> open_readers api pes (t\<lparr>readers := (readers t)(pe_name pe \<mapsto> (reader, pe))\<rparr>))"

definition new_tracer :: "handle \<Rightarrow> EBPFTracer" where
  "new_tracer coll =
     \<lparr>collection = coll, readers = Map.empty, links = [], uprobes = Map.empty,
      disableL7Tracing = False, subscribers = Map.empty\<rparr>"

definition NewTracer ::
  "(string \<Rightarrow> string \<Rightarrow> int) \<Rightarrow> os_api \<Rightarrow> (string \<rightharpoonup> (string \<times> bytes) list) \<Rightarrow> string \<Rightarrow> ebpf_api \<Rightarrow> string \<Rightarrow>
   ((err \<times> EBPFTracer option) + EBPFTracer) go" where
  "NewTracer semver_Compare os table GOARCH api kernelVersion =
     (case getProgram semver_Compare os table GOARCH kernelVersion of
        Inl err \<Rightarrow> Inr (Inl (err, None))
      | Inr prog \<Rightarrow>
          (case LoadCollectionSpec api prog of
             Inl err \<Rightarrow> Inr (Inl (''collection spec from reader error: '' @ err, None))
           | Inr (spec, specs) \<Rightarrow>
               (case NewCollection api spec of
                  Inl err \<Rightarrow> Inr (Inl (''failed to new collection error : '' @ err, None))
                | Inr coll \<Rightarrow>
                    go_bind (attach_programs api specs (new_tracer coll)) (\<lambda>t.
                    go_bind (open_readers api perfEvenMaps t) (\<lambda>r.
                      Inr (case r of Inl (err, t) \<Rightarrow> Inl (err, Some t) | Inr t \<Rightarrow> Inr t))))))"

text \<open>The handles \<open>Close\<close> closes.\<close>

definition Close :: "EBPFTracer \<Rightarrow> handle set" where
  "Close t = ran (uprobes t) \<union> set (links t) \<union> fst ` ran (readers t) \<union> {collection t}"

section \<open>Lemmas\<close>

lemma find_Some_split:
  "find P xs = Some x \<Longrightarrow> \<exists>ys zs. xs = ys @ x # zs \<and> P x \<and> (\<forall>y \<in> set ys. \<not> P y)"
proof (induction xs)
  case Nil
  then show ?case by simp
next
  case (Cons a xs)
  show ?case
  proof (cases "P a")
    case True
    with Cons.prems have "a # xs = [] @ x # xs \<and> P x \<and> (\<forall>y \<in> set []. \<not> P y)" by simp
    then show ?thesis by blast
  next
    case False
    with Cons obtain ys zs where "xs = ys @ x # zs" "P x" "\<forall>y \<in> set ys. \<not> P y" by auto
    with False have "a # xs = (a # ys) @ x # zs \<and> P x \<and> (\<forall>y \<in> set (a # ys). \<not> P y)" by simp
    then show ?thesis by blast
  qed
qed

text \<open>What attaching one program adds: a link, or a program kept for user-space probes.\<close>

definition link_of :: "ebpf_api \<Rightarrow> ProgramSpec \<Rightarrow> handle option" where
  "link_of api s =
     (let program = coll_Program api (ps_Name s);
          made = (\<lambda>r. case r of Inl e \<Rightarrow> None | Inr l \<Rightarrow> Some l)
      in case ps_Type s of
           TracePoint \<Rightarrow> (case cut (ps_AttachTo s) ''/'' of (grp, name, _) \<Rightarrow> made (link_Tracepoint api grp name program))
         | Kprobe \<Rightarrow> if has_prefix (ps_SectionName s) ''uprobe/'' then None else made (link_Kprobe api (ps_AttachTo s) program)
         | OtherProg \<Rightarrow> None)"

definition uprobe_of :: "ebpf_api \<Rightarrow> ProgramSpec \<Rightarrow> (string \<times> handle) option" where
  "uprobe_of api s =
     (if ps_Type s = Kprobe \<and> has_prefix (ps_SectionName s) ''uprobe/''
      then Some (ps_Name s, coll_Program api (ps_Name s)) else None)"

definition bad_tracepoint :: "ProgramSpec \<Rightarrow> bool" where
  "bad_tracepoint s = (ps_Type s = TracePoint \<and> CHR ''/'' \<notin> set (ps_AttachTo s))"

lemma splitn_char_2: "splitn_char c 2 s = (case cut s [c] of (a, b, ok) \<Rightarrow> if ok then [a, b] else [a])"
  by (simp add: numeral_2_eq_2 split: prod.split)

lemma attach_program_eq:
  "attach_program api s t =
     (if bad_tracepoint s then Inl IndexOutOfRange
      else Inr (t\<lparr>links := links t @ (case link_of api s of None \<Rightarrow> [] | Some l \<Rightarrow> [l]),
                  uprobes := (case uprobe_of api s of None \<Rightarrow> uprobes t | Some (n, p) \<Rightarrow> (uprobes t)(n \<mapsto> p))\<rparr>))"
proof (cases "ps_Type s")
  case TracePoint
  then show ?thesis
    by (auto simp: attach_program_def bad_tracepoint_def link_of_def uprobe_of_def splitn_char_2 cut_char
        idx_def split: sum.split)
qed (auto simp: attach_program_def bad_tracepoint_def link_of_def uprobe_of_def Let_def split: sum.split)

lemma attach_programs_eq:
  "attach_programs api ss t =
     (if list_ex bad_tracepoint ss then Inl IndexOutOfRange
      else Inr (t\<lparr>links := links t @ List.map_filter (link_of api) ss,
                  uprobes := uprobes t ++ map_of (rev (List.map_filter (uprobe_of api) ss))\<rparr>))"
proof (induction ss arbitrary: t)
  case Nil
  then show ?case by (simp add: map_filter_simps)
next
  case (Cons s ss)
  show ?case
    by (auto simp: attach_program_eq Cons map_filter_simps split: option.splits prod.splits)
qed

section \<open>Properties\<close>

text \<open>The program loaded is the right one. With the embedded programs of the architecture listed
  from the newest minimal kernel version to the oldest, getProgram returns the program of an
  entry that the running kernel's major and minor version reach, and no entry that they
  reach is newer.\<close>
theorem getProgram_newest:
  assumes "table arch = Some ps" and "sorted_wrt (\<lambda>a b. 0 \<le> cmp (fst a) (fst b)) ps"
    and "getProgram cmp os table arch kernelVersion = Inr prg"
  shows "\<exists>v. (v, prg) \<in> set ps \<and> prg \<noteq> [] \<and> 0 \<le> cmp (''v'' @ KernelMajorMinor kernelVersion) v \<and>
    (\<forall>(w, q) \<in> set ps. 0 \<le> cmp (''v'' @ KernelMajorMinor kernelVersion) w \<longrightarrow> (w, q) = (v, prg) \<or> 0 \<le> cmp v w)"
proof -
  let ?kv = "''v'' @ KernelMajorMinor kernelVersion"
  from assms(1,3) obtain v where f: "find (\<lambda>p. 0 \<le> cmp ?kv (fst p)) ps = Some (v, prg)" and ne: "prg \<noteq> []"
    by (auto simp: getProgram_def Let_def split: option.split_asm if_split_asm)
  from find_Some_split [OF f] obtain ys zs where ps: "ps = ys @ (v, prg) # zs"
    and v: "0 \<le> cmp ?kv v" and no: "\<forall>y \<in> set ys. \<not> 0 \<le> cmp ?kv (fst y)" by auto
  have "\<forall>z \<in> set zs. 0 \<le> cmp v (fst z)" using assms(2) by (simp add: ps sorted_wrt_append)
  then show ?thesis using ps v no ne by (intro exI [of _ v]) fastforce
qed

text \<open>Every program is attached once, and only one thing can go wrong. Attaching the programs of a
  collection panics exactly when a tracepoint's target has no slash; otherwise the tracer
  keeps, in the order of the specifications, the links of all tracepoints and kernel probes
  that could be attached, skips those that could not, and files each user-space probe's
  program under its name without attaching it.\<close>
theorem attach_programs_exact:
  "attach_programs api specs (new_tracer coll) =
     (if list_ex bad_tracepoint specs then Inl IndexOutOfRange
      else Inr ((new_tracer coll)
             \<lparr>links := List.map_filter (link_of api) specs,
              uprobes := map_of (rev (List.map_filter (uprobe_of api) specs))\<rparr>))"
  by (simp add: attach_programs_eq) (simp add: new_tracer_def)

text \<open>For the example: versions of two digits at fixed places.\<close>

definition digit_cmp :: "string \<Rightarrow> string \<Rightarrow> int" where
  "digit_cmp a b = 10 * (int (byte_val (a ! 1)) - int (byte_val (b ! 1))) + int (byte_val (a ! 3)) - int (byte_val (b ! 3))"

definition sample_os :: os_api where
  "sample_os = \<lparr>os_Open = (\<lambda>_. None), os_ReadFile = (\<lambda>_. Inr ''''), os_Scan = (\<lambda>_. Inr ''''), os_ReadDir = (\<lambda>_. Inr []),
     os_Readlink = (\<lambda>_. Inl ''ENOENT''), os_Stat = (\<lambda>_. None)\<rparr>"

lemma sample_release: "KernelMajorMinor ''5.4.0'' = ''5.4''"
  by code_simp

theorem getProgram_newest_witness:
  "\<exists>v. (v, ''mid'') \<in> set [(''v5.8'', ''new''), (''v5.2'', ''mid''), (''v4.1'', ''old'')] \<and>
     0 \<le> digit_cmp ''v5.4'' v"
proof -
  let ?ps = "[(''v5.8'', ''new''), (''v5.2'', ''mid''), (''v4.1'', ''old'')]"
  have s: "sorted_wrt (\<lambda>a b. 0 \<le> digit_cmp (fst a) (fst b)) ?ps"
    by (simp add: digit_cmp_def byte_val_def)
  have p: "getProgram digit_cmp sample_os [''amd64'' \<mapsto> ?ps] ''amd64'' ''5.4.0'' = Inr ''mid''"
    by (simp add: getProgram_def sample_release digit_cmp_def byte_val_def sample_os_def)
  have t: "[''amd64'' \<mapsto> ?ps] ''amd64'' = Some ?ps" by simp
  from getProgram_newest [OF t s p] show ?thesis by (auto simp: sample_release)
qed

definition reader_of :: "ebpf_api \<Rightarrow> perfEventMap \<Rightarrow> handle option" where
  "reader_of api pe =
     (case perf_NewReader api (pe_name pe) (pe_perCPUBufferSize pe) of Inl e \<Rightarrow> None | Inr r \<Rightarrow> Some r)"

definition resources :: "ebpf_api \<Rightarrow> handle \<Rightarrow> ProgramSpec list \<Rightarrow> perfEventMap list \<Rightarrow> handle set" where
  "resources api coll specs pes =
     insert coll (set (List.map_filter (link_of api) specs) \<union> snd ` set (List.map_filter (uprobe_of api) specs) \<union>
       set (List.map_filter (reader_of api) pes))"

text \<open>The tracer in the state in which opening the readers leaves it.\<close>

abbreviation left_tracer :: "(err \<times> EBPFTracer) + EBPFTracer \<Rightarrow> EBPFTracer" where
  "left_tracer x \<equiv> (case x of Inl e \<Rightarrow> snd e | Inr u \<Rightarrow> u)"

lemma open_readers_run:
  "distinct (map pe_name pes) \<Longrightarrow> dom (readers t) \<inter> pe_name ` set pes = {} \<Longrightarrow> open_readers api pes t = Inr x \<Longrightarrow>
   links (left_tracer x) = links t \<and> uprobes (left_tracer x) = uprobes t \<and>
   collection (left_tracer x) = collection t \<and>
   fst ` ran (readers (left_tracer x)) = fst ` ran (readers t) \<union>
     set (List.map_filter (reader_of api) (takeWhile (\<lambda>pe. reader_of api pe \<noteq> None) pes)) \<and>
   (isl x \<longleftrightarrow> (\<exists>pe \<in> set pes. reader_of api pe = None))"
proof (induction pes arbitrary: t)
  case Nil
  then show ?case by (auto simp: map_filter_simps)
next
  case (Cons pe pes)
  show ?case
  proof (cases "perf_NewReader api (pe_name pe) (pe_perCPUBufferSize pe)")
    case (Inl e)
    then show ?thesis using Cons.prems by (auto simp: go_bind_eq_Inr reader_of_def map_filter_simps)
  next
    case (Inr r)
    let ?t = "t\<lparr>readers := (readers t)(pe_name pe \<mapsto> (r, pe))\<rparr>"
    have new: "readers t (pe_name pe) = None" using Cons.prems(2) by auto
    have "ran (readers ?t) = insert (r, pe) (ran (readers t))"
      using ran_map_upd [where m = "readers t" and a = "pe_name pe" and b = "(r, pe)", OF new] by simp
    then have ran: "fst ` ran (readers ?t) = insert r (fst ` ran (readers t))" by simp
    have "dom (readers ?t) \<inter> pe_name ` set pes = {}" and "distinct (map pe_name pes)"
      using Cons.prems(1,2) by auto
    moreover have "open_readers api pes ?t = Inr x" using Cons.prems(3) Inr by simp
    ultimately have ih: "links (left_tracer x) = links ?t \<and> uprobes (left_tracer x) = uprobes ?t \<and>
       collection (left_tracer x) = collection ?t \<and>
       fst ` ran (readers (left_tracer x)) = fst ` ran (readers ?t) \<union>
         set (List.map_filter (reader_of api) (takeWhile (\<lambda>pe. reader_of api pe \<noteq> None) pes)) \<and>
       (isl x \<longleftrightarrow> (\<exists>pe \<in> set pes. reader_of api pe = None))"
      using Cons.IH [of ?t] by blast
    have one: "reader_of api pe = Some r" using Inr by (simp add: reader_of_def)
    show ?thesis using ih [unfolded ran] one by (simp add: map_filter_simps)
  qed
qed

lemma ran_uprobes: "ran (map_of (rev (List.map_filter (uprobe_of api) ss))) = snd ` set (List.map_filter (uprobe_of api) ss)"
proof -
  have fn: "p = coll_Program api n" if "(n, p) \<in> set (List.map_filter (uprobe_of api) ss)" for n p
    using that by (auto simp: uprobe_of_def map_filter_def split: if_splits)
  show ?thesis
  proof
    show "ran (map_of (rev (List.map_filter (uprobe_of api) ss))) \<subseteq> snd ` set (List.map_filter (uprobe_of api) ss)"
      by (force simp: ran_def dest: map_of_SomeD)
    show "snd ` set (List.map_filter (uprobe_of api) ss) \<subseteq> ran (map_of (rev (List.map_filter (uprobe_of api) ss)))"
    proof clarify
      fix n p assume in_ups: "(n, p) \<in> set (List.map_filter (uprobe_of api) ss)"
      then obtain q where q: "map_of (rev (List.map_filter (uprobe_of api) ss)) n = Some q"
        by (metis set_rev weak_map_of_SomeI)
      then have "q = p" using fn [of n q] fn [OF in_ups] map_of_SomeD [OF q] by simp
      with q show "snd (n, p) \<in> ran (map_of (rev (List.map_filter (uprobe_of api) ss)))" by (auto simp: ran_def)
    qed
  qed
qed

lemma perfEvenMaps_distinct: "distinct (map pe_name perfEvenMaps)"
  by (simp add: perfEvenMaps_def)

lemma open_readers_all:
  "list_all (\<lambda>pe. reader_of api pe \<noteq> None) pes \<Longrightarrow> \<exists>t'. open_readers api pes t = Inr (Inr t')"
  by (induction pes arbitrary: t) (auto simp: reader_of_def split: sum.splits)

lemma open_readers_panic: "open_readers api pes t = Inl pn \<Longrightarrow> perf_Close_nil api = Inl pn"
proof (induction pes arbitrary: t)
  case (Cons pe pes)
  then show ?case
    by (cases "perf_NewReader api (pe_name pe) (pe_perCPUBufferSize pe)"; cases "perf_Close_nil api") auto
qed simp

lemma open_readers_error: "open_readers api pes t = Inr (Inl e) \<Longrightarrow> perf_Close_nil api = Inr ()"
proof (induction pes arbitrary: t)
  case (Cons pe pes)
  then show ?case
    by (cases "perf_NewReader api (pe_name pe) (pe_perCPUBufferSize pe)"; cases "perf_Close_nil api") auto
qed simp

lemma open_readers_subscribers: "open_readers api pes t = Inr (Inr t') \<Longrightarrow> subscribers t' = subscribers t"
  by (induction api pes t rule: open_readers.induct) (auto split: sum.splits simp: go_bind_eq_Inr)

lemma NewTracer_loaded:
  assumes "getProgram cmp os table arch kv = Inr prog"
    and "LoadCollectionSpec api prog = Inr (spec, specs)" and "NewCollection api spec = Inr coll"
  shows "NewTracer cmp os table arch api kv =
    (if list_ex bad_tracepoint specs then Inl IndexOutOfRange
     else go_bind (open_readers api perfEvenMaps ((new_tracer coll)
         \<lparr>links := List.map_filter (link_of api) specs,
          uprobes := map_of (rev (List.map_filter (uprobe_of api) specs))\<rparr>)) (\<lambda>r.
       Inr (case r of Inl (err, t) \<Rightarrow> Inl (err, Some t) | Inr t \<Rightarrow> Inr t)))"
  using assms by (simp add: NewTracer_def attach_programs_exact)

text \<open>A new tracer has no subscribers.\<close>

lemma NewTracer_subscribers:
  assumes "NewTracer cmp os table arch api kv = Inr (Inr t)"
  shows "subscribers t = Map.empty"
proof -
  from assms obtain prog spec specs coll where "getProgram cmp os table arch kv = Inr prog"
    "LoadCollectionSpec api prog = Inr (spec, specs)" "NewCollection api spec = Inr coll"
    by (auto simp: NewTracer_def split: sum.split_asm)
  note n = NewTracer_loaded [OF this]
  let ?t = "(new_tracer coll)\<lparr>links := List.map_filter (link_of api) specs,
      uprobes := map_of (rev (List.map_filter (uprobe_of api) specs))\<rparr>"
  obtain x where o: "open_readers api perfEvenMaps ?t = Inr x"
    using assms by (cases "open_readers api perfEvenMaps ?t") (auto simp: n split: if_split_asm)
  with assms have "x = Inr t" by (cases x) (auto simp: n split: if_split_asm)
  with o show ?thesis using open_readers_subscribers [of api perfEvenMaps ?t t] by (simp add: new_tracer_def)
qed

text \<open>C29: What NewTracer opens, who can close it, and when it panics. Let the program be chosen, read and loaded. If a
  tracepoint's target has no slash, NewTracer panics. Otherwise, if the readers of all six perf maps
  can be opened, it returns a tracer whose Close closes exactly the collection, the links of the tracepoints
  and kernel probes that could be attached, the programs kept for user-space probes and the six readers.
  If a reader cannot be opened, the code calls Close on the nil reader: where the library panics on
  that, as one that locks the reader does, NewTracer panics; where it returns, NewTracer returns an
  error and drops a tracer that holds the collection, the same links and programs, and the readers
  opened before.\<close>
theorem tracer_resources:
  assumes "getProgram cmp os table arch kv = Inr prog"
    and "LoadCollectionSpec api prog = Inr (spec, specs)" and "NewCollection api spec = Inr coll"
  shows "if list_ex bad_tracepoint specs
    then NewTracer cmp os table arch api kv = Inl IndexOutOfRange
    else if list_all (\<lambda>pe. reader_of api pe \<noteq> None) perfEvenMaps
    then \<exists>t. NewTracer cmp os table arch api kv = Inr (Inr t) \<and> Close t = resources api coll specs perfEvenMaps
    else case perf_Close_nil api of
      Inl pn \<Rightarrow> NewTracer cmp os table arch api kv = Inl pn
    | Inr _ \<Rightarrow> \<exists>e t. NewTracer cmp os table arch api kv = Inr (Inl (e, Some t)) \<and>
        Close t = resources api coll specs (takeWhile (\<lambda>pe. reader_of api pe \<noteq> None) perfEvenMaps)"
proof -
  let ?t = "(new_tracer coll)\<lparr>links := List.map_filter (link_of api) specs,
      uprobes := map_of (rev (List.map_filter (uprobe_of api) specs))\<rparr>"
  note new = NewTracer_loaded [OF assms]
  have dom: "dom (readers ?t) \<inter> pe_name ` set perfEvenMaps = {}" by (simp add: new_tracer_def)
  note run = open_readers_run [OF perfEvenMaps_distinct dom]
  have close: "Close (left_tracer x) = resources api coll specs (takeWhile (\<lambda>pe. reader_of api pe \<noteq> None) perfEvenMaps)"
    if "open_readers api perfEvenMaps ?t = Inr x" for x
    using run [OF that] by (auto simp: Close_def resources_def new_tracer_def ran_uprobes)
  show ?thesis
  proof (cases "open_readers api perfEvenMaps ?t")
    case (Inl pn)
    then have "\<not> list_all (\<lambda>pe. reader_of api pe \<noteq> None) perfEvenMaps"
      using open_readers_all [of api perfEvenMaps ?t] by auto
    with Inl show ?thesis using open_readers_panic [OF Inl] by (simp add: new)
  next
    case (Inr x)
    show ?thesis
    proof (cases x)
      case (Inl e)
      then have "\<not> list_all (\<lambda>pe. reader_of api pe \<noteq> None) perfEvenMaps"
        using run [OF Inr] by (auto simp: list_all_iff)
      then show ?thesis
        using close [OF Inr] open_readers_error [OF Inr [unfolded Inl]] Inr Inl by (cases e) (simp add: new)
    next
      case (Inr u)
      then have all: "list_all (\<lambda>pe. reader_of api pe \<noteq> None) perfEvenMaps"
        using run [OF \<open>open_readers api perfEvenMaps ?t = Inr x\<close>] by (simp add: list_all_iff)
      then have tw: "takeWhile (\<lambda>pe. reader_of api pe \<noteq> None) perfEvenMaps = perfEvenMaps"
        by (simp add: takeWhile_eq_all_conv list_all_iff)
      have o: "open_readers api perfEvenMaps ?t = Inr (Inr u)"
        using \<open>open_readers api perfEvenMaps ?t = Inr x\<close> Inr by simp
      have "Close u = resources api coll specs perfEvenMaps" using close [OF o, unfolded tw] by simp
      with all o show ?thesis by (simp add: new)
    qed
  qed
qed

text \<open>For the example: a kernel probe, a user-space probe, and a reader for each map.\<close>

abbreviation (input) sample_specs :: "ProgramSpec list" where
  "sample_specs \<equiv>
     [\<lparr>ps_Name = ''inet_bind'', ps_Type = Kprobe, ps_AttachTo = ''inet_bind'', ps_SectionName = ''kprobe/inet_bind''\<rparr>,
      \<lparr>ps_Name = ''go_read'', ps_Type = Kprobe, ps_AttachTo = '''', ps_SectionName = ''uprobe/go_read''\<rparr>]"

definition sample_ebpf :: ebpf_api where
  "sample_ebpf = \<lparr>
     LoadCollectionSpec = (\<lambda>_. Inr (100, sample_specs)), NewCollection = (\<lambda>_. Inr 0), coll_Program = length,
     link_Tracepoint = (\<lambda>_ _ _. Inl ''EPERM''), link_Kprobe = (\<lambda>_ _. Inr 1),
     perf_NewReader = (\<lambda>name _. case map_of (zip (map pe_name perfEvenMaps) [10, 11, 12, 13, 14, 15]) name of
       None \<Rightarrow> Inl ''no map'' | Some r \<Rightarrow> Inr r),
     perf_Close_nil = Inl NilDereference\<rparr>"

definition new_program :: "string \<rightharpoonup> (string \<times> bytes) list" where
  "new_program = [''amd64'' \<mapsto> [(''v5.2'', ''prg'')]]"

lemma sample_getProgram: "getProgram digit_cmp sample_os new_program ''amd64'' ''5.4.0'' = Inr ''prg''"
  by (simp add: getProgram_def new_program_def sample_release digit_cmp_def byte_val_def sample_os_def)

lemma sample_load:
  "LoadCollectionSpec (sample_ebpf\<lparr>perf_NewReader := f\<rparr>) ''prg'' = Inr (100, sample_specs)"
  "NewCollection (sample_ebpf\<lparr>perf_NewReader := f\<rparr>) 100 = Inr 0"
  "LoadCollectionSpec sample_ebpf ''prg'' = Inr (100, sample_specs)" "NewCollection sample_ebpf 100 = Inr 0"
  by (simp_all add: sample_ebpf_def)

lemma sample_readers: "list_all (\<lambda>pe. reader_of sample_ebpf pe \<noteq> None) perfEvenMaps"
  by (simp add: reader_of_def sample_ebpf_def perfEvenMaps_def)

text \<open>The example opens all readers; if the third one fails, closing the nil reader panics.\<close>

definition two_readers :: "string \<Rightarrow> nat \<Rightarrow> err + handle" where
  "two_readers name bufsize = (if name \<in> pe_name ` set (take 2 perfEvenMaps) then Inr 10 else Inl ''EMFILE'')"

theorem tracer_resources_witness:
  "(\<exists>t. NewTracer digit_cmp sample_os new_program ''amd64'' sample_ebpf ''5.4.0'' = Inr (Inr t) \<and>
      Close t = {0, 1, 7, 10, 11, 12, 13, 14, 15}) \<and>
    NewTracer digit_cmp sample_os new_program ''amd64'' (sample_ebpf\<lparr>perf_NewReader := two_readers\<rparr>) ''5.4.0'' = Inl NilDereference"
proof
  have ok: "\<not> list_ex bad_tracepoint sample_specs" by (simp add: bad_tracepoint_def)
  have "resources sample_ebpf 0 sample_specs perfEvenMaps = {0, 1, 7, 10, 11, 12, 13, 14, 15}"
    by (auto simp: resources_def link_of_def uprobe_of_def reader_of_def has_prefix_def map_filter_simps
        sample_ebpf_def perfEvenMaps_def)
  then show "\<exists>t. NewTracer digit_cmp sample_os new_program ''amd64'' sample_ebpf ''5.4.0'' = Inr (Inr t) \<and>
      Close t = {0, 1, 7, 10, 11, 12, 13, 14, 15}"
    using tracer_resources [OF sample_getProgram sample_load(3,4)] ok sample_readers by simp
  have "\<not> list_all (\<lambda>pe. reader_of (sample_ebpf\<lparr>perf_NewReader := two_readers\<rparr>) pe \<noteq> None) perfEvenMaps"
    by (simp add: reader_of_def two_readers_def perfEvenMaps_def)
  moreover have "perf_Close_nil (sample_ebpf\<lparr>perf_NewReader := two_readers\<rparr>) = Inl NilDereference" by (simp add: sample_ebpf_def)
  ultimately show "NewTracer digit_cmp sample_os new_program ''amd64'' (sample_ebpf\<lparr>perf_NewReader := two_readers\<rparr>) ''5.4.0'' = Inl NilDereference"
    using tracer_resources [OF sample_getProgram sample_load(1,2) [of two_readers]] ok by (simp split: if_split_asm)
qed

end
