(* ===== verification/Connections.thy ===== *)
theory Connections
imports Container
begin

text \<open>
  Opening what the agent depends on: network namespaces (\<open>pkg/system/ns.go\<close>), the connection tracker
  (\<open>conntrack.go\<close>) and the container daemons (\<open>pkg/container/containerd.go\<close>, \<open>dockerd.go\<close>). The libraries'
  answers are arguments; next to a result, the namespace handles left open are kept.
\<close>

section \<open>Namespaces and the connection tracker\<close>

record netns_api =
  netns_GetFromPid :: "int \<Rightarrow> err + handle"
  netns_Get :: "err + handle"

definition GetNetNs :: "netns_api \<Rightarrow> u32 \<Rightarrow> err + handle" where
  "GetNetNs api pid = netns_GetFromPid api (uint pid)"

definition GetSelfNetNs :: "netns_api \<Rightarrow> err + handle" where
  "GetSelfNetNs api = netns_Get api"

definition GetHostNetNs :: "netns_api \<Rightarrow> err + handle" where
  "GetHostNetNs api = GetNetNs api 1"

record Conntrack =
  ct_client :: handle

definition NewHostNetConntrack ::
  "netns_api \<Rightarrow> (handle \<Rightarrow> err + handle) \<Rightarrow> (err + Conntrack) \<times> handle list" where
  "NewHostNetConntrack api conntrack_Open =
     (case GetHostNetNs api of
        Inl err \<Rightarrow> (Inl err, [])
      | Inr hostNetNs \<Rightarrow>
          (case conntrack_Open hostNetNs of
             Inl err \<Rightarrow> (Inl err, [hostNetNs])
           | Inr c \<Rightarrow> (Inr \<lparr>ct_client = c\<rparr>, [hostNetNs])))"

definition Conntrack_Close :: "(handle \<Rightarrow> err option) \<Rightarrow> Conntrack \<Rightarrow> err option" where
  "Conntrack_Close close c = close (ct_client c)"

text \<open>The handle of the host's namespace is never closed.\<close>

lemma NewHostNetConntrack_leaks:
  "fst (NewHostNetConntrack api open) = Inr c \<Longrightarrow>
    \<exists>h. GetHostNetNs api = Inr h \<and> snd (NewHostNetConntrack api open) = [h]"
  by (auto simp: NewHostNetConntrack_def split: sum.splits)

section \<open>Container daemons\<close>

definition containerd_socket :: bytes where
  "containerd_socket = ''/run/containerd/containerd.sock''"

text \<open>\<open>containerd_New\<close> answers for a socket with an error or a client, which may be nil.\<close>

definition NewContainerd :: "(bytes \<Rightarrow> err + handle option) \<Rightarrow> err + handle" where
  "NewContainerd containerd_New =
     (case containerd_New (ProcRootSubpath [containerd_socket]) of
        Inl err \<Rightarrow> Inl err
      | Inr None \<Rightarrow>
          Inl (''couldn't connect to containerd through the following UNIX sockets ['' @ containerd_socket @ '']: %!s(<nil>)'')
      | Inr (Some cli) \<Rightarrow> Inr cli)"

record docker_conn =
  NewClientWithOpts :: "bytes \<Rightarrow> err + handle"
  Ping :: "handle \<Rightarrow> err option"

definition NewDockerd :: "docker_conn \<Rightarrow> err + handle" where
  "NewDockerd api =
     (case NewClientWithOpts api (''unix://'' @ ProcRootSubpath [''/run/docker.sock'']) of
        Inl err \<Rightarrow> Inl err
      | Inr cli \<Rightarrow> (case Ping api cli of Some err \<Rightarrow> Inl err | None \<Rightarrow> Inr cli))"

end
