(* ===== verification/Agent_Start.thy ===== *)
theory Agent_Start
imports Container_Props Tracer_Program Connections
begin

text \<open>
  The start of the agent (\<open>NewContainerContext\<close> of \<open>pkg/container/container.go\<close>), composed of the parts
  that it creates: the root control group, the daemons' client, the tracer, the connection tracker, the subscriptions
  and the announcements of the processes that run.
\<close>

text \<open>The host and the libraries, as the start meets them.\<close>

record host_api =
  h_os :: os_api
  h_cgns :: cgns_api
  h_containerd_New :: "bytes \<Rightarrow> err + handle option"
  h_docker :: docker_conn
  h_semver_Compare :: "string \<Rightarrow> string \<Rightarrow> int"
  h_ebpfProg :: "string \<rightharpoonup> (string \<times> bytes) list"
  h_GOARCH :: string
  h_ebpf :: ebpf_api
  h_netns :: netns_api
  h_conntrack_Open :: "handle \<Rightarrow> err + handle"

text \<open>The clients that the provider asks for: whether containerd and Docker answer.\<close>

definition host_provider :: "host_api \<Rightarrow> client_kind option" where
  "host_provider h =
     NewContainerClientProvider (map_sum id (\<lambda>_. ()) (NewContainerd (h_containerd_New h)))
       (map_sum id (\<lambda>_. ()) (NewDockerd (h_docker h)))"

definition host_tracer :: "host_api \<Rightarrow> string \<Rightarrow> ((err \<times> EBPFTracer option) + EBPFTracer) go" where
  "host_tracer h kernelVersion =
     NewTracer (h_semver_Compare h) (h_os h) (h_ebpfProg h) (h_GOARCH h) (h_ebpf h) kernelVersion"

definition host_conntrack :: "host_api \<Rightarrow> err + Conntrack" where
  "host_conntrack h = fst (NewHostNetConntrack (h_netns h) (h_conntrack_Open h))"

text \<open>
  \<open>NewContainerContext\<close>, in the code's order. \<open>st\<close> is the thread's control group namespace and the
  variable \<open>GlobalCgroup\<close>; an error of \<open>InitCgroup\<close> is ignored, one of \<open>NewTracer\<close> is only logged, and its panic is the
  start's. The result is an error, or the context, the connection tracker, the
  tracer with its subscriptions, and the events that \<open>initContainer\<close> sends to the channel
  \<open>events\<close> before the function returns.
\<close>

definition NewContainerContext ::
  "'ip netaddr_api \<Rightarrow> host_api \<Rightarrow> handle \<Rightarrow> string \<Rightarrow> nat \<times> bytes \<Rightarrow>
   (nat \<times> bytes) \<times> (err + 'ip ContainerContext \<times> Conntrack \<times> EBPFTracer \<times> 'ip Event list) go" where
  "NewContainerContext na h events kernelVersion st =
     (let st' = snd (InitCgroup (h_cgns h) st);
          p = host_provider h
      in (st',
          go_bind (host_tracer h kernelVersion) (\<lambda>newTracer.
          let tracer = (case newTracer of Inl err \<Rightarrow> None | Inr t \<Rightarrow> Some t)
          in case host_conntrack h of
               Inl err \<Rightarrow> Inr (Inl err)
             | Inr conntrack \<Rightarrow>
                 go_bind (ebpfEventSubscribe tracer events) (\<lambda>t.
                   Inr (Inr (empty_context p, conntrack, t, initContainer na (h_os h)))))))"

lemma NewContainerContext_cases:
  "snd (NewContainerContext na h events kv st) =
   (case host_tracer h kv of
      Inl pn \<Rightarrow> Inl pn
    | Inr newTracer \<Rightarrow>
        (case host_conntrack h of
           Inl err \<Rightarrow> Inr (Inl err)
         | Inr conntrack \<Rightarrow>
             (case newTracer of
                Inl err \<Rightarrow> Inl NilDereference
              | Inr t \<Rightarrow> go_bind (ebpfEventSubscribe (Some t) events) (\<lambda>t.
                  Inr (Inr (empty_context (host_provider h), conntrack, t, initContainer na (h_os h)))))))"
  by (simp add: NewContainerContext_def Let_def ebpfEventSubscribe_def deref_def split: sum.split)

text \<open>A start that succeeds.\<close>

lemma NewContainerContext_success:
  assumes "snd (NewContainerContext na h events kv st) = Inr (Inr (ctx, ct, t', first))"
  shows "ctx = empty_context (host_provider h)" and "first = initContainer na (h_os h)" and "host_conntrack h = Inr ct"
    and "\<exists>t. host_tracer h kv = Inr (Inr t)"
    and "tracer_listeners t' ty = (if ty \<in> {1, 2, 3, 4, 5, 6, 7, 8, 9, 10} then [events] else [])"
proof -
  from assms obtain t where t: "host_tracer h kv = Inr (Inr t)"
    and r: "ctx = empty_context (host_provider h)" "first = initContainer na (h_os h)" "host_conntrack h = Inr ct"
    and s: "ebpfEventSubscribe (Some t) events = Inr t'"
    by (auto simp: NewContainerContext_cases go_bind_eq_Inr split: sum.split_asm)
  from ebpfEventSubscribe_listeners [of t events] s
  have "tracer_listeners t' ty =
      tracer_listeners t ty @ (if ty \<in> {1, 2, 3, 4, 5, 6, 7, 8, 9, 10} then [events] else [])" by auto
  moreover have "tracer_listeners t ty = []"
    using NewTracer_subscribers [OF t [unfolded host_tracer_def]] by (simp add: tracer_listeners_def map_get_def)
  ultimately show "tracer_listeners t' ty = (if ty \<in> {1, 2, 3, 4, 5, 6, 7, 8, 9, 10} then [events] else [])" by simp
  show "ctx = empty_context (host_provider h)" "first = initContainer na (h_os h)" "host_conntrack h = Inr ct"
    "\<exists>t. host_tracer h kv = Inr (Inr t)"
    using r t by auto
qed

text \<open>C22: Starting the agent's container context. It panics exactly when creating the tracer panics, or when the tracer
  could not be created (an unsupported kernel, say) and the connection tracker could be opened: the
  failure is only logged, and the subscription then goes through the nil tracer. It returns an
  error exactly when the tracer does not panic and the connection tracker cannot be opened. In
  every other case the context starts without containers, with the client of the daemon that answered; the new
  tracer has the channel subscribed once to each of the ten event types and to no other, and nothing else;
  and what is sent to the channel are starts of the processes that run.\<close>
theorem context_start:
  "((\<exists>pn. snd (NewContainerContext na h events kv st) = Inl pn) \<longleftrightarrow>
      (\<exists>pn. host_tracer h kv = Inl pn) \<or>
      (\<exists>err ct. host_tracer h kv = Inr (Inl err) \<and> host_conntrack h = Inr ct)) \<and>
   ((\<exists>err. snd (NewContainerContext na h events kv st) = Inr (Inl err)) \<longleftrightarrow>
      (\<exists>r err. host_tracer h kv = Inr r \<and> host_conntrack h = Inl err)) \<and>
   (\<forall>ctx ct t' first. snd (NewContainerContext na h events kv st) = Inr (Inr (ctx, ct, t', first)) \<longrightarrow>
      ctx = empty_context (host_provider h) \<and> host_conntrack h = Inr ct \<and>
      (\<forall>ty. map_get [] (subscribers t') ty = (if ty \<in> {1, 2, 3, 4, 5, 6, 7, 8, 9, 10} then [events] else [])) \<and>
      first = initContainer na (h_os h) \<and> list_all (\<lambda>e. Type e = EventTypeProcessStart) first)"
proof (intro conjI allI impI)
  have s: "go_bind (ebpfEventSubscribe (Some t) events) (\<lambda>t. Inr (f t)) \<noteq> Inl pn" for t f pn
    using ebpfEventSubscribe_listeners [of t events] by auto
  have n: "go_bind (ebpfEventSubscribe (Some t) events) (\<lambda>t. Inr (Inr (f t))) \<noteq> Inr (Inl err)" for t f err
    using ebpfEventSubscribe_listeners [of t events] by auto
  show "(\<exists>pn. snd (NewContainerContext na h events kv st) = Inl pn) \<longleftrightarrow>
      (\<exists>pn. host_tracer h kv = Inl pn) \<or>
      (\<exists>err ct. host_tracer h kv = Inr (Inl err) \<and> host_conntrack h = Inr ct)"
    unfolding NewContainerContext_cases by (simp add: s split: sum.split)
  show "(\<exists>err. snd (NewContainerContext na h events kv st) = Inr (Inl err)) \<longleftrightarrow>
      (\<exists>r err. host_tracer h kv = Inr r \<and> host_conntrack h = Inl err)"
    unfolding NewContainerContext_cases by (simp add: n split: sum.split)
next
  fix ctx ct t' first ty
  assume r: "snd (NewContainerContext na h events kv st) = Inr (Inr (ctx, ct, t', first))"
  note k = NewContainerContext_success [OF r]
  show "ctx = empty_context (host_provider h)" "host_conntrack h = Inr ct" "first = initContainer na (h_os h)"
    using k by auto
  show "map_get [] (subscribers t') ty = (if ty \<in> {1, 2, 3, 4, 5, 6, 7, 8, 9, 10} then [events] else [])"
    using k(5) by (simp add: tracer_listeners_def)
  show "list_all (\<lambda>e. Type e = EventTypeProcessStart) first"
    by (auto simp: k(2) initContainer_def list_all_iff split: sum.split)
qed

text \<open>A host for the examples: the tracer's of \<open>sample_ebpf\<close>, Docker answers, and no process runs.\<close>

definition sample_host :: host_api where
  "sample_host = \<lparr>
     h_os = sample_os, h_cgns = \<lparr>ns_GetFromPath = (\<lambda>_. Inr 1), ns_Setns = (\<lambda>_. None), ns_os = (\<lambda>_. sample_os)\<rparr>,
     h_containerd_New = (\<lambda>_. Inl ''no socket''), h_docker = \<lparr>NewClientWithOpts = (\<lambda>_. Inr 1), Ping = (\<lambda>_. None)\<rparr>,
     h_semver_Compare = digit_cmp, h_ebpfProg = new_program, h_GOARCH = ''amd64'', h_ebpf = sample_ebpf,
     h_netns = \<lparr>netns_GetFromPid = (\<lambda>_. Inr 2), netns_Get = Inr 2\<rparr>, h_conntrack_Open = (\<lambda>_. Inr 3)\<rparr>"

lemma sample_host_tracer: "\<exists>t. host_tracer sample_host ''5.4.0'' = Inr (Inr t)"
proof -
  have "\<not> list_ex bad_tracepoint sample_specs" by (simp add: bad_tracepoint_def)
  moreover obtain t where "open_readers sample_ebpf perfEvenMaps ((new_tracer 0)
         \<lparr>links := List.map_filter (link_of sample_ebpf) sample_specs,
          uprobes := map_of (rev (List.map_filter (uprobe_of sample_ebpf) sample_specs))\<rparr>) = Inr (Inr t)"
    using open_readers_all [OF sample_readers] by blast
  ultimately show ?thesis
    using NewTracer_loaded [OF sample_getProgram sample_load(3,4)] by (simp add: host_tracer_def sample_host_def)
qed

lemma sample_host_start:
  "\<exists>ct t'. snd (NewContainerContext na sample_host events ''5.4.0'' st) =
     Inr (Inr (empty_context (Some DockerdClient), ct, t', []))"
proof -
  obtain t where t: "host_tracer sample_host ''5.4.0'' = Inr (Inr t)" using sample_host_tracer by blast
  obtain t' where "ebpfEventSubscribe (Some t) events = Inr t'" using ebpfEventSubscribe_listeners by blast
  moreover have "host_conntrack sample_host = Inr \<lparr>ct_client = 3\<rparr>"
    by (simp add: host_conntrack_def NewHostNetConntrack_def GetHostNetNs_def GetNetNs_def sample_host_def)
  moreover have "host_provider sample_host = Some DockerdClient"
    by (simp add: host_provider_def NewContainerClientProvider_def NewContainerd_def NewDockerd_def sample_host_def)
  moreover have "initContainer na (h_os sample_host) = []"
    by (simp add: initContainer_def GetAllPids_def sample_host_def sample_os_def)
  ultimately show ?thesis by (simp add: NewContainerContext_cases t)
qed

theorem context_start_witness:
  "\<exists>ct t'. snd (NewContainerContext bytes_netaddr sample_host 9 ''5.4.0'' (1, ''/'')) =
      Inr (Inr (empty_context (Some DockerdClient), ct, t', [])) \<and>
    map_get [] (subscribers t') 3 = [9] \<and> map_get [] (subscribers t') 11 = []"
proof -
  obtain ct t' where r: "snd (NewContainerContext bytes_netaddr sample_host 9 ''5.4.0'' (1, ''/'')) =
      Inr (Inr (empty_context (Some DockerdClient), ct, t', []))"
    using sample_host_start by blast
  with context_start [of bytes_netaddr sample_host 9 "''5.4.0''" "(1, ''/'')"]
  have "\<forall>ty. map_get [] (subscribers t') ty = (if ty \<in> {1, 2, 3, 4, 5, 6, 7, 8, 9, 10} then [9] else [])" by blast
  then show ?thesis using r by (intro exI [of _ ct] exI [of _ t']) simp
qed

end
