(* ===== verification/Open_Files.thy ===== *)
theory Open_Files
imports Sys_Net
begin

text \<open>
  \<open>pkg/ebpftracer/init.go\<close>: the files and sockets that are open when the agent starts, found through
  the descriptors of all processes and the socket tables of their network namespaces.
\<close>

section \<open>What is open at the start\<close>

record 'ip sock = "'ip Sock" +
  sk_pid :: u32
  sk_fd :: u64

type_synonym open_file = "u32 \<times> u64"

text \<open>
  The sockets of a namespace by inode, as \<open>readFds\<close> caches them: when they cannot be read, no socket is
  known for the namespace.
\<close>

definition ns_sockets :: "os_api \<Rightarrow> 'ip netaddr_api \<Rightarrow> u32 \<Rightarrow> (bytes \<rightharpoonup> 'ip Sock) go" where
  "ns_sockets os na pid =
     go_bind (GetSockets os na pid) (\<lambda>(ss, err).
       Inr (case err of Some e \<Rightarrow> Map.empty | None \<Rightarrow> fold (\<lambda>s m. m(Inode s \<mapsto> s)) ss Map.empty))"

definition classify_fd :: "u32 \<Rightarrow> (bytes \<rightharpoonup> 'ip Sock) \<Rightarrow> Fd \<Rightarrow> open_file list \<times> 'ip sock list" where
  "classify_fd pid sockets fd =
     (if fd_SocketInode fd \<noteq> '''' then
        (case sockets (fd_SocketInode fd) of
           None \<Rightarrow> ([], [])
         | Some s \<Rightarrow> ([], [Sock.extend s (sock.fields pid (fd_Fd fd))]))
      else if has_prefix (fd_Dest fd) ''/'' then ([(pid, fd_Fd fd)], [])
      else ([], []))"

text \<open>\<open>netns pid\<close> is the unique id of the process's network namespace, or an error.\<close>

fun readFds ::
  "os_api \<Rightarrow> 'ip netaddr_api \<Rightarrow> (u32 \<Rightarrow> err + string) \<Rightarrow> (string \<rightharpoonup> (bytes \<rightharpoonup> 'ip Sock)) \<Rightarrow> u32 list \<Rightarrow>
   (open_file list \<times> 'ip sock list) go" where
  "readFds os na netns nss [] = Inr ([], [])"
| "readFds os na netns nss (pid # pids) =
     (case netns pid of
        Inl e \<Rightarrow> readFds os na netns nss pids
      | Inr nsId \<Rightarrow>
          go_bind (case nss nsId of Some sockets \<Rightarrow> Inr sockets | None \<Rightarrow> ns_sockets os na pid) (\<lambda>sockets.
          go_bind (ReadFds os pid) (\<lambda>fds.
          go_bind (readFds os na netns (nss(nsId \<mapsto> sockets)) pids) (\<lambda>(files, socks).
            case fds of
              Inl e \<Rightarrow> Inr (files, socks)
            | Inr fds \<Rightarrow>
                Inr (concat (map (fst \<circ> classify_fd pid sockets) fds) @ files,
                     concat (map (snd \<circ> classify_fd pid sockets) fds) @ socks)))))"

section \<open>A reference without the cache\<close>

text \<open>
  What one process has open, with the sockets of its namespace taken from the socket table of the process
  \<open>source pid\<close>; and the open files of all processes, one process after the other.
\<close>

definition open_of ::
  "os_api \<Rightarrow> 'ip netaddr_api \<Rightarrow> (u32 \<Rightarrow> err + string) \<Rightarrow> (u32 \<Rightarrow> u32) \<Rightarrow> u32 \<Rightarrow> (open_file list \<times> 'ip sock list) go" where
  "open_of os na netns source pid =
     (case netns pid of
        Inl e \<Rightarrow> Inr ([], [])
      | Inr nsId \<Rightarrow>
          go_bind (ns_sockets os na (source pid)) (\<lambda>sockets.
          go_bind (ReadFds os pid) (\<lambda>fds.
            Inr (case fds of
                   Inl e \<Rightarrow> ([], [])
                 | Inr fds \<Rightarrow>
                     (concat (map (fst \<circ> classify_fd pid sockets) fds),
                      concat (map (snd \<circ> classify_fd pid sockets) fds))))))"

fun open_all :: "(u32 \<Rightarrow> ('a list \<times> 'b list) go) \<Rightarrow> u32 list \<Rightarrow> ('a list \<times> 'b list) go" where
  "open_all f [] = Inr ([], [])"
| "open_all f (pid # pids) =
     go_bind (f pid) (\<lambda>(files, socks).
     go_bind (open_all f pids) (\<lambda>(files', socks').
       Inr (files @ files', socks @ socks')))"

text \<open>The first process of the list that shares a process's namespace.\<close>

definition first_in_ns :: "(u32 \<Rightarrow> err + string) \<Rightarrow> u32 list \<Rightarrow> u32 \<Rightarrow> u32" where
  "first_in_ns netns pids pid =
     (case find (\<lambda>q. netns q = netns pid) pids of None \<Rightarrow> pid | Some q \<Rightarrow> q)"

lemma find_append: "find P (xs @ ys) = (case find P xs of None \<Rightarrow> find P ys | Some x \<Rightarrow> Some x)"
  by (induction xs) simp_all

lemma open_all_cong: "(\<And>p. p \<in> set pids \<Longrightarrow> f p = g p) \<Longrightarrow> open_all f pids = open_all g pids"
  by (induction pids) simp_all

text \<open>What the cache holds after the processes \<open>seen\<close>.\<close>

definition cache_ok ::
  "os_api \<Rightarrow> 'ip netaddr_api \<Rightarrow> (u32 \<Rightarrow> err + string) \<Rightarrow> u32 list \<Rightarrow> (string \<rightharpoonup> (bytes \<rightharpoonup> 'ip Sock)) \<Rightarrow> bool" where
  "cache_ok os na netns seen nss \<longleftrightarrow>
     (\<forall>i. map_option (ns_sockets os na) (find (\<lambda>q. netns q = Inr i) seen) = map_option Inr (nss i))"

lemma cache_ok_empty: "cache_ok os na netns [] Map.empty"
  by (simp add: cache_ok_def)

lemma find_snoc: "find P (xs @ [y]) = (case find P xs of None \<Rightarrow> if P y then Some y else None | Some x \<Rightarrow> Some x)"
  by (cases "find P xs") (simp_all add: find_append)

lemma cache_ok_no_ns:
  assumes "netns pid = Inl e" and "cache_ok os na netns seen nss"
  shows "cache_ok os na netns (seen @ [pid]) nss"
proof -
  have "find (\<lambda>q. netns q = Inr i) (seen @ [pid]) = find (\<lambda>q. netns q = Inr i) seen" for i
    using assms(1) by (simp add: find_snoc split: option.split)
  with assms(2) show ?thesis by (simp add: cache_ok_def)
qed

lemma cache_ok_ns:
  assumes "netns pid = Inr i" and "cache_ok os na netns seen nss"
    and "ns_sockets os na (first_in_ns netns (seen @ [pid]) pid) = Inr s"
  shows "cache_ok os na netns (seen @ [pid]) (nss(i \<mapsto> s))"
proof -
  have "map_option (ns_sockets os na) (find (\<lambda>q. netns q = Inr k) (seen @ [pid])) = map_option Inr ((nss(i \<mapsto> s)) k)" for k
  proof (cases "k = i")
    case True
    then show ?thesis using assms(1,3)
      by (cases "find (\<lambda>q. netns q = Inr i) seen") (simp_all add: first_in_ns_def find_snoc)
  next
    case False
    then have "find (\<lambda>q. netns q = Inr k) (seen @ [pid]) = find (\<lambda>q. netns q = Inr k) seen"
      using assms(1) by (simp add: find_snoc split: option.split)
    then show ?thesis using False assms(2) by (simp add: cache_ok_def)
  qed
  then show ?thesis by (simp add: cache_ok_def)
qed

lemma cache_lookup:
  assumes "netns pid = Inr i" and "cache_ok os na netns seen nss"
  shows "(case nss i of Some s \<Rightarrow> Inr s | None \<Rightarrow> ns_sockets os na pid) =
    ns_sockets os na (first_in_ns netns (seen @ pid # pids) pid)"
proof -
  have "map_option (ns_sockets os na) (find (\<lambda>q. netns q = Inr i) seen) = map_option Inr (nss i)"
    using assms(2) by (simp add: cache_ok_def)
  then show ?thesis using assms(1)
    by (cases "nss i"; cases "find (\<lambda>q. netns q = Inr i) seen") (simp_all add: first_in_ns_def find_append)
qed

lemma readFds_cached:
  "cache_ok os na netns seen nss \<Longrightarrow>
   readFds os na netns nss pids = open_all (open_of os na netns (first_in_ns netns (seen @ pids))) pids"
proof (induction pids arbitrary: seen nss)
  case (Cons pid pids)
  show ?case
  proof (cases "netns pid")
    case (Inl e)
    have "readFds os na netns nss pids = open_all (open_of os na netns (first_in_ns netns (seen @ pid # pids))) pids"
      using Cons.IH [OF cache_ok_no_ns [of netns, OF Inl Cons.prems]] by simp
    moreover have "open_of os na netns (first_in_ns netns (seen @ pid # pids)) pid = Inr ([], [])"
      by (simp add: open_of_def Inl)
    ultimately show ?thesis
      by (cases "open_all (open_of os na netns (first_in_ns netns (seen @ pid # pids))) pids") (auto simp: Inl)
  next
    case (Inr i)
    let ?src = "first_in_ns netns (seen @ pid # pids)"
    have eq: "first_in_ns netns (seen @ [pid]) pid = ?src pid"
      by (simp add: first_in_ns_def find_append split: option.split)
    have rest: "readFds os na netns (nss(i \<mapsto> s)) pids = open_all (open_of os na netns ?src) pids"
      if "ns_sockets os na (?src pid) = Inr s" for s
    proof -
      have "ns_sockets os na (first_in_ns netns (seen @ [pid]) pid) = Inr s" using that by (simp only: eq)
      from Cons.IH [OF cache_ok_ns [OF Inr Cons.prems this]] show ?thesis
        by (simp only: append_assoc append_Cons append_Nil)
    qed
    have one: "open_of os na netns ?src pid =
        go_bind (ns_sockets os na (?src pid)) (\<lambda>sockets.
        go_bind (ReadFds os pid) (\<lambda>fds.
          Inr (case fds of
                 Inl e \<Rightarrow> ([], [])
               | Inr fds \<Rightarrow>
                   (concat (map (fst \<circ> classify_fd pid sockets) fds),
                    concat (map (snd \<circ> classify_fd pid sockets) fds)))))"
      by (simp add: open_of_def Inr)
    show ?thesis
      by (cases "ns_sockets os na (?src pid)"; cases "ReadFds os pid"; cases "open_all (open_of os na netns ?src) pids")
        (auto simp: cache_lookup [OF Inr Cons.prems, of pids] Inr one rest split: sum.split prod.split)
  qed
qed simp

section \<open>Properties\<close>

text \<open>C28: The cache of socket tables is exact. For any processes, sockets and namespaces, reading the descriptors with
  the cache gives what a plain pass over the processes gives that looks up each process's
  sockets in the table of the first process of its namespace: the same files and sockets, in
  the same order, and the same panic if there is one.\<close>
theorem readFds_by_first:
  "readFds os na netns Map.empty pids = open_all (open_of os na netns (first_in_ns netns pids)) pids"
  using readFds_cached [OF cache_ok_empty, of os na netns pids] by simp

lemma readFds_transparent:
  assumes "\<And>p q i. p \<in> set pids \<Longrightarrow> q \<in> set pids \<Longrightarrow> netns p = Inr i \<Longrightarrow> netns q = Inr i \<Longrightarrow>
    ns_sockets os na p = ns_sockets os na q"
  shows "readFds os na netns Map.empty pids = open_all (open_of os na netns (\<lambda>pid. pid)) pids"
proof -
  have "open_of os na netns (first_in_ns netns pids) p = open_of os na netns (\<lambda>pid. pid) p" if "p \<in> set pids" for p
  proof (cases "find (\<lambda>q. netns q = netns p) pids")
    case (Some q)
    then have "q \<in> set pids" and "netns q = netns p" by (auto simp: find_Some_iff)
    then have "ns_sockets os na q = ns_sockets os na p" if "netns p = Inr i" for i
      using assms [of q p i] that \<open>p \<in> set pids\<close> by simp
    moreover have "first_in_ns netns pids p = q" using Some by (simp add: first_in_ns_def)
    ultimately show ?thesis by (cases "netns p") (simp_all add: open_of_def)
  next
    case None
    then have "first_in_ns netns pids p = p" by (simp add: first_in_ns_def)
    then show ?thesis by (cases "netns p") (simp_all add: open_of_def)
  qed
  then have "open_all (open_of os na netns (first_in_ns netns pids)) pids = open_all (open_of os na netns (\<lambda>pid. pid)) pids"
    by (rule open_all_cong)
  then show ?thesis using readFds_cached [OF cache_ok_empty, of os na netns pids] by simp
qed

lemma ns_sockets_error: "GetSockets os na p = Inr (ss, Some e) \<Longrightarrow> ns_sockets os na p = Inr Map.empty"
  by (simp add: ns_sockets_def)

lemma classify_fd_pid: "s \<in> set (snd (classify_fd pid sockets fd)) \<Longrightarrow> sk_pid s = pid"
  by (simp add: classify_fd_def Sock.extend_def sock.fields_def split: option.split_asm if_split_asm)

lemma classify_fd_unknown: "snd (classify_fd pid Map.empty fd) = []"
  by (simp add: classify_fd_def)

lemma open_of_sock:
  assumes "open_of os na netns source pid = Inr (files, socks)" and "s \<in> set socks"
  shows "sk_pid s = pid" and "\<not> ns_sockets os na (source pid) = Inr Map.empty"
proof -
  obtain i where i: "netns pid = Inr i" using assms by (cases "netns pid") (simp_all add: open_of_def)
  obtain m where m: "ns_sockets os na (source pid) = Inr m"
    using assms i by (cases "ns_sockets os na (source pid)") (simp_all add: open_of_def)
  obtain fds where "ReadFds os pid = Inr (Inr fds)"
  proof (cases "ReadFds os pid")
    case (Inr r)
    then show ?thesis using assms i m that by (cases r) (simp_all add: open_of_def)
  qed (use assms i m in \<open>simp add: open_of_def\<close>)
  with assms i m have socks: "socks = concat (map (snd \<circ> classify_fd pid m) fds)" by (simp add: open_of_def)
  with assms(2) show "sk_pid s = pid" by (auto dest: classify_fd_pid)
  from socks assms(2) show "\<not> ns_sockets os na (source pid) = Inr Map.empty"
    by (auto simp: m classify_fd_unknown)
qed

lemma open_all_socks:
  "open_all f pids = Inr (files, socks) \<Longrightarrow> s \<in> set socks \<Longrightarrow>
   \<exists>p \<in> set pids. \<exists>fs ss. f p = Inr (fs, ss) \<and> s \<in> set ss"
  by (induction pids arbitrary: files socks) (auto simp: go_bind_eq_Inr)

text \<open>One unreadable table hides a whole namespace. When the socket tables of the first process of a
  network namespace cannot be read completely (it has just exited, or the kernel has no table
  of IPv6 sockets), no socket of any process of this namespace is reported, even if the
  tables of the others, or the table of IPv4 sockets, can be read.\<close>
theorem readFds_hidden_namespace:
  assumes "readFds os na netns Map.empty pids = Inr (files, socks)"
    and "GetSockets os na (first_in_ns netns pids p) = Inr (ss, Some e)"
  shows "filter (\<lambda>s. sk_pid s = p) socks = []"
proof (rule ccontr)
  assume "filter (\<lambda>s. sk_pid s = p) socks \<noteq> []"
  then obtain s where p: "sk_pid s = p" and in_socks: "s \<in> set socks" by (auto simp: filter_empty_conv)
  have "open_all (open_of os na netns (first_in_ns netns pids)) pids = Inr (files, socks)"
    using assms(1) readFds_cached [OF cache_ok_empty, of os na netns pids] by simp
  from open_all_socks [OF this in_socks] obtain q fs sq
    where q: "open_of os na netns (first_in_ns netns pids) q = Inr (fs, sq)" and s: "s \<in> set sq" by blast
  from open_of_sock [OF q s] p ns_sockets_error [OF assms(2)] show False by simp
qed

text \<open>For the examples: two processes of one namespace, the first of which has lost its socket table.\<close>

definition two_os :: "bytes \<Rightarrow> os_api" where
  "two_os lost = \<lparr>os_Open = (\<lambda>_. None),
     os_ReadFile = (\<lambda>_. Inl ''ENOENT''),
     os_Scan = (\<lambda>f. if f = lost then Inl ''ENOENT''
        else if f = ''/proc/1/net/tcp'' \<or> f = ''/proc/2/net/tcp''
        then Inr (''sl'' @ [CHR ''\<newline>''] @ ''0: 0100007F:1F90 00000000:0000 0A 0:0 00:0 0 0 0 77 1'')
        else Inr ''sl''),
     os_ReadDir = (\<lambda>d. if d = ''/proc/2/fd'' then Inr [(''3'', False), (''4'', False)] else Inr []),
     os_Readlink = (\<lambda>f. if f = ''/proc/2/fd/3'' then Inr ''socket:[77]'' else Inr ''/var/log/x''),
     os_Stat = (\<lambda>_. None)\<rparr>"

abbreviation (input) one_ns :: "u32 \<Rightarrow> err + string" where "one_ns \<equiv> (\<lambda>_. Inr ''net'')"

lemma two_os_paths:
  "Path 1 [''net'', ''tcp''] = ''/proc/1/net/tcp''" "Path 1 [''net'', ''tcp6''] = ''/proc/1/net/tcp6''"
  "Path 2 [''net'', ''tcp''] = ''/proc/2/net/tcp''" "Path 2 [''net'', ''tcp6''] = ''/proc/2/net/tcp6''"
  "Path 1 [''fd''] = ''/proc/1/fd''" "Path 2 [''fd''] = ''/proc/2/fd''"
  "path_Join [''/proc/2/fd'', ''3''] = ''/proc/2/fd/3''" "path_Join [''/proc/2/fd'', ''4''] = ''/proc/2/fd/4''"
  by code_simp+

lemma two_os_answers:
  "os_ReadDir (two_os lost) ''/proc/1/fd'' = Inr []"
  "os_ReadDir (two_os lost) ''/proc/2/fd'' = Inr [(''3'', False), (''4'', False)]"
  "os_Readlink (two_os lost) ''/proc/2/fd/3'' = Inr ''socket:[77]''"
  "os_Readlink (two_os lost) ''/proc/2/fd/4'' = Inr ''/var/log/x''"
  by (simp_all add: two_os_def)

lemma digit_bytes:
  "byte_val (CHR ''0'') = 48" "byte_val (CHR ''1'') = 49" "byte_val (CHR ''3'') = 51" "byte_val (CHR ''4'') = 52"
  "byte_val (CHR ''7'') = 55" "byte_val (CHR ''9'') = 57" "byte_val (CHR ''F'') = 70"
  by (simp_all add: byte_val_def)

lemma two_os_evals:
  "parse_uint 10 64 ''3'' = Inr 3" "parse_uint 10 64 ''4'' = Inr 4" "socket_inode ''/var/log/x'' = Inr ''''"
  by (simp_all add: go_defs digit_bytes socket_inode_def has_prefix_def)

lemma two_os_fds: "ReadFds (two_os lost) 1 = Inr (Inr [])"
  "ReadFds (two_os lost) 2 = Inr (Inr [\<lparr>fd_Fd = 3, fd_Dest = ''socket:[77]'', fd_SocketInode = ''77''\<rparr>,
     \<lparr>fd_Fd = 4, fd_Dest = ''/var/log/x'', fd_SocketInode = ''''\<rparr>])"
  using socket_inode_link [of "''77''"]
  by (simp_all add: ReadFds_def two_os_paths two_os_answers two_os_evals)

lemma no_cr: "CHR ''l'' \<noteq> byte_of 13" "CHR ''1'' \<noteq> byte_of 13"
  by code_simp+

lemma two_os_lines:
  "scan_lines (''sl'' @ [CHR ''\<newline>''] @ ''0: 0100007F:1F90 00000000:0000 0A 0:0 00:0 0 0 0 77 1'') =
    [''sl'', ''0: 0100007F:1F90 00000000:0000 0A 0:0 00:0 0 0 0 77 1'']"
  "scan_lines ''sl'' = [''sl'']"
  by (simp_all add: scan_lines_def go_defs drop_cr_def no_cr)

lemma two_os_ports:
  "word_of_nat (be_nat [byte_of 31, byte_of 144]) = (8080 :: u16)"
  "word_of_nat (be_nat [byte_of 0, byte_of 0]) = (0 :: u16)"
  by (simp_all add: be_nat_def)

abbreviation (input) sock_77 :: "bytes Sock" where
  "sock_77 \<equiv> \<lparr>Inode = ''77'', SAddr = (map byte_of [127, 0, 0, 1], 8080), DAddr = (map byte_of [0, 0, 0, 0], 0), Listen = True\<rparr>"

lemma two_os_addrs:
  "decodeAddr bytes_netaddr ''0100007F:1F90'' = Inr (map byte_of [127, 0, 0, 1], 8080)"
  "decodeAddr bytes_netaddr ''00000000:0000'' = Inr (map byte_of [0, 0, 0, 0], 0)"
  by (simp_all add: decodeAddr_def go_defs hex_val_def digit_bytes bytes_netaddr_def swap_word two_os_ports
      del: le_bytes.simps)

lemma two_os_line:
  "sock_line bytes_netaddr ''0: 0100007F:1F90 00000000:0000 0A 0:0 00:0 0 0 0 77 1'' = Inr (Some sock_77)"
  by (simp add: sock_line_def nextField_def stateListen_def stateEstablished_def two_os_addrs [simplified])

lemma two_os_sockets:
  "GetSockets (two_os ''/proc/1/net/tcp6'') bytes_netaddr 1 = Inr ([sock_77], Some ''ENOENT'')"
  "GetSockets (two_os ''/proc/1/net/tcp6'') bytes_netaddr 2 = Inr ([sock_77], None)"
  by (simp_all add: GetSockets_def readSockets_def two_os_paths two_os_def two_os_lines [simplified]
      two_os_line [simplified])

lemma two_os_lost:
  "readFds (two_os ''/proc/1/net/tcp6'') bytes_netaddr one_ns Map.empty [1, 2] = Inr ([(2, 4)], [])"
  by (simp add: ns_sockets_def two_os_sockets two_os_fds classify_fd_def has_prefix_def)

lemma two_os_uncached:
  "open_all (open_of (two_os ''/proc/1/net/tcp6'') bytes_netaddr one_ns (\<lambda>pid. pid)) [1, 2] =
    Inr ([(2, 4)], [Sock.extend sock_77 (sock.fields 2 3)])"
  by (simp add: open_of_def ns_sockets_def two_os_sockets two_os_fds classify_fd_def has_prefix_def)

theorem readFds_hidden_namespace_witness:
  "\<exists>files socks.
    readFds (two_os ''/proc/1/net/tcp6'') bytes_netaddr one_ns Map.empty [1, 2] = Inr (files, socks) \<and>
    filter (\<lambda>s. sk_pid s = 2) socks = [] \<and>
    open_all (open_of (two_os ''/proc/1/net/tcp6'') bytes_netaddr one_ns (\<lambda>pid. pid)) [1, 2] =
      Inr ([(2, 4)], [Sock.extend sock_77 (sock.fields 2 3)])"
proof -
  have "GetSockets (two_os ''/proc/1/net/tcp6'') bytes_netaddr (first_in_ns one_ns [1, 2] 2) = Inr ([sock_77], Some ''ENOENT'')"
    by (simp add: first_in_ns_def two_os_sockets)
  from readFds_hidden_namespace [OF two_os_lost this] two_os_lost two_os_uncached show ?thesis by blast
qed

end
