(* ===== verification/Tracer_Tls.thy ===== *)
theory Tracer_Tls
imports Tracer_Reader Sys_Net
begin

text \<open>
  \<open>pkg/ebpftracer/tls.go\<close>: user-space probes on a process's OpenSSL library and on the TLS
  functions of a Go program.

  Arguments of the model: the eBPF library's uprobes, the comparison of versions, the two
  instruction decoders, and what Go's ELF and build-info readers find in a file. The results of
  attaching are a list of links; next to what the code returns, the model keeps the links that
  have been created. An error path drops those that it has created without closing them; what becomes of
  a link that nobody refers to (the library closes it when it is collected) is not modelled.
\<close>

section \<open>Attaching\<close>

record tls_api =
  semver_Compare :: "string \<Rightarrow> string \<Rightarrow> int"
  OpenExecutable :: "bytes \<Rightarrow> err option"
  Uprobe :: "bytes \<Rightarrow> string \<Rightarrow> handle option \<Rightarrow> u64 \<Rightarrow> u64 \<Rightarrow> err + handle"   \<comment> \<open>address, offset\<close>
  Uretprobe :: "bytes \<Rightarrow> string \<Rightarrow> handle option \<Rightarrow> err + handle"
  x86_Decode :: "bytes \<Rightarrow> bool \<times> nat"          \<comment> \<open>decodes to \<open>RET\<close>; \<open>Len\<close>\<close>
  arm64_Decode :: "bytes \<Rightarrow> bool"

text \<open>
  A run of attachments: each result is appended to the links, up to the first error. The flag tells
  whether all of them succeeded.
\<close>

fun attach_all :: "(err + handle) list \<Rightarrow> handle list \<Rightarrow> bool \<times> handle list" where
  "attach_all [] ls = (True, ls)"
| "attach_all (Inl err # rs) ls = (False, ls)"
| "attach_all (Inr l # rs) ls = attach_all rs (ls @ [l])"

text \<open>What a function that stops at the first error returns, and the links created by then.\<close>

definition returned :: "bool \<times> handle list \<Rightarrow> handle list \<times> handle list" where
  "returned r = (if fst r then snd r else [], snd r)"

section \<open>OpenSSL\<close>

record ssl_prog =
  sp_symbol :: string
  sp_uprobe :: string
  sp_uretprobe :: string

definition ssl_progs :: "tls_api \<Rightarrow> string \<Rightarrow> ssl_prog list" where
  "ssl_progs api version =
     (let (writeEnter, readEnter, readExEnter) =
        (if 0 \<le> semver_Compare api version ''v3.0.0''
         then (''openssl_SSL_write_enter_v3_0'', ''openssl_SSL_read_enter_v3_0'', ''openssl_SSL_read_ex_enter_v3_0'')
         else if 0 \<le> semver_Compare api version ''v1.1.1''
         then (''openssl_SSL_write_enter_v1_1_1'', ''openssl_SSL_read_enter_v1_1_1'', ''openssl_SSL_read_ex_enter_v1_1_1'')
         else (''openssl_SSL_write_enter'', ''openssl_SSL_read_enter'', ''openssl_SSL_read_ex_enter''));
        readExit = ''openssl_SSL_read_exit''
      in [\<lparr>sp_symbol = ''SSL_write'', sp_uprobe = writeEnter, sp_uretprobe = ''''\<rparr>,
          \<lparr>sp_symbol = ''SSL_write_ex'', sp_uprobe = writeEnter, sp_uretprobe = ''''\<rparr>,
          \<lparr>sp_symbol = ''SSL_read'', sp_uprobe = readEnter, sp_uretprobe = ''''\<rparr>,
          \<lparr>sp_symbol = ''SSL_read_ex'', sp_uprobe = readExEnter, sp_uretprobe = ''''\<rparr>,
          \<lparr>sp_symbol = ''SSL_read'', sp_uprobe = '''', sp_uretprobe = readExit\<rparr>,
          \<lparr>sp_symbol = ''SSL_read_ex'', sp_uprobe = '''', sp_uretprobe = readExit\<rparr>])"

definition ssl_attach :: "tls_api \<Rightarrow> EBPFTracer \<Rightarrow> bytes \<Rightarrow> ssl_prog \<Rightarrow> (err + handle) list" where
  "ssl_attach api t libPath p =
     (if sp_uprobe p \<noteq> '''' then [Uprobe api libPath (sp_symbol p) (uprobes t (sp_uprobe p)) 0 0] else []) @
     (if sp_uretprobe p \<noteq> '''' then [Uretprobe api libPath (sp_symbol p) (uprobes t (sp_uretprobe p))] else [])"

text \<open>
  The libraries of a process, from its memory map: the first mapped file named libssl.so and the first
  named libcrypto.so that exist below its root. The pair is that of their paths so far.
\<close>

fun maps_loop :: "os_api \<Rightarrow> u32 \<Rightarrow> bytes list \<Rightarrow> bytes \<times> bytes \<Rightarrow> bytes \<times> bytes" where
  "maps_loop os pid [] libs = libs"
| "maps_loop os pid (line # lines) (libssl, libcrypto) =
     (let parts = Go_Strings.fields line
      in if length parts \<le> 5 then maps_loop os pid lines (libssl, libcrypto)
         else
           let libPath = parts ! 5;
               fullPath = Path pid [''root'', libPath];
               found = (os_Stat os fullPath = None)
           in if libssl = '''' \<and> contains libPath ''libssl.so'' then
                (let libssl = (if found then fullPath else libssl)
                 in if libssl \<noteq> '''' \<and> libcrypto \<noteq> '''' then (libssl, libcrypto)
                    else maps_loop os pid lines (libssl, libcrypto))
              else if libcrypto = '''' \<and> contains libPath ''libcrypto.so'' then
                (let libcrypto = (if found then fullPath else libcrypto)
                 in if libssl \<noteq> '''' \<and> libcrypto \<noteq> '''' then (libssl, libcrypto)
                    else maps_loop os pid lines (libssl, libcrypto))
              else maps_loop os pid lines (libssl, libcrypto))"

definition re_space :: "char \<Rightarrow> bool" where
  "re_space c = (byte_val c \<in> {9, 10, 12, 13, 32})"

definition opensslVersionRe :: re where
  "opensslVersionRe =
     Seq (Lit ''OpenSSL'') (Seq (Cls re_space)
       (Grp 1 (Seq (Cls is_digit) (Seq (Lit ''.'') (Seq (Plus is_digit) (Seq (Lit ''.'') (Plus is_digit)))))))"

text \<open>The strings of the read-only data, ended by zero bytes; the last version found stays.\<close>

definition version_step :: "bytes \<Rightarrow> bytes \<Rightarrow> bytes" where
  "version_step s version =
     (if s = '''' \<or> \<not> has_prefix s ''OpenSSL'' then version
      else case find_submatch opensslVersionRe s of None \<Rightarrow> version | Some m \<Rightarrow> group m 1)"

definition openssl_version :: "bytes \<Rightarrow> bytes" where
  "openssl_version data = fold version_step (split_char (byte_of 0) data) ''''"

text \<open>\<open>rodata\<close>: the read-only data of the ELF file at a path, if it can be read.\<close>

definition getSslLibPathAndVersion :: "os_api \<Rightarrow> (bytes \<Rightarrow> bytes option) \<Rightarrow> u32 \<Rightarrow> bytes \<times> bytes" where
  "getSslLibPathAndVersion os rodata pid =
     (case os_Scan os (Path pid [''maps'']) of
        Inl err \<Rightarrow> ('''', '''')
      | Inr data \<Rightarrow>
          (case maps_loop os pid (scan_lines data) ('''', '''') of
             (libssl, libcrypto) \<Rightarrow>
               if libssl = '''' \<or> libcrypto = '''' then ('''', '''')
               else (case rodata libcrypto of
                       None \<Rightarrow> ('''', '''')
                     | Some data \<Rightarrow> (libssl, ''v'' @ openssl_version data))))"

definition AttachOpenSslUprobes ::
  "tls_api \<Rightarrow> os_api \<Rightarrow> (bytes \<Rightarrow> bytes option) \<Rightarrow> EBPFTracer \<Rightarrow> u32 \<Rightarrow> handle list \<times> handle list" where
  "AttachOpenSslUprobes api os rodata t pid =
     (if disableL7Tracing t then ([], [])
      else case getSslLibPathAndVersion os rodata pid of
        (libPath, version) \<Rightarrow>
          if libPath = '''' \<or> version = '''' then ([], [])
          else case OpenExecutable api libPath of
            Some err \<Rightarrow> ([], [])
          | None \<Rightarrow> returned (attach_all (concat (map (ssl_attach api t libPath) (ssl_progs api version))) []))"

section \<open>Return instructions\<close>

text \<open>
  On x86 the loop advances by the length the decoder reports, which may be zero: \<open>None\<close> is a loop that
  does not end. On arm64 it advances by four.
\<close>

partial_function (option) x86_offsets :: "(bytes \<Rightarrow> bool \<times> nat) \<Rightarrow> bytes \<Rightarrow> nat \<Rightarrow> nat list \<Rightarrow> nat list option" where
  "x86_offsets decode ins i res =
     (if i < length ins
      then x86_offsets decode ins (i + snd (decode (drop i ins)))
             (if fst (decode (drop i ins)) then res @ [i] else res)
      else Some res)"

function arm64_offsets :: "(bytes \<Rightarrow> bool) \<Rightarrow> bytes \<Rightarrow> nat \<Rightarrow> nat list" where
  "arm64_offsets decode ins i =
     (if i < length ins
      then (if decode (drop i ins) then [i] else []) @ arm64_offsets decode ins (i + 4)
      else [])"
  by pat_completeness auto
termination
  by (relation "measure (\<lambda>(decode, ins, i). length ins - i)") auto

declare arm64_offsets.simps [simp del]

datatype machine = EM_X86_64 | EM_AARCH64 | EM_Other

definition getReturnOffsets :: "tls_api \<Rightarrow> machine \<Rightarrow> bytes \<Rightarrow> nat list option" where
  "getReturnOffsets api m instructions =
     (case m of
        EM_X86_64 \<Rightarrow> x86_offsets (x86_Decode api) instructions 0 []
      | EM_AARCH64 \<Rightarrow> Some (arm64_offsets (arm64_Decode api) instructions 0)
      | EM_Other \<Rightarrow> Some [])"

section \<open>Go programs\<close>

definition minSupportedGoVersion :: string where
  "minSupportedGoVersion = ''v1.17.0''"

definition goTlsWriteSymbol :: string where
  "goTlsWriteSymbol = ''crypto/tls.(*Conn).Write''"

definition goTlsReadSymbol :: string where
  "goTlsReadSymbol = ''crypto/tls.(*Conn).Read''"

record elf_symbol =
  sy_Name :: string
  sy_Func :: bool           \<comment> \<open>\<open>ST_TYPE(Info) == STT_FUNC\<close>\<close>
  sy_Value :: u64
  sy_Size :: u64

record elf_prog =
  pr_Load :: bool           \<comment> \<open>\<open>Type == PT_LOAD\<close>\<close>
  pr_Exec :: bool           \<comment> \<open>\<open>Flags & PF_X != 0\<close>\<close>
  pr_Vaddr :: u64
  pr_Memsz :: u64
  pr_Off :: u64

record elf_file =
  ef_Machine :: machine
  ef_Symbols :: "err + elf_symbol list"
  ef_Text :: "(u64 \<times> (err + bytes)) option"     \<comment> \<open>section .text: its address and data\<close>
  ef_Progs :: "elf_prog list"

record go_exe =
  ge_BuildInfo :: "err + string"       \<comment> \<open>\<open>GoVersion\<close>\<close>
  ge_Readlink :: "err + bytes"
  ge_Elf :: "err + elf_file"

text \<open>\<open>strings.Replace(s, old, new, 1)\<close>.\<close>

definition replace_first :: "bytes \<Rightarrow> bytes \<Rightarrow> bytes \<Rightarrow> bytes" where
  "replace_first s old new = (case cut s old of (a, b, found) \<Rightarrow> if found then a @ new @ b else s)"

text \<open>The file offset of a symbol: through the first executable segment that contains it.\<close>

definition symbol_address :: "elf_prog list \<Rightarrow> elf_symbol \<Rightarrow> u64" where
  "symbol_address progs s =
     (case find (\<lambda>p. pr_Load p \<and> pr_Exec p \<and> pr_Vaddr p \<le> sy_Value s \<and> sy_Value s < pr_Vaddr p + pr_Memsz p) progs of
        None \<Rightarrow> sy_Value s
      | Some p \<Rightarrow> sy_Value s - pr_Vaddr p + pr_Off p)"

text \<open>
  The instructions of a symbol, by 64-bit arithmetic on addresses: \<open>None\<close> when the symbol ends
  behind \<open>len(textSectionData)-1\<close>, a panic when the slice is not one.
\<close>

definition symbol_bytes :: "u64 \<Rightarrow> bytes \<Rightarrow> elf_symbol \<Rightarrow> bytes option go" where
  "symbol_bytes textAddr textSectionData s =
     (let textSectionLen = word_of_int (int (length textSectionData) - 1) :: u64;
          sStart = sy_Value s - textAddr;
          sEnd = sStart + sy_Size s
      in if textSectionLen < sEnd then Inr None
         else go_bind (slice textSectionData (unat sStart) (unat sEnd)) (\<lambda>b. Inr (Some b)))"

text \<open>
  One symbol of the loop: the flag is false when the function returns nil; the outer \<open>None\<close> means that
  the search for return instructions does not end.
\<close>

definition go_tls_symbol ::
  "tls_api \<Rightarrow> EBPFTracer \<Rightarrow> bytes \<Rightarrow> elf_file \<Rightarrow> u64 \<Rightarrow> bytes \<Rightarrow> elf_symbol \<Rightarrow> handle list \<Rightarrow>
   (bool \<times> handle list) go option" where
  "go_tls_symbol api t path ef textAddr textSectionData s ls =
     (if \<not> sy_Func s \<or> sy_Size s = 0 then Some (Inr (True, ls))
      else if sy_Name s \<noteq> goTlsWriteSymbol \<and> sy_Name s \<noteq> goTlsReadSymbol then Some (Inr (True, ls))
      else
        let address = symbol_address (ef_Progs ef) s
        in if sy_Name s = goTlsWriteSymbol then
             Some (Inr (attach_all [Uprobe api path (sy_Name s) (uprobes t ''go_crypto_tls_write_enter'') address 0] ls))
           else
             (case Uprobe api path (sy_Name s) (uprobes t ''go_crypto_tls_read_enter'') address 0 of
                Inl err \<Rightarrow> Some (Inr (False, ls))
              | Inr l \<Rightarrow>
                  let ls = ls @ [l]
                  in case symbol_bytes textAddr textSectionData s of
                       Inl p \<Rightarrow> Some (Inl p)
                     | Inr None \<Rightarrow> Some (Inr (True, ls))
                     | Inr (Some sBytes) \<Rightarrow>
                         map_option (\<lambda>returnOffsets.
                           if returnOffsets = [] then Inr (False, ls)
                           else Inr (attach_all (map (\<lambda>offset.
                                  Uprobe api path (sy_Name s) (uprobes t ''go_crypto_tls_read_exit'') address (word_of_nat offset))
                                  returnOffsets) ls)) (getReturnOffsets api (ef_Machine ef) sBytes)))"

fun go_tls_symbols ::
  "tls_api \<Rightarrow> EBPFTracer \<Rightarrow> bytes \<Rightarrow> elf_file \<Rightarrow> u64 \<Rightarrow> bytes \<Rightarrow> elf_symbol list \<Rightarrow> handle list \<Rightarrow>
   (bool \<times> handle list) go option" where
  "go_tls_symbols api t path ef textAddr textSectionData [] ls = Some (Inr (True, ls))"
| "go_tls_symbols api t path ef textAddr textSectionData (s # ss) ls =
     (case go_tls_symbol api t path ef textAddr textSectionData s ls of
        None \<Rightarrow> None
      | Some (Inl p) \<Rightarrow> Some (Inl p)
      | Some (Inr (ok, ls)) \<Rightarrow>
          if ok then go_tls_symbols api t path ef textAddr textSectionData ss ls
          else Some (Inr (False, ls)))"

definition AttachGoTlsUprobes ::
  "tls_api \<Rightarrow> (bytes \<Rightarrow> go_exe) \<Rightarrow> EBPFTracer \<Rightarrow> u32 \<Rightarrow> (handle list \<times> handle list) go option" where
  "AttachGoTlsUprobes api exe t pid =
     (let path = Path pid [''exe'']; none = Some (Inr ([], []))
      in if disableL7Tracing t then none
         else case ge_BuildInfo (exe path) of Inl e \<Rightarrow> none
         | Inr goVersion \<Rightarrow>
         case ge_Readlink (exe path) of Inl e \<Rightarrow> none
         | Inr name \<Rightarrow>
         if semver_Compare api (replace_first goVersion ''go'' ''v'') minSupportedGoVersion < 0 then none
         else case ge_Elf (exe path) of Inl e \<Rightarrow> none
         | Inr ef \<Rightarrow>
         case ef_Symbols ef of Inl e \<Rightarrow> none
         | Inr symbols \<Rightarrow>
         case ef_Text ef of None \<Rightarrow> none
         | Some (textAddr, text) \<Rightarrow>
         case text of Inl e \<Rightarrow> none
         | Inr textSectionData \<Rightarrow>
         case OpenExecutable api path of Some e \<Rightarrow> none
         | None \<Rightarrow>
             map_option (\<lambda>r. go_bind r (\<lambda>r. Inr (returned r)))
               (go_tls_symbols api t path ef textAddr textSectionData symbols []))"

section \<open>Lemmas: attaching\<close>

lemma attach_all_eq:
  "attach_all rs ls = (list_all (\<lambda>r. \<not> isl r) rs, ls @ map projr (takeWhile (\<lambda>r. \<not> isl r) rs))"
  by (induction rs ls rule: attach_all.induct) auto

lemma ssl_version_never_empty:
  "getSslLibPathAndVersion os rodata pid = (libPath, version) \<Longrightarrow> version = '''' \<longleftrightarrow> libPath = ''''"
  by (auto simp: getSslLibPathAndVersion_def split: sum.split_asm prod.split_asm if_split_asm option.split_asm)

section \<open>Lemmas: instructions\<close>

text \<open>The instruction boundaries of a decoding that starts at an offset.\<close>

inductive boundary :: "(bytes \<Rightarrow> bool \<times> nat) \<Rightarrow> bytes \<Rightarrow> nat \<Rightarrow> nat \<Rightarrow> bool" for decode ins where
  Here: "boundary decode ins i i"
| Next: "i < length ins \<Longrightarrow> boundary decode ins (i + snd (decode (drop i ins))) j \<Longrightarrow> boundary decode ins i j"

inductive_cases boundaryE: "boundary decode ins i j"

lemma boundary_end: "length ins \<le> i \<Longrightarrow> boundary decode ins i j \<longleftrightarrow> j = i"
  by (auto elim: boundaryE intro: boundary.Here)

lemma boundary_next:
  "i < length ins \<Longrightarrow> boundary decode ins i j \<longleftrightarrow> j = i \<or> boundary decode ins (i + snd (decode (drop i ins))) j"
  by (auto elim: boundaryE intro: boundary.intros)

lemma boundary_le: "boundary decode ins i j \<Longrightarrow> i \<le> j"
  by (induction rule: boundary.induct) auto

definition progress :: "(bytes \<Rightarrow> bool \<times> nat) \<Rightarrow> bytes \<Rightarrow> nat \<Rightarrow> bool" where
  "progress decode ins i = (\<forall>j. boundary decode ins i j \<longrightarrow> j < length ins \<longrightarrow> 0 < snd (decode (drop j ins)))"

definition returns_from :: "(bytes \<Rightarrow> bool \<times> nat) \<Rightarrow> bytes \<Rightarrow> nat \<Rightarrow> nat list \<Rightarrow> bool" where
  "returns_from decode ins i offs =
     (sorted_wrt (<) offs \<and>
      set offs = {j. boundary decode ins i j \<and> j < length ins \<and> fst (decode (drop j ins))})"

lemma progress_next:
  "i < length ins \<Longrightarrow> progress decode ins i \<longleftrightarrow>
     0 < snd (decode (drop i ins)) \<and> progress decode ins (i + snd (decode (drop i ins)))"
  by (auto simp: progress_def boundary_next)

lemma progress_end: "length ins \<le> i \<Longrightarrow> progress decode ins i"
  by (simp add: progress_def boundary_end)

lemma returns_from_next:
  assumes i: "i < length ins" and n: "0 < snd (decode (drop i ins))"
    and r: "returns_from decode ins (i + snd (decode (drop i ins))) offs"
  shows "returns_from decode ins i ((if fst (decode (drop i ins)) then [i] else []) @ offs)"
proof -
  have "i < j" if "j \<in> set offs" for j
    using that r n boundary_le [of decode ins "i + snd (decode (drop i ins))" j]
    by (auto simp: returns_from_def)
  moreover have "{j. boundary decode ins i j \<and> j < length ins \<and> fst (decode (drop j ins))} =
      set (if fst (decode (drop i ins)) then [i] else []) \<union>
      {j. boundary decode ins (i + snd (decode (drop i ins))) j \<and> j < length ins \<and> fst (decode (drop j ins))}"
    using boundary_next [OF i, of decode] i by auto
  ultimately show ?thesis using r unfolding returns_from_def by (simp add: sorted_wrt_append)
qed

lemma x86_offsets_Some:
  assumes "x86_offsets decode ins i acc = Some r"
  shows "progress decode ins i \<and> (\<exists>offs. r = acc @ offs \<and> returns_from decode ins i offs)"
proof (rule x86_offsets.raw_induct [where P = "\<lambda>decode ins i acc r.
    progress decode ins i \<and> (\<exists>offs. r = acc @ offs \<and> returns_from decode ins i offs)", OF _ assms])
  fix f decode ins i acc r
  assume IH: "\<And>decode ins i acc r. f decode ins i acc = Some r \<Longrightarrow>
      progress decode ins i \<and> (\<exists>offs. r = acc @ offs \<and> returns_from decode ins i offs)"
    and eq: "(if i < length ins
      then f decode ins (i + snd (decode (drop i ins))) (if fst (decode (drop i ins)) then acc @ [i] else acc)
      else Some acc) = Some r"
  show "progress decode ins i \<and> (\<exists>offs. r = acc @ offs \<and> returns_from decode ins i offs)"
  proof (cases "i < length ins")
    case False
    with eq show ?thesis
      by (auto simp: progress_end returns_from_def boundary_end)
  next
    case True
    let ?n = "snd (decode (drop i ins))"
    from True eq have "f decode ins (i + ?n) (if fst (decode (drop i ins)) then acc @ [i] else acc) = Some r"
      by simp
    from IH [OF this] obtain offs where p: "progress decode ins (i + ?n)"
      and r: "r = (if fst (decode (drop i ins)) then acc @ [i] else acc) @ offs"
      and o: "returns_from decode ins (i + ?n) offs" by blast
    have n: "0 < ?n"
    proof (rule ccontr)
      assume "\<not> 0 < ?n"
      then have "progress decode ins i" using p by simp
      with True \<open>\<not> 0 < ?n\<close> show False using progress_next [OF True, of decode] by metis
    qed
    have "progress decode ins i" using True n p by (simp add: progress_next)
    moreover have "r = acc @ ((if fst (decode (drop i ins)) then [i] else []) @ offs)" by (simp add: r)
    ultimately show ?thesis using returns_from_next [OF True n o] by blast
  qed
qed

lemma x86_offsets_terminates:
  "progress decode ins i \<Longrightarrow> \<exists>r. x86_offsets decode ins i acc = Some r"
proof (induction "length ins - i" arbitrary: i acc rule: less_induct)
  case less
  show ?case
  proof (cases "i < length ins")
    case False
    then show ?thesis by (subst x86_offsets.simps) simp
  next
    case True
    with less.prems have "0 < snd (decode (drop i ins))" "progress decode ins (i + snd (decode (drop i ins)))"
      by (simp_all add: progress_next)
    with less.hyps [of "i + snd (decode (drop i ins))"] True show ?thesis
      by (subst x86_offsets.simps) simp
  qed
qed

text \<open>C31: The search for return instructions in x86 code. It returns if and only if the decoder reports a
  positive length at every instruction boundary it reaches (otherwise the agent hangs in the
  loop, with the process's TLS half attached), and it then returns, in increasing order, exactly
  the boundaries at which a return instruction decodes.\<close>
theorem x86_return_offsets:
  "(x86_offsets decode ins 0 [] \<noteq> None \<longleftrightarrow>
      (\<forall>i. boundary decode ins 0 i \<longrightarrow> i < length ins \<longrightarrow> 0 < snd (decode (drop i ins)))) \<and>
   (\<forall>offs. x86_offsets decode ins 0 [] = Some offs \<longrightarrow>
      sorted_wrt (<) offs \<and>
      set offs = {i. boundary decode ins 0 i \<and> i < length ins \<and> fst (decode (drop i ins))})"
proof -
  have "x86_offsets decode ins 0 [] \<noteq> None \<longleftrightarrow> progress decode ins 0"
    using x86_offsets_Some [of decode ins 0 "[]"] x86_offsets_terminates [of decode ins 0 "[]"] by auto
  moreover have "returns_from decode ins 0 offs" if "x86_offsets decode ins 0 [] = Some offs" for offs
    using x86_offsets_Some [OF that] by auto
  ultimately show ?thesis by (simp add: progress_def returns_from_def)
qed

definition byte_decode :: "bytes \<Rightarrow> bool \<times> nat" where
  "byte_decode s = (hd s = CHR ''r'', 1)"

theorem x86_return_offsets_witness:
  "x86_offsets byte_decode ''nr'' 0 [] = Some [Suc 0] \<and>
   {Suc 0} = {i. boundary byte_decode ''nr'' 0 i \<and> i < length ''nr'' \<and> fst (byte_decode (drop i ''nr''))}"
proof -
  have e: "x86_offsets byte_decode ''nr'' (Suc (Suc 0)) acc = Some acc" for acc
    by (subst x86_offsets.simps) simp
  have n1: "x86_offsets byte_decode ''nr'' (Suc 0) acc = x86_offsets byte_decode ''nr'' (Suc (Suc 0)) (acc @ [Suc 0])" for acc
    by (subst x86_offsets.simps) (simp add: byte_decode_def)
  have n0: "x86_offsets byte_decode ''nr'' 0 acc = x86_offsets byte_decode ''nr'' (Suc 0) acc" for acc
    by (subst x86_offsets.simps) (simp add: byte_decode_def)
  have r: "x86_offsets byte_decode ''nr'' 0 [] = Some [Suc 0]"
    by (simp only: n0 n1 e append_Nil)
  have "set [Suc 0] = {i. boundary byte_decode ''nr'' 0 i \<and> i < length ''nr'' \<and> fst (byte_decode (drop i ''nr''))}"
    using x86_return_offsets [of byte_decode "''nr''"] r by blast
  with r show ?thesis by (simp only: list.set simp_thms)
qed

lemma arm64_offsets_set:
  "set (arm64_offsets decode ins i) = {j. i \<le> j \<and> 4 dvd (j - i) \<and> j < length ins \<and> decode (drop j ins)}"
proof (induction decode ins i rule: arm64_offsets.induct)
  case (1 decode ins i)
  have d: "i \<le> j \<and> 4 dvd (j - i) \<longleftrightarrow> j = i \<or> i + 4 \<le> j \<and> 4 dvd (j - (i + 4))" for j
    by presburger
  show ?case
  proof (cases "i < length ins")
    case True
    with 1 have "set (arm64_offsets decode ins i) =
        (if decode (drop i ins) then {i} else {}) \<union>
        {j. i + 4 \<le> j \<and> 4 dvd (j - (i + 4)) \<and> j < length ins \<and> decode (drop j ins)}"
      by (subst arm64_offsets.simps) simp
    moreover have "i \<le> j \<and> 4 dvd (j - i) \<and> j < length ins \<and> decode (drop j ins) \<longleftrightarrow>
        (j = i \<and> decode (drop i ins)) \<or>
        (i + 4 \<le> j \<and> 4 dvd (j - (i + 4)) \<and> j < length ins \<and> decode (drop j ins))" for j
      using d [of j] True by blast
    ultimately show ?thesis by auto
  next
    case False
    then show ?thesis by (subst arm64_offsets.simps) auto
  qed
qed

section \<open>Properties of the attachments\<close>

lemma ssl_attempts:
  assumes "gen = (if 0 \<le> semver_Compare api version ''v3.0.0'' then ''_v3_0''
      else if 0 \<le> semver_Compare api version ''v1.1.1'' then ''_v1_1_1'' else '''')"
  shows "concat (map (ssl_attach api t libPath) (ssl_progs api version)) =
    [Uprobe api libPath ''SSL_write'' (uprobes t (''openssl_SSL_write_enter'' @ gen)) 0 0,
     Uprobe api libPath ''SSL_write_ex'' (uprobes t (''openssl_SSL_write_enter'' @ gen)) 0 0,
     Uprobe api libPath ''SSL_read'' (uprobes t (''openssl_SSL_read_enter'' @ gen)) 0 0,
     Uprobe api libPath ''SSL_read_ex'' (uprobes t (''openssl_SSL_read_ex_enter'' @ gen)) 0 0,
     Uretprobe api libPath ''SSL_read'' (uprobes t ''openssl_SSL_read_exit''),
     Uretprobe api libPath ''SSL_read_ex'' (uprobes t ''openssl_SSL_read_exit'')]"
  by (simp add: assms ssl_progs_def ssl_attach_def Let_def)

text \<open>C32: OpenSSL probes are reported all or none. When a process's libraries are found and can be opened, six
  probes are attempted in this order: the entries of SSL_write, SSL_write_ex, SSL_read and SSL_read_ex,
  with the programs for version 3.0, for 1.1.1 or for older ones, by the library's version, and the exits
  of SSL_read and SSL_read_ex. If all succeed their six links are
  returned in order. If one fails, nothing after it is attempted and nothing is
  returned; the links created by then (the second list) are those of the attempts before it.\<close>
theorem openssl_all_or_none:
  assumes "\<not> disableL7Tracing t" and "getSslLibPathAndVersion os rodata pid = (libPath, version)"
    and "libPath \<noteq> ''''" and "OpenExecutable api libPath = None"
    and "gen = (if 0 \<le> semver_Compare api version ''v3.0.0'' then ''_v3_0''
      else if 0 \<le> semver_Compare api version ''v1.1.1'' then ''_v1_1_1'' else '''')"
    and "rs =
      [Uprobe api libPath ''SSL_write'' (uprobes t (''openssl_SSL_write_enter'' @ gen)) 0 0,
       Uprobe api libPath ''SSL_write_ex'' (uprobes t (''openssl_SSL_write_enter'' @ gen)) 0 0,
       Uprobe api libPath ''SSL_read'' (uprobes t (''openssl_SSL_read_enter'' @ gen)) 0 0,
       Uprobe api libPath ''SSL_read_ex'' (uprobes t (''openssl_SSL_read_ex_enter'' @ gen)) 0 0,
       Uretprobe api libPath ''SSL_read'' (uprobes t ''openssl_SSL_read_exit''),
       Uretprobe api libPath ''SSL_read_ex'' (uprobes t ''openssl_SSL_read_exit'')]"
  shows "AttachOpenSslUprobes api os rodata t pid =
      (if list_all (\<lambda>r. \<not> isl r) rs then (map projr rs, map projr rs)
       else ([], map projr (takeWhile (\<lambda>r. \<not> isl r) rs)))"
proof -
  have rs: "rs = concat (map (ssl_attach api t libPath) (ssl_progs api version))"
    unfolding ssl_attempts [OF assms(5)] by (rule assms(6))
  have "version \<noteq> ''''" using ssl_version_never_empty [OF assms(2)] assms(3) by simp
  moreover have tw: "takeWhile (\<lambda>r. \<not> isl r) rs = rs" if "list_all (\<lambda>r. \<not> isl r) rs"
    using that by (induction rs) auto
  moreover have "AttachOpenSslUprobes api os rodata t pid = returned (attach_all rs [])"
    if "version \<noteq> ''''"
    using that assms(1-4) by (simp add: AttachOpenSslUprobes_def rs)
  ultimately show ?thesis
    by (cases "list_all (\<lambda>r. \<not> isl r) rs") (simp_all only: attach_all_eq returned_def tw if_True if_False fst_conv snd_conv append_Nil simp_thms)
qed

text \<open>
  A library without a recognised version is taken for the oldest one: the version is then just
  the letter v, which the caller's test for an empty version does not catch.
\<close>

lemma openssl_version_unrecognised:
  assumes "\<forall>s \<in> set (split_char (byte_of 0) data). \<not> has_prefix s ''OpenSSL''"
  shows "''v'' @ openssl_version data = ''v''"
proof -
  have "fold version_step ss v = v" if "\<forall>s \<in> set ss. \<not> has_prefix s ''OpenSSL''" for ss v
    using that by (induction ss arbitrary: v) (auto simp: version_step_def)
  with assms show ?thesis by (simp add: openssl_version_def)
qed

lemma slice_Inl: "slice s i j = Inl p \<longleftrightarrow> p = SliceOutOfRange \<and> \<not> (i \<le> j \<and> j \<le> length s)"
  by (auto simp: slice_def)

lemma unat_text_len: "length d \<noteq> 0 \<Longrightarrow> length d < 2 ^ 63 \<Longrightarrow>
  unat (word_of_int (int (length d) - 1) :: u64) = length d - 1"
proof -
  assume d: "length d \<noteq> 0" "length d < 2 ^ 63"
  have "int (length d) - 1 = int (length d - 1)" using d(1) by (cases "length d") simp_all
  then have "(word_of_int (int (length d) - 1) :: u64) = word_of_nat (length d - 1)"
    by (simp only: of_int_of_nat_eq)
  moreover have "length d - 1 < 2 ^ 64" using d(2) by simp
  ultimately show ?thesis by (simp add: unat_of_nat take_bit_nat_eq_self)
qed

lemma unat_add_no_carry: "unat (x :: u64) + unat y < 2 ^ 64 \<Longrightarrow> unat (x + y) = unat x + unat y"
proof -
  have "(2::nat) ^ LENGTH(64) = 2 ^ 64" by simp
  moreover assume "unat x + unat y < 2 ^ 64"
  ultimately have "unat x + unat y < 2 ^ LENGTH(64)" by metis
  then show ?thesis by (rule unat_add_lem [THEN iffD1])
qed

lemma unat_sub_wrap:
  fixes v a :: u64
  assumes "unat v < unat a"
  shows "unat (v - a) = 2 ^ 64 - (unat a - unat v)"
proof -
  define x where "x = unat (v - a)"
  have m: "unat v = (x + unat a) mod 2 ^ 64" using unat_word_ariths(1) [of "v - a" a] by (simp add: x_def)
  have b: "x < 2 ^ 64" "unat a < 2 ^ 64"
    using unsigned_less [of "v - a"] unsigned_less [of a] by (simp_all add: x_def)
  have ge: "2 ^ 64 \<le> x + unat a"
  proof (rule ccontr)
    assume "\<not> 2 ^ 64 \<le> x + unat a"
    then have "unat v = x + unat a" using m by simp
    with assms show False by simp
  qed
  have "(x + unat a) mod 2 ^ 64 = (x + unat a - 2 ^ 64) mod 2 ^ 64" using ge by (rule le_mod_geq)
  also have "\<dots> = x + unat a - 2 ^ 64" using b by (intro mod_less) linarith
  finally show ?thesis using m ge assms unfolding x_def [symmetric] by linarith
qed

lemma not_wrapped_le: "(n :: nat) < m \<Longrightarrow> k \<le> n \<Longrightarrow> \<not> m - k \<le> n - k"
  by linarith

lemma unat_wrap_back:
  fixes x y :: u64
  assumes x: "unat x = 2 ^ 64 - k" and k: "k \<le> unat y"
  shows "unat (x + y) = unat y - k"
proof -
  have b: "unat y < 2 ^ 64" using unsigned_less [of y] by simp
  have mod_eq: "(m - k + n) mod m = n - k" if "n < m" "k \<le> n" for m n :: nat
  proof -
    have "m - k + n = m + (n - k)" using that by linarith
    moreover have "n - k < m" using that by linarith
    ultimately show ?thesis by (simp only: mod_add_self1 mod_less)
  qed
  have "unat (x + y) = (unat x + unat y) mod 2 ^ 64" using unat_word_ariths(1) [of x y] by simp
  then show ?thesis unfolding x by (simp only: mod_eq [OF b k])
qed

text \<open>The slice in natural numbers, from the two unsigned bounds the code computes.\<close>

lemma symbol_bytes_nat:
  assumes "length d \<noteq> 0" and "length d < 2 ^ 63"
    and st: "unat (sy_Value s - a) = i" and en: "unat (sy_Value s - a + sy_Size s) = j"
  shows "symbol_bytes a d s =
    (if length d \<le> j then Inr None
     else if i \<le> j then Inr (Some (drop i (take j d))) else Inl SliceOutOfRange)"
proof -
  define tl where "tl = (word_of_int (int (length d) - 1) :: u64)"
  have len: "unat tl = length d - 1" unfolding tl_def by (rule unat_text_len [OF assms(1,2)])
  have past: "tl < sy_Value s - a + sy_Size s \<longleftrightarrow> length d \<le> j"
    unfolding word_less_nat_alt len en using assms(1) by linarith
  show ?thesis
    unfolding symbol_bytes_def Let_def tl_def [symmetric] past st en slice_def
    by (cases "length d \<le> j"; cases "i \<le> j") simp_all
qed

lemma symbol_bytes_inside:
  assumes "length d \<noteq> 0" and "length d < 2 ^ 63" and "unat (sy_Value s) + unat (sy_Size s) < 2 ^ 64"
    and ge: "unat a \<le> unat (sy_Value s)"
  shows "symbol_bytes a d s =
    (let off = unat (sy_Value s) - unat a
     in if off + unat (sy_Size s) < length d
        then Inr (Some (take (unat (sy_Size s)) (drop off d))) else Inr None)"
proof -
  have st: "unat (sy_Value s - a) = unat (sy_Value s) - unat a"
    using ge by (simp add: unat_sub word_le_nat_alt)
  have "unat (sy_Value s - a) + unat (sy_Size s) < 2 ^ 64"
    unfolding st using diff_le_self assms(3) by (rule le_less_trans [OF add_le_mono1])
  then have en: "unat (sy_Value s - a + sy_Size s) = unat (sy_Value s) - unat a + unat (sy_Size s)"
    unfolding st [symmetric] by (rule unat_add_no_carry)
  show "symbol_bytes a d s =
      (let off = unat (sy_Value s) - unat a
       in if off + unat (sy_Size s) < length d
          then Inr (Some (take (unat (sy_Size s)) (drop off d))) else Inr None)"
    unfolding symbol_bytes_nat [OF assms(1,2) st en] Let_def
    by (cases "length d \<le> unat (sy_Value s) - unat a + unat (sy_Size s)")
      (simp_all add: drop_take)
qed

text \<open>C33: The instructions of a Go function are cut out of the text section, or the agent panics. When the
  symbol lies at or behind the section's address, the slice is taken just when the symbol ends
  before the section's last byte (a function that ends with the section is skipped), and is
  then the symbol's bytes; when it starts before the section and ends inside, the unsigned
  difference wraps around and the slice panics, so a process whose executable has such a
  symbol ends the agent.\<close>
theorem go_symbol_bytes:
  assumes "length d \<noteq> 0" and "length d < 2 ^ 63" and "unat (sy_Value s) + unat (sy_Size s) < 2 ^ 64"
  shows "(unat a \<le> unat (sy_Value s) \<longrightarrow>
      symbol_bytes a d s =
        (let off = unat (sy_Value s) - unat a
         in if off + unat (sy_Size s) < length d
            then Inr (Some (take (unat (sy_Size s)) (drop off d))) else Inr None)) \<and>
    (unat (sy_Value s) < unat a \<and> unat a \<le> unat (sy_Value s) + unat (sy_Size s) \<and>
      unat (sy_Value s) + unat (sy_Size s) - unat a < length d \<longrightarrow>
      symbol_bytes a d s = Inl SliceOutOfRange)"
proof (intro conjI impI)
  assume "unat a \<le> unat (sy_Value s)"
  from symbol_bytes_inside [OF assms this] show "symbol_bytes a d s =
      (let off = unat (sy_Value s) - unat a
       in if off + unat (sy_Size s) < length d
          then Inr (Some (take (unat (sy_Size s)) (drop off d))) else Inr None)" .
next
  assume lt: "unat (sy_Value s) < unat a \<and> unat a \<le> unat (sy_Value s) + unat (sy_Size s) \<and>
    unat (sy_Value s) + unat (sy_Size s) - unat a < length d"
  obtain k where k: "unat a = unat (sy_Value s) + k" "0 < k"
    using lt less_imp_add_positive [of "unat (sy_Value s)" "unat a"] by metis
  have st: "unat (sy_Value s - a) = 2 ^ 64 - k" using unat_sub_wrap [of "sy_Value s" a] k by simp
  have k_le: "k \<le> unat (sy_Size s)" using lt k by linarith
  have en: "unat (sy_Value s - a + sy_Size s) = unat (sy_Size s) - k"
    by (rule unat_wrap_back [OF st k_le])
  have "unat (sy_Size s) < 2 ^ 64" using unsigned_less [of "sy_Size s"] by simp
  then have "\<not> 2 ^ 64 - k \<le> unat (sy_Size s) - k" using k_le by (rule not_wrapped_le)
  moreover have "\<not> length d \<le> unat (sy_Size s) - k" using lt k by linarith
  ultimately show "symbol_bytes a d s = Inl SliceOutOfRange"
    unfolding symbol_bytes_nat [OF assms(1,2) st en] by (simp only: if_False)
qed

text \<open>A process with both libraries, and a version that the read-only data does not tell.\<close>

definition two_libs :: os_api where
  "two_libs = \<lparr>os_Open = (\<lambda>_. None),
     os_ReadFile = (\<lambda>_. Inl ''ENOENT''), os_Scan = (\<lambda>_. Inr ''0 r 0 0 0 /libssl.so\<newline>0 r 0 0 0 /libcrypto.so\<newline>''),
     os_ReadDir = (\<lambda>_. Inr []), os_Readlink = (\<lambda>_. Inr ''''), os_Stat = (\<lambda>_. None)\<rparr>"

lemma two_libs_lines:
  "scan_lines ''0 r 0 0 0 /libssl.so\<newline>0 r 0 0 0 /libcrypto.so\<newline>'' =
    [''0 r 0 0 0 /libssl.so'', ''0 r 0 0 0 /libcrypto.so'']"
proof -
  have "CHR ''o'' \<noteq> byte_of 13" by code_simp
  then show ?thesis by (simp add: scan_lines_def drop_cr_def)
qed

lemma two_libs_fields:
  "Go_Strings.fields ''0 r 0 0 0 /libssl.so'' = [''0'', ''r'', ''0'', ''0'', ''0'', ''/libssl.so'']"
  "Go_Strings.fields ''0 r 0 0 0 /libcrypto.so'' = [''0'', ''r'', ''0'', ''0'', ''0'', ''/libcrypto.so'']"
  by code_simp+

lemma two_libs_paths:
  "Path 7 [''root'', ''/libssl.so''] = ''/proc/7/root/libssl.so''"
  "Path 7 [''root'', ''/libcrypto.so''] = ''/proc/7/root/libcrypto.so''"
  by code_simp+

lemma two_libs_named:
  "contains ''/libssl.so'' ''libssl.so''" "contains ''/libcrypto.so'' ''libcrypto.so''"
  by code_simp+

lemma two_libs_found:
  "getSslLibPathAndVersion two_libs (\<lambda>_. Some ''text'') 7 = (''/proc/7/root/libssl.so'', ''v'')"
proof -
  have "maps_loop two_libs 7 [''0 r 0 0 0 /libssl.so'', ''0 r 0 0 0 /libcrypto.so''] ('''', '''') =
      (''/proc/7/root/libssl.so'', ''/proc/7/root/libcrypto.so'')"
    by (simp add: two_libs_fields two_libs_paths two_libs_named Let_def) (simp add: two_libs_def)
  moreover have "os_Scan two_libs (Path 7 [''maps'']) =
      Inr ''0 r 0 0 0 /libssl.so\<newline>0 r 0 0 0 /libcrypto.so\<newline>''"
    by (simp add: two_libs_def)
  moreover have "openssl_version ''text'' = ''''" by code_simp
  ultimately show ?thesis by (simp add: getSslLibPathAndVersion_def two_libs_lines)
qed

definition no_read_ex :: tls_api where
  "no_read_ex = \<lparr>semver_Compare = (\<lambda>_ _. - 1), OpenExecutable = (\<lambda>_. None),
     Uprobe = (\<lambda>_ s _ _ _. if s = ''SSL_read_ex'' then Inl ''no symbol'' else Inr (length s)),
     Uretprobe = (\<lambda>_ s _. Inr (length s)), x86_Decode = byte_decode, arm64_Decode = (\<lambda>_. False)\<rparr>"

definition bare_tracer :: EBPFTracer where
  "bare_tracer = \<lparr>collection = 1, readers = Map.empty, links = [], uprobes = Map.empty,
     disableL7Tracing = False, subscribers = Map.empty\<rparr>"

theorem openssl_all_or_none_witness:
  "AttachOpenSslUprobes no_read_ex two_libs (\<lambda>_. Some ''text'') bare_tracer 7 =
    ([], [length ''SSL_write'', length ''SSL_write_ex'', length ''SSL_read''])"
  using openssl_all_or_none [of bare_tracer two_libs "\<lambda>_. Some ''text''" 7 "''/proc/7/root/libssl.so''" "''v''" no_read_ex,
      OF _ two_libs_found _ _ refl refl]
  by (simp add: bare_tracer_def no_read_ex_def)

theorem go_symbol_bytes_witness:
  "symbol_bytes 4 ''abcdef'' \<lparr>sy_Name = ''f'', sy_Func = True, sy_Value = 5, sy_Size = 2\<rparr> = Inr (Some ''bc'') \<and>
   symbol_bytes 4 ''abcdef'' \<lparr>sy_Name = ''f'', sy_Func = True, sy_Value = 3, sy_Size = 2\<rparr> = Inl SliceOutOfRange"
  using go_symbol_bytes [of "''abcdef''" "\<lparr>sy_Name = ''f'', sy_Func = True, sy_Value = 5, sy_Size = 2\<rparr>" 4]
    go_symbol_bytes [of "''abcdef''" "\<lparr>sy_Name = ''f'', sy_Func = True, sy_Value = 3, sy_Size = 2\<rparr>" 4]
  by (simp add: Let_def)

section \<open>All probes of a Go program\<close>

text \<open>The probes the loop attempts for one symbol, in order, a read without a return counting as a failed one.\<close>

definition go_results ::
  "tls_api \<Rightarrow> EBPFTracer \<Rightarrow> bytes \<Rightarrow> elf_file \<Rightarrow> u64 \<Rightarrow> bytes \<Rightarrow> elf_symbol \<Rightarrow> (err + handle) list" where
  "go_results api t path ef textAddr text s =
     (let probe = (\<lambda>prog offset. Uprobe api path (sy_Name s) (uprobes t prog) (symbol_address (ef_Progs ef) s) offset)
      in if \<not> sy_Func s \<or> sy_Size s = 0 then []
         else if sy_Name s = goTlsWriteSymbol then [probe ''go_crypto_tls_write_enter'' 0]
         else if sy_Name s = goTlsReadSymbol then
           probe ''go_crypto_tls_read_enter'' 0 #
           (case symbol_bytes textAddr text s of
              Inr (Some b) \<Rightarrow>
                (case getReturnOffsets api (ef_Machine ef) b of
                   None \<Rightarrow> []
                 | Some offs \<Rightarrow>
                     if offs = [] then [Inl ''no return offsets found'']
                     else map (\<lambda>offset. probe ''go_crypto_tls_read_exit'' (word_of_nat offset)) offs)
            | _ \<Rightarrow> [])
         else [])"

text \<open>What the executable must be for the probes to be attempted.\<close>

definition supported_go ::
  "tls_api \<Rightarrow> go_exe \<Rightarrow> bytes \<Rightarrow> elf_file \<Rightarrow> elf_symbol list \<Rightarrow> u64 \<Rightarrow> bytes \<Rightarrow> bool" where
  "supported_go api exe path ef symbols textAddr text \<longleftrightarrow>
     (\<exists>version name. ge_BuildInfo exe = Inr version \<and> ge_Readlink exe = Inr name \<and>
        0 \<le> semver_Compare api (replace_first version ''go'' ''v'') minSupportedGoVersion) \<and>
     ge_Elf exe = Inr ef \<and> ef_Symbols ef = Inr symbols \<and> ef_Text ef = Some (textAddr, Inr text) \<and>
     OpenExecutable api path = None"

lemma attach_all_append:
  "attach_all (xs @ ys) ls = (if fst (attach_all xs ls) then attach_all ys (snd (attach_all xs ls)) else attach_all xs ls)"
  by (induction xs ls rule: attach_all.induct) auto

lemma goTls_symbols_differ: "goTlsReadSymbol \<noteq> goTlsWriteSymbol"
  by (simp add: goTlsReadSymbol_def goTlsWriteSymbol_def)

lemma if_Inr: "\<exists>b. (if P then Inr x else Inr y) = Inr b"
  by simp

text \<open>The symbols whose instructions are read.\<close>

definition go_read_symbol :: "elf_symbol \<Rightarrow> bool" where
  "go_read_symbol s \<longleftrightarrow> sy_Func s \<and> sy_Size s \<noteq> 0 \<and> sy_Name s = goTlsReadSymbol"

lemma go_tls_symbol_run:
  assumes "go_read_symbol s \<Longrightarrow> \<exists>b. symbol_bytes textAddr text s = Inr b"
    and "\<And>c. getReturnOffsets api (ef_Machine ef) c \<noteq> None"
  shows "go_tls_symbol api t path ef textAddr text s ls = Some (Inr (attach_all (go_results api t path ef textAddr text s) ls))"
proof (cases "go_read_symbol s")
  case False
  then show ?thesis by (auto simp: go_read_symbol_def go_tls_symbol_def go_results_def Let_def)
next
  case read: True
  then have True: "sy_Func s \<and> sy_Size s \<noteq> 0 \<and> sy_Name s = goTlsReadSymbol" by (simp add: go_read_symbol_def)
  obtain b where b: "symbol_bytes textAddr text s = Inr b" using assms(1) read by blast
  let ?enter = "Uprobe api path (sy_Name s) (uprobes t ''go_crypto_tls_read_enter'') (symbol_address (ef_Progs ef) s) 0"
  show ?thesis
  proof (cases b)
    case None
    then show ?thesis using True goTls_symbols_differ b
      by (cases ?enter) (simp_all add: go_tls_symbol_def go_results_def Let_def)
  next
    case (Some c)
    from assms(2) obtain offs where "getReturnOffsets api (ef_Machine ef) c = Some offs" by blast
    then show ?thesis using True goTls_symbols_differ b Some
      by (cases ?enter; cases "offs = []") (simp_all add: go_tls_symbol_def go_results_def Let_def)
  qed
qed

lemma go_tls_symbols_run:
  assumes "\<forall>s \<in> set symbols. go_read_symbol s \<longrightarrow> (\<exists>b. symbol_bytes textAddr text s = Inr b)"
    and "\<And>c. getReturnOffsets api (ef_Machine ef) c \<noteq> None"
  shows "go_tls_symbols api t path ef textAddr text symbols ls =
    Some (Inr (attach_all (concat (map (go_results api t path ef textAddr text) symbols)) ls))"
  using assms(1)
proof (induction symbols arbitrary: ls)
  case (Cons s symbols)
  then have "go_read_symbol s \<Longrightarrow> \<exists>b. symbol_bytes textAddr text s = Inr b" by simp
  from go_tls_symbol_run [OF this assms(2)] Cons show ?case
    by (cases "attach_all (go_results api t path ef textAddr text s) ls") (auto simp: attach_all_append)
qed simp

lemma getReturnOffsets_total:
  assumes "\<And>b. b \<noteq> [] \<Longrightarrow> 0 < snd (x86_Decode api b)"
  shows "getReturnOffsets api m c \<noteq> None"
proof (cases m)
  case EM_X86_64
  have "progress (x86_Decode api) c 0" by (simp add: progress_def assms)
  from x86_offsets_terminates [OF this, of "[]"] EM_X86_64 show ?thesis by (auto simp: getReturnOffsets_def)
qed (simp_all add: getReturnOffsets_def)

text \<open>C30: The TLS probes of a Go program are reported all or none, and the attachment ends. Let the executable be
  supported, let its TLS read functions (and no other symbols are restricted) lie at or behind the start of its text
  section, and let the x86 decoder always advance. Then the function returns. The probes
  attempted are, in the order of the symbols, the entry of each write function, the entry of each
  read function, and its return instructions if it ends before the section's last byte; a read
  function that contains that byte or lies behind it gets the probe at its entry only, and that
  counts as success. If all attempts succeed, their links are returned; if one fails, or a read function ending before the last byte has
  no return instruction, nothing is attempted after it and nothing is returned; the links
  created by then (the second list) are those of the attempts before it.\<close>
theorem go_tls_all_or_none:
  assumes "\<not> disableL7Tracing t" and "supported_go api (exe (Path pid [''exe''])) (Path pid [''exe'']) ef symbols textAddr text"
    and "length text \<noteq> 0" and "length text < 2 ^ 63"
    and "\<forall>s \<in> set symbols. go_read_symbol s \<longrightarrow>
      unat textAddr \<le> unat (sy_Value s) \<and> unat (sy_Value s) + unat (sy_Size s) < 2 ^ 64"
    and "\<And>b. b \<noteq> [] \<Longrightarrow> 0 < snd (x86_Decode api b)"
    and "rs = concat (map (go_results api t (Path pid [''exe'']) ef textAddr text) symbols)"
  shows "AttachGoTlsUprobes api exe t pid =
    Some (Inr (if list_all (\<lambda>r. \<not> isl r) rs then (map projr rs, map projr rs)
               else ([], map projr (takeWhile (\<lambda>r. \<not> isl r) rs))))"
proof -
  have inside: "\<forall>s \<in> set symbols. go_read_symbol s \<longrightarrow> (\<exists>b. symbol_bytes textAddr text s = Inr b)"
  proof (intro ballI impI)
    fix s assume "s \<in> set symbols" and "go_read_symbol s"
    with assms(5) have place: "unat (sy_Value s) + unat (sy_Size s) < 2 ^ 64" "unat textAddr \<le> unat (sy_Value s)" by blast+
    show "\<exists>b. symbol_bytes textAddr text s = Inr b"
      unfolding symbol_bytes_inside [OF assms(3,4) place] Let_def by (rule if_Inr)
  qed
  have "go_tls_symbols api t (Path pid [''exe'']) ef textAddr text symbols [] = Some (Inr (attach_all rs []))"
    unfolding assms(7) by (rule go_tls_symbols_run [OF inside getReturnOffsets_total [OF assms(6)]])
  then have "AttachGoTlsUprobes api exe t pid = Some (Inr (returned (attach_all rs [])))"
    using assms(1,2) by (auto simp: AttachGoTlsUprobes_def supported_go_def Let_def)
  moreover have "takeWhile (\<lambda>r. \<not> isl r) rs = rs" if "list_all (\<lambda>r. \<not> isl r) rs"
    using that by (induction rs) auto
  ultimately show ?thesis
    by (cases "list_all (\<lambda>r. \<not> isl r) rs") (simp_all add: attach_all_eq returned_def)
qed

text \<open>
  An executable with both functions and the symbol of its source file; the read function has a return,
  and its exit cannot be probed.
\<close>

abbreviation (input) file_sym :: elf_symbol where
  "file_sym \<equiv> \<lparr>sy_Name = ''go.go'', sy_Func = False, sy_Value = 0, sy_Size = 0\<rparr>"

abbreviation (input) write_sym :: elf_symbol where
  "write_sym \<equiv> \<lparr>sy_Name = goTlsWriteSymbol, sy_Func = True, sy_Value = 4, sy_Size = 2\<rparr>"

abbreviation (input) read_sym :: elf_symbol where
  "read_sym \<equiv> \<lparr>sy_Name = goTlsReadSymbol, sy_Func = True, sy_Value = 6, sy_Size = 3\<rparr>"

definition tls_elf :: elf_file where
  "tls_elf = \<lparr>ef_Machine = EM_X86_64, ef_Symbols = Inr [file_sym, write_sym, read_sym],
     ef_Text = Some (4, Inr ''wwxrxx''), ef_Progs = []\<rparr>"

definition tls_exe :: go_exe where
  "tls_exe = \<lparr>ge_BuildInfo = Inr ''go1.21.0'', ge_Readlink = Inr ''/app'', ge_Elf = Inr tls_elf\<rparr>"

definition two_handles :: tls_api where
  "two_handles = \<lparr>semver_Compare = (\<lambda>_ _. 1), OpenExecutable = (\<lambda>_. None),
     Uprobe = (\<lambda>_ s _ address offset. if offset = 1 then Inl ''EBUSY'' else Inr (unat address)),
     Uretprobe = (\<lambda>_ s _. Inr (length s)), x86_Decode = byte_decode, arm64_Decode = (\<lambda>_. False)\<rparr>"

lemma tls_read_bytes: "symbol_bytes 4 ''wwxrxx'' read_sym = Inr (Some ''xrx'')"
  by (simp add: symbol_bytes_def slice_def Let_def)

lemma tls_read_returns: "getReturnOffsets two_handles EM_X86_64 ''xrx'' = Some [1]"
  by (simp add: getReturnOffsets_def two_handles_def byte_decode_def x86_offsets.simps)

lemma tls_read_results:
  "go_results two_handles bare_tracer path tls_elf 4 ''wwxrxx'' read_sym = [Inr 6, Inl ''EBUSY'']"
  using goTls_symbols_differ
  by (simp add: go_results_def Let_def tls_read_bytes tls_elf_def tls_read_returns)
    (simp add: two_handles_def symbol_address_def)

lemma tls_write_results:
  "go_results two_handles bare_tracer path tls_elf 4 ''wwxrxx'' write_sym = [Inr 4]"
  by (simp add: go_results_def Let_def two_handles_def symbol_address_def tls_elf_def)

theorem go_tls_all_or_none_witness:
  "AttachGoTlsUprobes two_handles (\<lambda>_. tls_exe) bare_tracer 7 = Some (Inr ([], [4, 6]))"
proof -
  have sup: "supported_go two_handles tls_exe (Path 7 [''exe'']) tls_elf [file_sym, write_sym, read_sym] 4 ''wwxrxx''"
    by (simp add: supported_go_def tls_exe_def tls_elf_def two_handles_def)
  have run: "\<not> disableL7Tracing bare_tracer" by (simp add: bare_tracer_def)
  have dec: "0 < snd (x86_Decode two_handles b)" for b by (simp add: two_handles_def byte_decode_def)
  have rs: "[Inr 4, Inr 6, Inl ''EBUSY''] =
      concat (map (go_results two_handles bare_tracer (Path 7 [''exe'']) tls_elf 4 ''wwxrxx'') [file_sym, write_sym, read_sym])"
    by (simp add: tls_write_results tls_read_results) (simp add: go_results_def)
  show ?thesis
    using go_tls_all_or_none [where exe = "\<lambda>_. tls_exe", OF run sup _ _ _ dec rs] by (simp add: go_read_symbol_def)
qed

end
