(* ===== verification/Go_Utf8.thy ===== *)
theory Go_Utf8
imports Prelude
begin

text \<open>
  UTF-8 as Go's \<open>unicode/utf8\<close> reads it, and the length of a string's JSON encoding as
  \<open>encoding/json\<close> of Go 1.21 writes it (with HTML escaping, the default of \<open>json.Marshal\<close>).
\<close>

section \<open>Runes\<close>

definition in_range :: "nat \<Rightarrow> nat \<Rightarrow> char \<Rightarrow> bool" where
  "in_range lo hi c \<longleftrightarrow> lo \<le> byte_val c \<and> byte_val c \<le> hi"

text \<open>The bytes of the rune a string starts with; 0 when it starts with none.\<close>

fun rune_size :: "bytes \<Rightarrow> nat" where
  "rune_size [] = 0"
| "rune_size (c # s) =
     (if byte_val c < 128 then 1
      else if in_range 194 223 c then
        (case s of c1 # _ \<Rightarrow> if in_range 128 191 c1 then 2 else 0 | _ \<Rightarrow> 0)
      else if in_range 224 239 c then
        (case s of c1 # c2 # _ \<Rightarrow>
           if in_range (if byte_val c = 224 then 160 else 128) (if byte_val c = 237 then 159 else 191) c1 \<and>
              in_range 128 191 c2 then 3 else 0
         | _ \<Rightarrow> 0)
      else if in_range 240 244 c then
        (case s of c1 # c2 # c3 # _ \<Rightarrow>
           if in_range (if byte_val c = 240 then 144 else 128) (if byte_val c = 244 then 143 else 191) c1 \<and>
              in_range 128 191 c2 \<and> in_range 128 191 c3 then 4 else 0
         | _ \<Rightarrow> 0)
      else 0)"

function ValidString :: "bytes \<Rightarrow> bool" where
  "ValidString s =
     (if s = [] then True else if rune_size s = 0 then False else ValidString (drop (rune_size s) s))"
  by pat_completeness auto
termination
  by (relation "measure length") auto

declare ValidString.simps [simp del]

lemma ValidString_Nil [simp]: "ValidString []"
  by (simp add: ValidString.simps)

lemma ValidString_ascii_Cons [simp]: "byte_val c < 128 \<Longrightarrow> ValidString (c # s) = ValidString s"
  by (subst ValidString.simps) simp

section \<open>The length of a JSON string\<close>

text \<open>The length of one byte below 128 inside of the quotes.\<close>

definition json_ascii_len :: "nat \<Rightarrow> nat" where
  "json_ascii_len b =
     (if b = 34 \<or> b = 92 \<or> b = 10 \<or> b = 13 \<or> b = 9 then 2
      else if b < 32 \<or> b = 60 \<or> b = 62 \<or> b = 38 then 6 else 1)"

text \<open>An invalid byte is written as the escape of U+FFFD; U+2028 and U+2029 are escaped.\<close>

function json_body_len :: "bytes \<Rightarrow> nat" where
  "json_body_len s =
     (if s = [] then 0
      else let n = rune_size s
           in if n = 0 then 6 + json_body_len (drop 1 s)
              else if n = 1 then json_ascii_len (byte_val (hd s)) + json_body_len (drop 1 s)
              else (if n = 3 \<and> map byte_val (take 3 s) \<in> {[226, 128, 168], [226, 128, 169]} then 6 else n)
                   + json_body_len (drop n s))"
  by pat_completeness auto
termination
  by (relation "measure length") auto

declare json_body_len.simps [simp del]

definition json_string_len :: "bytes \<Rightarrow> nat" where
  "json_string_len s = 2 + json_body_len s"

lemma json_body_len_Nil [simp]: "json_body_len [] = 0"
  by (simp add: json_body_len.simps)

lemma json_body_len_ascii_Cons [simp]:
  "byte_val c < 128 \<Longrightarrow> json_body_len (c # s) = json_ascii_len (byte_val c) + json_body_len s"
  by (subst json_body_len.simps) simp

text \<open>Escaping never shortens a string.\<close>

lemma rune_size_le: "rune_size s \<le> length s"
  by (cases s) (auto split: list.split)

lemma json_ascii_len_pos: "1 \<le> json_ascii_len b"
  by (simp add: json_ascii_len_def)

lemma json_body_len_ge: "length s \<le> json_body_len s"
proof (induction "length s" arbitrary: s rule: less_induct)
  case less
  show ?case
  proof (cases "s = []")
    case False
    let ?n = "rune_size s"
    have d: "length s = k + length (drop k s)" if "k \<le> length s" for k using that by simp
    have ih: "length (drop k s) \<le> json_body_len (drop k s)" if "0 < k" for k
      using less [of "drop k s"] that False by simp
    consider "?n = 0" | "?n = 1" | "1 < ?n" by linarith
    then show ?thesis
    proof cases
      case 1
      then have "json_body_len s = 6 + json_body_len (drop 1 s)"
        using False by (subst json_body_len.simps) simp
      then show ?thesis using ih [of 1] by simp
    next
      case 2
      then have "json_body_len s = json_ascii_len (byte_val (hd s)) + json_body_len (drop 1 s)"
        using False by (subst json_body_len.simps) simp
      then show ?thesis using ih [of 1] json_ascii_len_pos [of "byte_val (hd s)"] by simp
    next
      case 3
      then have "json_body_len s =
          (if ?n = 3 \<and> map byte_val (take 3 s) \<in> {[226, 128, 168], [226, 128, 169]} then 6 else ?n)
          + json_body_len (drop ?n s)"
        using False by (subst json_body_len.simps) (simp add: Let_def)
      then have "?n + json_body_len (drop ?n s) \<le> json_body_len s" by (simp split: if_split_asm)
      then show ?thesis using ih [of ?n] d [OF rune_size_le] 3 by linarith
    qed
  qed simp
qed

section \<open>The JSON text\<close>

definition hex_digit :: "nat \<Rightarrow> char" where
  "hex_digit n = (if n < 10 then byte_of (48 + n) else byte_of (87 + n))"

definition json_escape :: "nat \<Rightarrow> bytes" where
  "json_escape n =
     [CHR 0x5C, CHR ''u'', hex_digit (n div 4096 mod 16), hex_digit (n div 256 mod 16),
      hex_digit (n div 16 mod 16), hex_digit (n mod 16)]"

definition json_ascii :: "char \<Rightarrow> bytes" where
  "json_ascii c =
     (let b = byte_val c
      in if b = 34 \<or> b = 92 then [CHR 0x5C, c]
         else if b = 10 then [CHR 0x5C, CHR ''n'']
         else if b = 13 then [CHR 0x5C, CHR ''r'']
         else if b = 9 then [CHR 0x5C, CHR ''t'']
         else if b < 32 \<or> b = 60 \<or> b = 62 \<or> b = 38 then json_escape b
         else [c])"

function json_body :: "bytes \<Rightarrow> bytes" where
  "json_body s =
     (if s = [] then []
      else let n = rune_size s
           in if n = 0 then json_escape 65533 @ json_body (drop 1 s)
              else if n = 1 then json_ascii (hd s) @ json_body (drop 1 s)
              else (if n = 3 \<and> map byte_val (take 3 s) = [226, 128, 168] then json_escape 8232
                    else if n = 3 \<and> map byte_val (take 3 s) = [226, 128, 169] then json_escape 8233
                    else take n s)
                   @ json_body (drop n s))"
  by pat_completeness auto
termination
  by (relation "measure length") auto

declare json_body.simps [simp del]

definition json_string :: "bytes \<Rightarrow> bytes" where
  "json_string s = CHR 0x22 # json_body s @ [CHR 0x22]"

lemma length_json_escape [simp]: "length (json_escape n) = 6"
  by (simp add: json_escape_def)

lemma length_json_ascii: "length (json_ascii c) = json_ascii_len (byte_val c)"
  by (simp add: json_ascii_def json_ascii_len_def Let_def)

lemma length_json_body: "length (json_body s) = json_body_len s"
proof (induction "length s" arbitrary: s rule: less_induct)
  case less
  show ?case
  proof (cases "s = []")
    case False
    let ?n = "rune_size s"
    have ih: "length (json_body (drop k s)) = json_body_len (drop k s)" if "0 < k" for k
      using less [of "drop k s"] that False by simp
    consider "?n = 0" | "?n = 1" | "1 < ?n" by linarith
    then show ?thesis
    proof cases
      case 1
      then show ?thesis using False ih [of 1] by (subst json_body.simps, subst json_body_len.simps) simp
    next
      case 2
      then show ?thesis using False ih [of 1]
        by (subst json_body.simps, subst json_body_len.simps) (simp add: length_json_ascii)
    next
      case 3
      have "length (if ?n = 3 \<and> map byte_val (take 3 s) = [226, 128, 168] then json_escape 8232
                    else if ?n = 3 \<and> map byte_val (take 3 s) = [226, 128, 169] then json_escape 8233
                    else take ?n s) =
          (if ?n = 3 \<and> map byte_val (take 3 s) \<in> {[226, 128, 168], [226, 128, 169]} then 6 else ?n)"
        using rune_size_le [of s] by simp
      moreover have "json_body s = (if ?n = 3 \<and> map byte_val (take 3 s) = [226, 128, 168] then json_escape 8232
                    else if ?n = 3 \<and> map byte_val (take 3 s) = [226, 128, 169] then json_escape 8233
                    else take ?n s) @ json_body (drop ?n s)"
        using False 3 by (subst json_body.simps) (simp add: Let_def)
      moreover have "json_body_len s =
          (if ?n = 3 \<and> map byte_val (take 3 s) \<in> {[226, 128, 168], [226, 128, 169]} then 6 else ?n)
          + json_body_len (drop ?n s)"
        using False 3 by (subst json_body_len.simps) (simp add: Let_def)
      ultimately show ?thesis using ih [of ?n] 3 by simp
    qed
  qed (simp add: json_body.simps)
qed

lemma length_json_string: "length (json_string s) = json_string_len s"
  by (simp add: json_string_def json_string_len_def length_json_body)

end
