(* ===== verification/Log_Message.thy ===== *)
theory Log_Message
imports Go_Utf8 "HOL-Library.AList"
begin

text \<open>
  \<open>pkg/log/level.go\<close> and \<open>message.go\<close>: the levels of the log, a log message, and the length of a batch of
  messages as \<open>json.Marshal\<close> writes it.
\<close>

section \<open>Levels\<close>

type_synonym Level = int

definition LevelCritical :: Level where "LevelCritical = - 1"
definition LevelError :: Level where "LevelError = 0"
definition LevelWarning :: Level where "LevelWarning = 1"
definition LevelInfo :: Level where "LevelInfo = 2"
definition LevelDebug :: Level where "LevelDebug = 3"

lemmas level_defs = LevelCritical_def LevelError_def LevelWarning_def LevelInfo_def LevelDebug_def

definition priority2Levels :: "bytes \<rightharpoonup> Level" where
  "priority2Levels =
     [''0'' \<mapsto> LevelCritical, ''1'' \<mapsto> LevelCritical, ''2'' \<mapsto> LevelCritical, ''3'' \<mapsto> LevelError,
      ''4'' \<mapsto> LevelWarning, ''5'' \<mapsto> LevelInfo, ''6'' \<mapsto> LevelInfo, ''7'' \<mapsto> LevelDebug]"

definition String2Level :: "bytes \<Rightarrow> Level" where
  "String2Level level =
     (if level = ''DEBUG'' then LevelDebug
      else if level = ''INFO'' then LevelInfo
      else if level = ''WARN'' then LevelWarning
      else if level = ''ERROR'' then LevelError
      else - 1)"

definition Level_string :: "Level \<Rightarrow> bytes" where
  "Level_string l =
     (if l = LevelDebug then ''DEBUG''
      else if l = LevelInfo then ''INFO''
      else if l = LevelWarning then ''WARN''
      else if l = LevelError then ''ERROR''
      else '''')"

text \<open>Every level survives being written and read, the critical one although its text is empty.\<close>

lemma String2Level_string: "String2Level (Level_string l) = (if l \<in> {0..3} then l else LevelCritical)"
proof -
  have "l \<in> {0..3} \<longleftrightarrow> l = 0 \<or> l = 1 \<or> l = 2 \<or> l = 3" by auto
  then show ?thesis by (auto simp: String2Level_def Level_string_def level_defs)
qed

lemma String2Level_range: "String2Level s \<in> {LevelCritical..LevelDebug}"
  by (simp add: String2Level_def level_defs)

section \<open>Messages\<close>

text \<open>
  A Go map of strings: \<open>None\<close> is the nil map; the order of the list stands for the order in which the map
  happens to be traversed.
\<close>

type_synonym str_map = "(bytes \<times> bytes) list option"

record Message =
  m_Content :: bytes
  m_Level :: bytes
  m_Timestamp :: int        \<comment> \<open>microseconds since the epoch\<close>
  m_Fields :: str_map
  m_Meta :: str_map

definition str_lookup :: "str_map \<Rightarrow> bytes \<rightharpoonup> bytes" where
  "str_lookup m = (case m of None \<Rightarrow> Map.empty | Some kvs \<Rightarrow> map_of kvs)"

definition str_write :: "str_map \<Rightarrow> bytes \<Rightarrow> bytes \<Rightarrow> str_map go" where
  "str_write m k v = (case m of None \<Rightarrow> Inl NilMapWrite | Some kvs \<Rightarrow> Inr (Some (AList.update k v kvs)))"

lemma str_write_lookup: "str_write m k v = Inr m' \<Longrightarrow> str_lookup m' = (str_lookup m)(k \<mapsto> v)"
  by (cases m) (auto simp: str_write_def str_lookup_def update_conv')

lemma no_panic_str_write: "no_panic (str_write m k v) \<longleftrightarrow> m \<noteq> None"
  by (cases m) (auto simp: str_write_def)

text \<open>The flag tells whether the notice of a duplicate is printed.\<close>

definition AddFields :: "bytes \<Rightarrow> bytes \<Rightarrow> Message \<Rightarrow> (bool \<times> Message) go" where
  "AddFields name val m =
     go_bind (str_write (m_Fields m) name val) (\<lambda>fs.
       Inr (str_lookup (m_Fields m) name \<noteq> None, m\<lparr>m_Fields := fs\<rparr>))"

definition AddMeta :: "bytes \<Rightarrow> bytes \<Rightarrow> Message \<Rightarrow> (bool \<times> Message) go" where
  "AddMeta name val m =
     go_bind (str_write (m_Meta m) name val) (\<lambda>ms.
       Inr (str_lookup (m_Fields m) name \<noteq> None, m\<lparr>m_Meta := ms\<rparr>))"

section \<open>The length of a batch in JSON\<close>

definition json_seq_len :: "nat list \<Rightarrow> nat" where
  "json_seq_len ns = 2 + sum_list ns + (length ns - 1)"      \<comment> \<open>brackets, elements, commas\<close>

definition json_member_len :: "bytes \<Rightarrow> nat \<Rightarrow> nat" where
  "json_member_len k n = json_string_len k + 1 + n"

definition json_map_len :: "str_map \<Rightarrow> nat" where
  "json_map_len m =
     (case m of
        None \<Rightarrow> length ''null''
      | Some kvs \<Rightarrow> json_seq_len (map (\<lambda>(k, v). json_member_len k (json_string_len v)) kvs))"

text \<open>
  \<open>time_json\<close> is the length of \<open>Time.MarshalJSON\<close> in the host's time zone, \<open>None\<close> when it fails
  (a year of more than four digits).
\<close>

definition json_message_len :: "(int \<Rightarrow> nat option) \<Rightarrow> Message \<Rightarrow> nat option" where
  "json_message_len time_json m =
     map_option (\<lambda>t. json_seq_len
       [json_member_len ''Content'' (json_string_len (m_Content m)),
        json_member_len ''Level'' (json_string_len (m_Level m)),
        json_member_len ''Timestamp'' t,
        json_member_len ''Fields'' (json_map_len (m_Fields m)),
        json_member_len ''Meta'' (json_map_len (m_Meta m))]) (time_json (m_Timestamp m))"

definition json_Marshal_len :: "(int \<Rightarrow> nat option) \<Rightarrow> Message list \<Rightarrow> nat option" where
  "json_Marshal_len time_json ms = map_option json_seq_len (those (map (json_message_len time_json) ms))"

lemma json_message_len_content: "json_message_len tj m = Some n \<Longrightarrow> length (m_Content m) < n"
proof -
  assume "json_message_len tj m = Some n"
  then obtain t where "tj (m_Timestamp m) = Some t"
    and n: "n = json_seq_len
       [json_member_len ''Content'' (json_string_len (m_Content m)),
        json_member_len ''Level'' (json_string_len (m_Level m)),
        json_member_len ''Timestamp'' t,
        json_member_len ''Fields'' (json_map_len (m_Fields m)),
        json_member_len ''Meta'' (json_map_len (m_Meta m))]"
    by (auto simp: json_message_len_def)
  have "length (m_Content m) \<le> json_body_len (m_Content m)" by (rule json_body_len_ge)
  then show ?thesis by (simp only: n json_seq_len_def json_member_len_def json_string_len_def sum_list.Cons)
qed

lemma those_Some: "those xs = Some ys \<longleftrightarrow> xs = map Some ys"
proof (induction xs arbitrary: ys)
  case (Cons x xs)
  show ?case
  proof (cases x)
    case (Some y)
    then show ?thesis by (cases ys) (auto simp: Cons)
  qed (cases ys, auto)
qed auto

text \<open>The encoding of a batch is longer than the contents in it, and grows with every message.\<close>

lemma json_Marshal_len_contents:
  assumes "json_Marshal_len tj ms = Some n"
  shows "sum_list (map (length \<circ> m_Content) ms) < n"
proof -
  from assms obtain ns where ns: "map (json_message_len tj) ms = map Some ns" and n: "n = json_seq_len ns"
    by (auto simp: json_Marshal_len_def those_Some)
  from ns have "sum_list (map (length \<circ> m_Content) ms) \<le> sum_list ns"
  proof (induction ms arbitrary: ns)
    case (Cons m ms)
    then obtain k ks where "ns = k # ks" "json_message_len tj m = Some k" "map (json_message_len tj) ms = map Some ks"
      by (cases ns) auto
    with Cons.IH [of ks] json_message_len_content [of tj m k] show ?case by simp
  qed simp
  then show ?thesis by (simp add: n json_seq_len_def)
qed

lemma json_Marshal_len_defined:
  "(\<forall>m \<in> set ms. tj (m_Timestamp m) \<noteq> None) \<Longrightarrow> \<exists>n. json_Marshal_len tj ms = Some n"
proof (induction ms)
  case (Cons m ms)
  then obtain t where "tj (m_Timestamp m) = Some t" by auto
  then have "\<exists>k. json_message_len tj m = Some k" by (simp add: json_message_len_def)
  with Cons show ?case by (auto simp: json_Marshal_len_def)
qed (simp add: json_Marshal_len_def)

end
