(* ===== verification/Log_Buffer.thy ===== *)
theory Log_Buffer
imports Log_Message
begin

text \<open>
  \<open>pkg/log/multiline_buffer.go\<close>: the buffer that collects messages into batches. Sending a batch on the
  buffer's unbuffered channel is part of \<open>Add\<close>; here \<open>Add\<close> returns the batches it sends, and
  the interleaving with the receiver is the subject of the provider's theory.
\<close>

section \<open>The buffer\<close>

record MessageBuffer =
  maxBytes :: int
  maxLines :: int
  lastBytes :: int
  numLines :: int
  message :: "Message list"
  closed :: bool

text \<open>The timeout is an argument that the code does not use.\<close>

definition NewMessageBuffer :: "int \<Rightarrow> int \<Rightarrow> int \<Rightarrow> MessageBuffer" where
  "NewMessageBuffer mb ml timeout =
     \<lparr>maxBytes = mb, maxLines = ml, lastBytes = 0, numLines = 0, message = [], closed = False\<rparr>"

definition buffer_reset :: "MessageBuffer \<Rightarrow> MessageBuffer" where
  "buffer_reset m = m\<lparr>numLines := 0, message := []\<rparr>"

definition flushMessage :: "MessageBuffer \<Rightarrow> Message list list \<times> MessageBuffer" where
  "flushMessage m = (if numLines m = 0 then ([], m) else ([message m], buffer_reset m))"

definition push :: "(int \<Rightarrow> nat option) \<Rightarrow> Message \<Rightarrow> MessageBuffer \<Rightarrow> MessageBuffer" where
  "push tj msg m =
     (let ms = message m @ [msg]
      in m\<lparr>message := ms,
           lastBytes := (case json_Marshal_len tj ms of None \<Rightarrow> lastBytes m | Some j \<Rightarrow> int j),
           numLines := numLines m + 1\<rparr>)"

definition Add :: "(int \<Rightarrow> nat option) \<Rightarrow> Message \<Rightarrow> MessageBuffer \<Rightarrow> Message list list \<times> MessageBuffer" where
  "Add tj msg m =
     (if closed m then ([], m)
      else if \<not> ValidString (m_Content msg) then ([], m)
      else if m_Content msg = '''' then ([], m)
      else let (sent, m) = (if maxLines m \<le> numLines m \<or> maxBytes m \<le> lastBytes m then flushMessage m else ([], m))
           in (sent, push tj msg m))"

fun add_all :: "(int \<Rightarrow> nat option) \<Rightarrow> Message list \<Rightarrow> MessageBuffer \<Rightarrow> Message list list \<times> MessageBuffer" where
  "add_all tj [] m = ([], m)"
| "add_all tj (msg # msgs) m =
     (let (bs, m) = Add tj msg m; (bs', m) = add_all tj msgs m in (bs @ bs', m))"

section \<open>Contents\<close>

definition accepted :: "Message \<Rightarrow> bool" where
  "accepted msg \<longleftrightarrow> ValidString (m_Content msg) \<and> m_Content msg \<noteq> ''''"

text \<open>Whether adding a message makes the buffer send what it holds first.\<close>

definition flushes :: "Message \<Rightarrow> MessageBuffer \<Rightarrow> bool" where
  "flushes msg m \<longleftrightarrow> \<not> closed m \<and> accepted msg \<and> (maxLines m \<le> numLines m \<or> maxBytes m \<le> lastBytes m) \<and> numLines m \<noteq> 0"

lemma push_simps [simp]:
  "maxBytes (push tj msg m) = maxBytes m" "maxLines (push tj msg m) = maxLines m"
  "numLines (push tj msg m) = numLines m + 1" "message (push tj msg m) = message m @ [msg]"
  "closed (push tj msg m) = closed m"
  "lastBytes (push tj msg m) =
    (case json_Marshal_len tj (message m @ [msg]) of None \<Rightarrow> lastBytes m | Some j \<Rightarrow> int j)"
  by (simp_all add: push_def Let_def)

lemma buffer_reset_simps [simp]:
  "maxBytes (buffer_reset m) = maxBytes m" "maxLines (buffer_reset m) = maxLines m"
  "numLines (buffer_reset m) = 0" "message (buffer_reset m) = []"
  "closed (buffer_reset m) = closed m" "lastBytes (buffer_reset m) = lastBytes m"
  by (simp_all add: buffer_reset_def)

lemma Add_cases:
  "Add tj msg m =
    (if closed m \<or> \<not> accepted msg then ([], m)
     else if flushes msg m then ([message m], push tj msg (buffer_reset m))
     else ([], push tj msg m))"
  by (auto simp: Add_def accepted_def flushes_def flushMessage_def)

lemma Add_sends: "fst (Add tj msg m) = (if flushes msg m then [message m] else [])"
  by (auto simp: Add_cases flushes_def)

lemma add_all_append:
  "add_all tj (xs @ ys) m =
    (let (bs, m) = add_all tj xs m; (bs', m) = add_all tj ys m in (bs @ bs', m))"
  by (induction xs arbitrary: m) (simp_all add: split_beta Let_def)

lemma add_all_snoc:
  "add_all tj (xs @ [y]) m =
    (fst (add_all tj xs m) @ fst (Add tj y (snd (add_all tj xs m))), snd (Add tj y (snd (add_all tj xs m))))"
  by (simp add: add_all_append split_beta Let_def)

lemma add_all_closed [simp]: "closed (snd (add_all tj xs m)) = closed m"
  by (induction xs arbitrary: m) (simp_all add: split_beta Let_def Add_cases)

text \<open>Nothing accepted is lost or reordered by the buffer itself.\<close>

definition counted :: "MessageBuffer \<Rightarrow> bool" where
  "counted m \<longleftrightarrow> \<not> closed m \<and> numLines m = int (length (message m))"

lemma counted_new [simp]: "counted (NewMessageBuffer mb ml timeout)"
  by (simp add: counted_def NewMessageBuffer_def)

lemma message_new [simp]: "message (NewMessageBuffer mb ml timeout) = []"
  by (simp add: NewMessageBuffer_def)

lemma counted_Add: "counted m \<Longrightarrow> counted (snd (Add tj msg m))"
  by (auto simp: counted_def Add_cases)

lemma counted_add_all: "counted m \<Longrightarrow> counted (snd (add_all tj xs m))"
  by (induction xs arbitrary: m) (simp_all add: split_beta Let_def counted_Add)

lemma Add_contents:
  "counted m \<Longrightarrow> concat (fst (Add tj msg m)) @ message (snd (Add tj msg m)) =
    message m @ (if accepted msg then [msg] else [])"
  by (auto simp: counted_def Add_cases)

lemma add_all_contents:
  "counted m \<Longrightarrow> concat (fst (add_all tj xs m)) @ message (snd (add_all tj xs m)) = message m @ filter accepted xs"
proof (induction xs arbitrary: m)
  case (Cons x xs)
  then show ?case
    using Add_contents [OF Cons.prems, of tj x] Cons.IH [OF counted_Add [OF Cons.prems], of tj x]
    by (simp add: split_beta Let_def)
qed simp

section \<open>Batches\<close>

text \<open>
  The specification of the batches has no counters: a batch is closed by the first message that finds it
  full, and a batch is full when it has the allowed number of lines or its encoding the
  allowed number of bytes.
\<close>

definition batch_full :: "(int \<Rightarrow> nat option) \<Rightarrow> int \<Rightarrow> int \<Rightarrow> Message list \<Rightarrow> bool" where
  "batch_full tj mb ml b \<longleftrightarrow> b \<noteq> [] \<and>
     (ml \<le> int (length b) \<or> (case json_Marshal_len tj b of None \<Rightarrow> False | Some n \<Rightarrow> mb \<le> int n))"

fun batches :: "(Message list \<Rightarrow> bool) \<Rightarrow> Message list \<Rightarrow> Message list \<Rightarrow> Message list list \<times> Message list" where
  "batches full b [] = ([], b)"
| "batches full b (x # xs) =
     (if full b then (let (bs, r) = batches full [x] xs in (b # bs, r)) else batches full (b @ [x]) xs)"

definition encodable :: "(int \<Rightarrow> nat option) \<Rightarrow> Message list \<Rightarrow> bool" where
  "encodable tj ms \<longleftrightarrow> list_all (\<lambda>m. tj (m_Timestamp m) \<noteq> None) ms"

definition measured :: "(int \<Rightarrow> nat option) \<Rightarrow> MessageBuffer \<Rightarrow> bool" where
  "measured tj m \<longleftrightarrow> counted m \<and> encodable tj (message m) \<and>
     (message m \<noteq> [] \<longrightarrow> Some (nat (lastBytes m)) = json_Marshal_len tj (message m) \<and> 0 \<le> lastBytes m)"

lemma measured_new [simp]: "measured tj (NewMessageBuffer mb ml timeout)"
  by (simp add: measured_def encodable_def)

lemma encodable_Some: "encodable tj ms \<Longrightarrow> \<exists>n. json_Marshal_len tj ms = Some n"
  by (rule json_Marshal_len_defined) (simp add: encodable_def list_all_iff)

lemma measured_push:
  assumes "\<not> closed m" and "numLines m = int (length (message m))" and "encodable tj (message m @ [msg])"
  shows "measured tj (push tj msg m)"
  using assms encodable_Some [OF assms(3)] by (auto simp: measured_def counted_def encodable_def)

lemma flushes_full:
  assumes "measured tj m" and "accepted msg"
  shows "flushes msg m \<longleftrightarrow> batch_full tj (maxBytes m) (maxLines m) (message m)"
proof (cases "message m = []")
  case False
  with assms(1) have "json_Marshal_len tj (message m) = Some (nat (lastBytes m))" "0 \<le> lastBytes m"
    by (auto simp: measured_def)
  with assms False show ?thesis by (auto simp: flushes_def batch_full_def measured_def counted_def)
qed (use assms in \<open>auto simp: flushes_def batch_full_def measured_def counted_def\<close>)

lemma add_all_batches:
  assumes "measured tj m" and "encodable tj xs"
  shows "fst (add_all tj xs m) = fst (batches (batch_full tj (maxBytes m) (maxLines m)) (message m) (filter accepted xs)) \<and>
    message (snd (add_all tj xs m)) = snd (batches (batch_full tj (maxBytes m) (maxLines m)) (message m) (filter accepted xs))"
  using assms
proof (induction xs arbitrary: m)
  case (Cons x xs)
  have open_m: "\<not> closed m" and lines: "numLines m = int (length (message m))" and e: "encodable tj (message m)"
    using Cons.prems(1) by (auto simp: measured_def counted_def)
  have x: "encodable tj [x]" and xs: "encodable tj xs" using Cons.prems(2) by (auto simp: encodable_def)
  show ?case
  proof (cases "accepted x")
    case False
    then have "Add tj x m = ([], m)" by (simp add: Add_cases)
    then show ?thesis using False Cons.IH [OF Cons.prems(1) xs] by (simp add: split_beta)
  next
    case acc: True
    show ?thesis
    proof (cases "flushes x m")
      case True
      then have a: "Add tj x m = ([message m], push tj x (buffer_reset m))" using acc open_m by (simp add: Add_cases)
      have "measured tj (push tj x (buffer_reset m))" using x open_m by (intro measured_push) simp_all
      from Cons.IH [OF this xs] show ?thesis
        using acc True flushes_full [OF Cons.prems(1) acc] by (simp add: a split_beta Let_def)
    next
      case False
      then have a: "Add tj x m = ([], push tj x m)" using acc open_m by (simp add: Add_cases)
      have "measured tj (push tj x m)" using x e open_m lines by (intro measured_push) (simp_all add: encodable_def)
      from Cons.IH [OF this xs] show ?thesis
        using acc False flushes_full [OF Cons.prems(1) acc] by (simp add: a split_beta Let_def)
    qed
  qed
qed simp

lemma batches_full:
  assumes "\<not> full []" and "\<not> full (butlast b0)"
  shows "(\<forall>b \<in> set (fst (batches full b0 xs)). full b \<and> \<not> full (butlast b)) \<and>
    \<not> full (butlast (snd (batches full b0 xs)))"
  using assms
proof (induction full b0 xs rule: batches.induct)
  case (2 full b x xs)
  show ?case
  proof (cases "full b")
    case True
    have "\<not> full (butlast [x])" using "2.prems"(1) by simp
    from "2.IH"(1) [OF True "2.prems"(1) this] "2.prems" True show ?thesis by (simp add: split_beta)
  next
    case False
    with "2.IH"(2) [OF False "2.prems"(1)] show ?thesis by simp
  qed
qed simp

lemma batches_concat: "concat (fst (batches full b0 xs)) @ snd (batches full b0 xs) = b0 @ xs"
  by (induction full b0 xs rule: batches.induct) (simp_all add: split_beta)

lemma not_batch_full_Nil [simp]: "\<not> batch_full tj mb ml []"
  by (simp add: batch_full_def)

lemma batch_full_length:
  assumes "\<not> batch_full tj mb ml (butlast b)"
  shows "int (length b) \<le> max 1 ml"
proof (cases "butlast b = []")
  case True
  then have "length b \<le> 1" by (cases b rule: rev_cases) auto
  then show ?thesis by simp
next
  case False
  with assms have "int (length (butlast b)) < ml" by (auto simp: batch_full_def)
  then show ?thesis by simp
qed

lemma batch_full_bytes:
  assumes "\<not> batch_full tj mb ml (butlast b)" and "encodable tj b" and "butlast b \<noteq> []"
  shows "int (sum_list (map (length \<circ> m_Content) (butlast b))) < mb"
proof -
  have "encodable tj (butlast b)" using assms(2) by (auto simp: encodable_def list_all_iff dest: in_set_butlastD)
  then obtain n where n: "json_Marshal_len tj (butlast b) = Some n" using encodable_Some by blast
  with assms have "int n < mb" by (auto simp: batch_full_def)
  with json_Marshal_len_contents [OF n] show ?thesis by simp
qed

lemma fst_add_all_new:
  assumes "encodable tj ms"
  shows "fst (add_all tj ms (NewMessageBuffer mb ml timeout)) = fst (batches (batch_full tj mb ml) [] (filter accepted ms))"
    and "message (snd (add_all tj ms (NewMessageBuffer mb ml timeout))) = snd (batches (batch_full tj mb ml) [] (filter accepted ms))"
  using add_all_batches [OF measured_new assms, of mb ml timeout] by (simp_all add: NewMessageBuffer_def)

lemma encodable_batch:
  assumes "encodable tj ms" and "b \<in> set (fst (add_all tj ms (NewMessageBuffer mb ml timeout)))"
  shows "encodable tj b"
proof -
  have "set b \<subseteq> set (concat (fst (add_all tj ms (NewMessageBuffer mb ml timeout))))" using assms(2) by auto
  also have "\<dots> \<subseteq> set (filter accepted ms)"
    using add_all_contents [where m = "NewMessageBuffer mb ml timeout" and tj = tj and xs = ms, OF counted_new]
    by (metis append_Nil message_new set_append Un_upper1)
  finally show ?thesis using assms(1) by (auto simp: encodable_def list_all_iff)
qed

section \<open>Properties\<close>

text \<open>C38: The buffer implements greedy batching. With its line counter and its remembered length of the last
  encoding, the buffer sends just the batches of the specification that looks at the messages
  alone: a batch is sent, whole, when the first acceptable message arrives that finds it with the
  allowed number of lines or its JSON encoding with the allowed number of bytes. What it still
  holds is the specification's open batch, whatever the timeout: nothing is sent because
  time has passed, so without further messages the open batch is never sent.\<close>
theorem buffer_refines_batches:
  assumes "encodable tj ms"
  shows "(\<lambda>r. (fst r, message (snd r))) (add_all tj ms (NewMessageBuffer mb ml timeout)) =
    batches (batch_full tj mb ml) [] (filter accepted ms)"
  by (simp add: fst_add_all_new [OF assms])

text \<open>Batches keep the configured bounds, but for their last message. A batch that is sent is not empty and
  has at most the allowed number of lines (one, if less is allowed); without its last message its
  contents are shorter than the allowed number of bytes, but the last message, which is not
  measured before it is added, may make it longer by any amount.\<close>
theorem buffer_batch_bounds:
  assumes "encodable tj ms" and "b \<in> set (fst (add_all tj ms (NewMessageBuffer mb ml timeout)))"
  shows "b \<noteq> [] \<and> int (length b) \<le> max 1 ml \<and>
    (butlast b = [] \<or> int (sum_list (map (length \<circ> m_Content) (butlast b))) < mb)"
proof -
  have b: "batch_full tj mb ml b" "\<not> batch_full tj mb ml (butlast b)"
    using batches_full [of "batch_full tj mb ml" "[]" "filter accepted ms"] assms(2)
    by (auto simp: fst_add_all_new [OF assms(1)])
  moreover have "b \<noteq> []" using b(1) by (auto simp: batch_full_def)
  ultimately show ?thesis
    using batch_full_length batch_full_bytes [OF _ encodable_batch [OF assms]] by blast
qed

text \<open>Three lines into batches of two.\<close>

definition line :: "bytes \<Rightarrow> Message" where
  "line s = \<lparr>m_Content = s, m_Level = ''INFO'', m_Timestamp = 0, m_Fields = None, m_Meta = None\<rparr>"

abbreviation (input) three_lines :: "Message list" where
  "three_lines \<equiv> [line ''a'', line ''b'', line '''', line ''c'']"

lemma accepted_line: "accepted (line [c]) \<longleftrightarrow> byte_val c < 128 \<or> ValidString [c]" "\<not> accepted (line [])"
  by (auto simp: accepted_def line_def)

lemma three_accepted: "filter accepted three_lines = [line ''a'', line ''b'', line ''c'']"
  by (simp add: accepted_line byte_val_def)

lemma three_encodable: "encodable (\<lambda>_. Some 22) three_lines"
  by (simp add: encodable_def)

lemma three_batches:
  "batches (batch_full (\<lambda>_. Some 22) 102400 2) [] [line ''a'', line ''b'', line ''c''] =
    ([[line ''a'', line ''b'']], [line ''c''])"
proof -
  have "\<not> batch_full (\<lambda>_. Some 22) 102400 2 [line ''a'']"
  proof -
    have "json_Marshal_len (\<lambda>_. Some 22) [line ''a''] = Some 93" by code_simp
    then show ?thesis by (simp add: batch_full_def)
  qed
  moreover have "batch_full (\<lambda>_. Some 22) 102400 2 [line ''a'', line ''b'']" by (simp add: batch_full_def)
  ultimately show ?thesis by simp
qed

theorem buffer_refines_batches_witness:
  "(\<lambda>r. (fst r, message (snd r))) (add_all (\<lambda>_. Some 22) three_lines (NewMessageBuffer 102400 2 0)) =
    ([[line ''a'', line ''b'']], [line ''c''])"
  using buffer_refines_batches [OF three_encodable, of 102400 2 0] by (simp only: three_accepted three_batches)

theorem buffer_batch_bounds_witness:
  "int (length [line ''a'', line ''b'']) \<le> 2 \<and>
   [line ''a'', line ''b''] \<in> set (fst (add_all (\<lambda>_. Some 22) three_lines (NewMessageBuffer 102400 2 0)))"
proof -
  have m: "[line ''a'', line ''b''] \<in> set (fst (add_all (\<lambda>_. Some 22) three_lines (NewMessageBuffer 102400 2 0)))"
    by (simp only: fst_add_all_new [OF three_encodable] three_accepted three_batches) simp
  show ?thesis using buffer_batch_bounds [OF three_encodable m] m by simp
qed

end
