(* ===== verification/Log_Provider.thy ===== *)
theory Log_Provider
imports Log_Buffer
begin

text \<open>
  \<open>pkg/exporter/log/log_provider.go\<close>: the two goroutines that \<open>Start\<close> creates. One takes messages from a channel
  and adds them to a buffer, the other takes batches from the buffer's unbuffered channel and
  exports them; both leave their loop when the context is cancelled, but only at their
  \<open>select\<close>. The model is a step relation over the two program counters, for every schedule.
\<close>

section \<open>State\<close>

datatype reader_pc =
    Reader_select
  | Reader_sending Message      \<comment> \<open>in \<open>Add\<close> of this message, at the send in \<open>flushMessage\<close>, holding the lock\<close>
  | Reader_done

datatype exporter_pc =
    Exporter_select
  | Exporter_exporting "Message list"
  | Exporter_done

text \<open>
  A run: the messages that will be offered on the channel, the history of those taken, the buffer, the two
  goroutines, the batches exported so far, and whether the context is cancelled.
\<close>

record run =
  offered :: "Message list"
  taken :: "Message list"
  buffer :: MessageBuffer
  reader :: reader_pc
  exporter :: exporter_pc
  exported :: "Message list list"
  cancelled :: bool

record ExportProverConfig =
  cfg_maxBytes :: int
  cfg_maxLines :: int
  cfg_timeout :: int

text \<open>\<open>stop\<close> is the run whose context it cancels, none before \<open>Start\<close>; a second \<open>Start\<close> forgets the first run.\<close>

record ExportProvider =
  ep_message :: "Message list"
  ep_stop :: "run option"
  ep_config :: ExportProverConfig

definition NewLoggerProvider :: "Message list \<Rightarrow> ExportProverConfig \<Rightarrow> ExportProvider" where
  "NewLoggerProvider msgs config = \<lparr>ep_message = msgs, ep_stop = None, ep_config = config\<rparr>"

definition start_run :: "ExportProverConfig \<Rightarrow> Message list \<Rightarrow> run" where
  "start_run config msgs =
     \<lparr>offered = msgs, taken = [],
      buffer = NewMessageBuffer (cfg_maxBytes config) (cfg_maxLines config) (cfg_timeout config),
      reader = Reader_select, exporter = Exporter_select, exported = [], cancelled = False\<rparr>"

definition Start :: "ExportProvider \<Rightarrow> ExportProvider" where
  "Start e = e\<lparr>ep_stop := Some (start_run (ep_config e) (ep_message e))\<rparr>"

text \<open>Calling the nil function of a provider that was not started panics.\<close>

definition Stop :: "ExportProvider \<Rightarrow> ExportProvider go" where
  "Stop e =
     (case ep_stop e of
        None \<Rightarrow> Inl NilDereference
      | Some r \<Rightarrow> Inr (e\<lparr>ep_stop := Some (r\<lparr>cancelled := True\<rparr>)\<rparr>))"

section \<open>Steps\<close>

text \<open>The steps of the goroutines before the context is cancelled, and any time.\<close>

inductive work_step :: "(int \<Rightarrow> nat option) \<Rightarrow> run \<Rightarrow> run \<Rightarrow> bool" for tj where
  take_msg:
    "reader s = Reader_select \<Longrightarrow> offered s = msg # msgs \<Longrightarrow> \<not> flushes msg (buffer s) \<Longrightarrow>
     work_step tj s (s\<lparr>offered := msgs, taken := taken s @ [msg], buffer := snd (Add tj msg (buffer s))\<rparr>)"
| take_sending:
    "reader s = Reader_select \<Longrightarrow> offered s = msg # msgs \<Longrightarrow> flushes msg (buffer s) \<Longrightarrow>
     work_step tj s (s\<lparr>offered := msgs, taken := taken s @ [msg], reader := Reader_sending msg\<rparr>)"
| hand_over:
    "reader s = Reader_sending msg \<Longrightarrow> exporter s = Exporter_select \<Longrightarrow>
     work_step tj s (s\<lparr>reader := Reader_select, exporter := Exporter_exporting (message (buffer s)),
                       buffer := snd (Add tj msg (buffer s))\<rparr>)"
| exported_batch:
    "exporter s = Exporter_exporting b \<Longrightarrow>
     work_step tj s (s\<lparr>exporter := Exporter_select, exported := exported s @ [b]\<rparr>)"

text \<open>With cancellation, which can come at any time; a goroutine may then leave at its \<open>select\<close>.\<close>

inductive provider_step :: "(int \<Rightarrow> nat option) \<Rightarrow> run \<Rightarrow> run \<Rightarrow> bool" for tj where
  work: "work_step tj s s' \<Longrightarrow> provider_step tj s s'"
| cancel: "\<not> cancelled s \<Longrightarrow> provider_step tj s (s\<lparr>cancelled := True\<rparr>)"
| reader_quits:
    "cancelled s \<Longrightarrow> reader s = Reader_select \<Longrightarrow> provider_step tj s (s\<lparr>reader := Reader_done\<rparr>)"
| exporter_quits:
    "cancelled s \<Longrightarrow> exporter s = Exporter_select \<Longrightarrow> provider_step tj s (s\<lparr>exporter := Exporter_done\<rparr>)"

inductive_cases work_stepE: "work_step tj s s'"
inductive_cases provider_stepE: "provider_step tj s s'"

text \<open>When a state can do nothing more, in terms of the program counters.\<close>

lemma work_stuck_iff:
  "(\<nexists>s'. work_step tj s s') \<longleftrightarrow>
    (reader s = Reader_select \<longrightarrow> offered s = []) \<and>
    (\<forall>msg. reader s = Reader_sending msg \<longrightarrow> exporter s \<noteq> Exporter_select) \<and>
    (\<forall>b. exporter s \<noteq> Exporter_exporting b)"
proof -
  have "\<exists>s'. work_step tj s s'" if "reader s = Reader_select" "offered s \<noteq> []"
    using that by (cases "offered s"; cases "flushes (hd (offered s)) (buffer s)") (auto intro: work_step.intros)
  then show ?thesis by (auto elim!: work_stepE intro: work_step.intros)
qed

lemma provider_stuck_iff:
  "(\<nexists>s'. provider_step tj s s') \<longleftrightarrow>
    cancelled s \<and> exporter s = Exporter_done \<and> reader s \<noteq> Reader_select"
proof
  assume stuck: "\<nexists>s'. provider_step tj s s'"
  then have c: "cancelled s" by (blast intro: cancel)
  with stuck have "exporter s \<noteq> Exporter_select" "reader s \<noteq> Reader_select"
    by (blast intro: exporter_quits, blast intro: reader_quits)
  moreover have "exporter s \<noteq> Exporter_exporting b" for b using stuck by (blast intro: work exported_batch)
  ultimately show "cancelled s \<and> exporter s = Exporter_done \<and> reader s \<noteq> Reader_select"
    using c by (cases "exporter s") auto
next
  assume "cancelled s \<and> exporter s = Exporter_done \<and> reader s \<noteq> Reader_select"
  then show "\<nexists>s'. provider_step tj s s'"
    by (auto elim!: provider_stepE work_stepE)
qed

section \<open>The invariant\<close>

definition in_hand :: "run \<Rightarrow> Message list list" where
  "in_hand s = (case exporter s of Exporter_exporting b \<Rightarrow> [b] | _ \<Rightarrow> [])"

definition pending :: "run \<Rightarrow> Message list" where
  "pending s = (case reader s of Reader_sending msg \<Rightarrow> [msg] | _ \<Rightarrow> [])"

text \<open>
  The two goroutines together do what the buffer does alone: what has left it is what adding the taken messages
  one after the other sends, and it holds what it then would hold. A reader at the send
  still has to add its message, which is acceptable and makes the buffer send.
\<close>

definition run_inv :: "(int \<Rightarrow> nat option) \<Rightarrow> MessageBuffer \<Rightarrow> Message list \<Rightarrow> run \<Rightarrow> bool" where
  "run_inv tj b0 msgs s \<longleftrightarrow>
     taken s @ offered s = msgs \<and>
     (\<exists>done. taken s = done @ pending s \<and>
        exported s @ in_hand s = fst (add_all tj done b0) \<and> buffer s = snd (add_all tj done b0)) \<and>
     list_all (\<lambda>msg. flushes msg (buffer s)) (pending s)"

lemma pending_simps [simp]:
  "reader s = Reader_select \<Longrightarrow> pending s = []" "reader s = Reader_done \<Longrightarrow> pending s = []"
  "reader s = Reader_sending msg \<Longrightarrow> pending s = [msg]"
  by (simp_all add: pending_def)

lemma in_hand_simps [simp]:
  "exporter s = Exporter_select \<Longrightarrow> in_hand s = []" "exporter s = Exporter_done \<Longrightarrow> in_hand s = []"
  "exporter s = Exporter_exporting b \<Longrightarrow> in_hand s = [b]"
  by (simp_all add: in_hand_def)

lemma run_inv_start: "run_inv tj (buffer (start_run config msgs)) msgs (start_run config msgs)"
  by (simp add: run_inv_def start_run_def pending_def in_hand_def)

lemma run_inv_work:
  assumes "work_step tj s s'" and "run_inv tj b0 msgs s"
  shows "run_inv tj b0 msgs s'"
  using assms
proof cases
  case (take_msg msg ms)
  with assms(2) show ?thesis
    by (auto simp: run_inv_def pending_def in_hand_def add_all_snoc Add_sends intro!: exI [of _ "taken s @ [msg]"])
next
  case (take_sending msg ms)
  with assms(2) show ?thesis
    by (auto simp: run_inv_def pending_def in_hand_def intro!: exI [of _ "taken s"])
next
  case (hand_over msg)
  with assms(2) obtain before where d: "taken s = before @ [msg]" "exported s = fst (add_all tj before b0)"
    "buffer s = snd (add_all tj before b0)" and f: "flushes msg (buffer s)"
    by (auto simp: run_inv_def)
  from f have "fst (Add tj msg (buffer s)) = [message (buffer s)]" by (simp add: Add_sends)
  with assms(2) hand_over d show ?thesis
    by (auto simp: run_inv_def pending_def in_hand_def add_all_snoc intro!: exI [of _ "before @ [msg]"])
next
  case (exported_batch b)
  with assms(2) show ?thesis by (simp add: run_inv_def pending_def in_hand_def)
qed

lemma run_inv_step:
  assumes "provider_step tj s s'" and "run_inv tj b0 msgs s"
  shows "run_inv tj b0 msgs s'"
  using assms
  by cases (auto simp: run_inv_def pending_def in_hand_def dest: run_inv_work)

lemma run_inv_steps: "(provider_step tj)\<^sup>*\<^sup>* s s' \<Longrightarrow> run_inv tj b0 msgs s \<Longrightarrow> run_inv tj b0 msgs s'"
  by (induction rule: rtranclp_induct) (auto intro: run_inv_step)

lemma work_steps: "(work_step tj ^^ n) s s' \<Longrightarrow> (provider_step tj)\<^sup>*\<^sup>* s s'"
proof (induction n arbitrary: s')
  case (Suc n)
  then obtain t where "(work_step tj ^^ n) s t" "work_step tj t s'" by auto
  with Suc.IH [of t] show ?case by (auto intro: rtranclp.rtrancl_into_rtrancl provider_step.work)
qed simp

section \<open>Progress\<close>

definition work_left :: "run \<Rightarrow> nat" where
  "work_left s = 3 * length (offered s) + 2 * length (pending s) + length (in_hand s)"

lemma work_step_decreases: "work_step tj s s' \<Longrightarrow> work_left s' < work_left s"
  by (erule work_stepE) (simp_all add: work_left_def pending_def in_hand_def split: exporter_pc.split)

lemma work_steps_bound: "(work_step tj ^^ n) s s' \<Longrightarrow> n + work_left s' \<le> work_left s"
proof (induction n arbitrary: s')
  case (Suc n)
  then obtain t where "(work_step tj ^^ n) s t" "work_step tj t s'" by auto
  with Suc.IH [of t] work_step_decreases [of tj t s'] show ?case by simp
qed simp

text \<open>Without cancellation no goroutine ends.\<close>

definition running :: "run \<Rightarrow> bool" where
  "running s \<longleftrightarrow> reader s \<noteq> Reader_done \<and> exporter s \<noteq> Exporter_done"

lemma running_work: "work_step tj s s' \<Longrightarrow> running s \<Longrightarrow> running s'"
  by (erule work_stepE) (simp_all add: running_def)

lemma running_works: "(work_step tj ^^ n) s s' \<Longrightarrow> running s \<Longrightarrow> running s'"
  by (induction n arbitrary: s') (auto intro: running_work)

lemma running_start: "running (start_run config msgs)"
  by (simp add: running_def start_run_def)

lemma running_stuck:
  assumes "running s" and "\<nexists>s'. work_step tj s s'"
  shows "reader s = Reader_select \<and> exporter s = Exporter_select \<and> offered s = []"
  using assms unfolding work_stuck_iff running_def
  by (cases "reader s"; cases "exporter s") simp_all

text \<open>The newest message stays in the buffer.\<close>

lemma message_Add_nonempty: "\<not> closed m \<Longrightarrow> message m \<noteq> [] \<or> accepted x \<Longrightarrow> message (snd (Add tj x m)) \<noteq> []"
  by (auto simp: Add_cases)

lemma message_add_all_nonempty:
  "\<not> closed m \<Longrightarrow> message m \<noteq> [] \<or> filter accepted xs \<noteq> [] \<Longrightarrow> message (snd (add_all tj xs m)) \<noteq> []"
proof (induction xs arbitrary: m)
  case (Cons x xs)
  have "\<not> closed (snd (Add tj x m))" using Cons.prems(1) by (simp add: Add_cases)
  moreover have "message (snd (Add tj x m)) \<noteq> [] \<or> filter accepted xs \<noteq> []"
    using Cons.prems message_Add_nonempty [of m x tj] by (auto split: if_split_asm)
  ultimately show ?case using Cons.IH by (simp add: split_beta)
qed simp

lemma run_inv_contents:
  assumes "counted b0" and "message b0 = []" and "run_inv tj b0 msgs s"
  shows "concat (exported s @ in_hand s) @ message (buffer s) @ pending s = filter accepted (taken s)"
proof -
  from assms(3) obtain before where d: "taken s = before @ pending s"
    "exported s @ in_hand s = fst (add_all tj before b0)" "buffer s = snd (add_all tj before b0)"
    and p: "list_all (\<lambda>msg. flushes msg (buffer s)) (pending s)"
    by (auto simp: run_inv_def)
  have "filter accepted (pending s) = pending s"
    using p by (simp add: list_all_iff flushes_def filter_id_conv)
  then show ?thesis using add_all_contents [OF assms(1), of tj before] by (simp only: d assms(2) filter_append append_assoc append_Nil flip: append_assoc)
qed

lemma start_buffer: "counted (buffer (start_run config msgs))" "message (buffer (start_run config msgs)) = []"
  by (simp_all add: start_run_def)

text \<open>Every schedule can be completed, and what a completed one has done.\<close>

lemma work_completes: "\<exists>n s'. (work_step tj ^^ n) s s' \<and> (\<nexists>t. work_step tj s' t)"
proof (induction "work_left s" arbitrary: s rule: less_induct)
  case less
  show ?case
  proof (cases "\<exists>t. work_step tj s t")
    case True
    then obtain t where t: "work_step tj s t" ..
    obtain n s' where "(work_step tj ^^ n) t s'" "\<nexists>u. work_step tj s' u"
      using less [OF work_step_decreases [OF t]] by blast
    with relpowp_Suc_I2 [of "work_step tj" s t n s', OF t] show ?thesis by blast
  next
    case False
    then show ?thesis by (intro exI [of _ 0] exI [of _ s]) simp
  qed
qed

lemma completed_run:
  assumes "(work_step tj ^^ n) (start_run config msgs) s" and "\<nexists>s'. work_step tj s s'"
  shows "exported s = fst (add_all tj msgs (buffer (start_run config msgs)))"
    and "buffer s = snd (add_all tj msgs (buffer (start_run config msgs)))"
    and "concat (exported s) @ message (buffer s) = filter accepted msgs"
proof -
  have inv: "run_inv tj (buffer (start_run config msgs)) msgs s"
    using work_steps [OF assms(1)] run_inv_start by (rule run_inv_steps)
  have idle: "reader s = Reader_select" "exporter s = Exporter_select" "offered s = []"
    using running_stuck [OF running_works [OF assms(1) running_start] assms(2)] by simp_all
  from inv idle show "exported s = fst (add_all tj msgs (buffer (start_run config msgs)))"
    and "buffer s = snd (add_all tj msgs (buffer (start_run config msgs)))"
    by (simp_all add: run_inv_def)
  from inv idle have "taken s = msgs" by (simp add: run_inv_def)
  then show "concat (exported s) @ message (buffer s) = filter accepted msgs"
    using run_inv_contents [OF start_buffer inv] idle by simp
qed

section \<open>Properties\<close>

text \<open>C35: The two goroutines together implement the buffer, and no message is lost, doubled or reordered while they
  run. In every state that any schedule can reach, cancelled or not, the batches exported so far and
  the one in the exporter's hands are just the batches that adding the messages taken so far one
  after the other would send; and these batches, what the buffer holds and the message a blocked
  reader has in its hands are together all acceptable messages that were taken, in their order.\<close>
theorem provider_refines_buffer:
  assumes "(provider_step tj)\<^sup>*\<^sup>* (start_run config msgs) s"
  shows "(\<exists>before. taken s = before @ pending s \<and>
      (exported s @ in_hand s, buffer s) = add_all tj before (buffer (start_run config msgs))) \<and>
    concat (exported s @ in_hand s) @ message (buffer s) @ pending s = filter accepted (taken s) \<and>
    taken s @ offered s = msgs"
proof -
  have inv: "run_inv tj (buffer (start_run config msgs)) msgs s"
    using assms run_inv_start by (rule run_inv_steps)
  then have "\<exists>before. taken s = before @ pending s \<and>
      (exported s @ in_hand s, buffer s) = add_all tj before (buffer (start_run config msgs))"
    by (auto simp: run_inv_def prod_eq_iff)
  with run_inv_contents [OF start_buffer inv] inv show ?thesis by (simp add: run_inv_def)
qed

text \<open>C36: Every message but those of the last, open batch is exported, under every schedule. As long as the provider is
  not stopped, its goroutines make at most three steps per message; when they can do nothing
  more, all messages have been taken and exactly the buffer's batches have been exported. What
  is left in the buffer is never exported by them, and the newest acceptable message is always
  left there: the configured timeout, which should send it, is not used.\<close>
theorem provider_delivers:
  assumes "(work_step tj ^^ n) (start_run config msgs) s"
  shows "n \<le> 3 * length msgs \<and>
    ((\<nexists>s'. work_step tj s s') \<longrightarrow>
      exported s = fst (add_all tj msgs (buffer (start_run config msgs))) \<and>
      concat (exported s) @ message (buffer s) = filter accepted msgs \<and>
      (filter accepted msgs \<noteq> [] \<longrightarrow> message (buffer s) \<noteq> []))"
proof -
  let ?b = "buffer (start_run config msgs)"
  have "n + work_left s \<le> work_left (start_run config msgs)" using assms by (rule work_steps_bound)
  then have bound: "n \<le> 3 * length msgs" by (simp add: work_left_def start_run_def pending_def in_hand_def)
  have "exported s = fst (add_all tj msgs ?b) \<and> concat (exported s) @ message (buffer s) = filter accepted msgs \<and>
      (filter accepted msgs \<noteq> [] \<longrightarrow> message (buffer s) \<noteq> [])"
    if stuck: "\<nexists>s'. work_step tj s s'"
  proof -
    note final = completed_run [OF assms stuck]
    have "filter accepted msgs \<noteq> [] \<longrightarrow> message (buffer s) \<noteq> []"
      using message_add_all_nonempty [of ?b msgs tj] start_buffer(1) by (simp add: final(2) counted_def)
    with final show ?thesis by blast
  qed
  with bound show ?thesis by blast
qed

text \<open>C37: What stopping leaves behind. Once nothing can move any more the provider has been stopped and its exporter has
  returned, but the reader may be left for ever at the send of a batch that nobody takes any
  more, holding the buffer's lock; every acceptable message taken has then been exported, except
  those in the buffer and the one in the reader's hands.\<close>
theorem provider_stopped:
  assumes "(provider_step tj)\<^sup>*\<^sup>* (start_run config msgs) s"
  shows "(\<nexists>s'. provider_step tj s s') \<longleftrightarrow>
    cancelled s \<and> exporter s = Exporter_done \<and>
    (reader s = Reader_done \<and> concat (exported s) @ message (buffer s) = filter accepted (taken s) \<or>
     (\<exists>msg. reader s = Reader_sending msg \<and> message (buffer s) \<noteq> [] \<and>
        concat (exported s) @ message (buffer s) @ [msg] = filter accepted (taken s)))"
proof -
  have inv: "run_inv tj (buffer (start_run config msgs)) msgs s"
    using assms run_inv_start by (rule run_inv_steps)
  note contents = run_inv_contents [OF start_buffer inv]
  have full: "message (buffer s) \<noteq> []" if "reader s = Reader_sending msg" for msg
  proof -
    from inv obtain before where "buffer s = snd (add_all tj before (buffer (start_run config msgs)))"
      by (auto simp: run_inv_def)
    then have "counted (buffer s)" using counted_add_all [OF start_buffer(1)] by simp
    with inv that show ?thesis by (auto simp: run_inv_def flushes_def counted_def)
  qed
  show ?thesis
    unfolding provider_stuck_iff
    by (cases "exporter s"; cases "reader s") (use contents full in auto)
qed

section \<open>A run\<close>

definition one_line :: ExportProverConfig where
  "one_line = \<lparr>cfg_maxBytes = 102400, cfg_maxLines = 1, cfg_timeout = 0\<rparr>"

abbreviation (input) tz :: "int \<Rightarrow> nat option" where "tz \<equiv> \<lambda>_. Some 22"

definition r0 :: run where "r0 = start_run one_line [line ''a'', line ''b'']"
definition r1 :: run where
  "r1 = r0\<lparr>offered := [line ''b''], taken := taken r0 @ [line ''a''], buffer := snd (Add tz (line ''a'') (buffer r0))\<rparr>"
definition r2 :: run where
  "r2 = r1\<lparr>offered := [], taken := taken r1 @ [line ''b''], reader := Reader_sending (line ''b'')\<rparr>"
definition r3 :: run where
  "r3 = r2\<lparr>reader := Reader_select, exporter := Exporter_exporting (message (buffer r2)),
           buffer := snd (Add tz (line ''b'') (buffer r2))\<rparr>"
definition r4 :: run where
  "r4 = r3\<lparr>exporter := Exporter_select, exported := exported r3 @ [message (buffer r2)]\<rparr>"
definition r_stopped :: run where
  "r_stopped = r2\<lparr>cancelled := True, exporter := Exporter_done\<rparr>"

lemma accepted_ab: "accepted (line ''a'')" "accepted (line ''b'')"
  by (simp_all add: accepted_line byte_val_def)

lemma flushes_empty: "numLines m = 0 \<Longrightarrow> \<not> flushes msg m"
  by (simp add: flushes_def)

lemma r0_fields: "reader r0 = Reader_select" "offered r0 = [line ''a'', line ''b'']" "numLines (buffer r0) = 0"
  "exporter r0 = Exporter_select" "cancelled r0 = False" "maxLines (buffer r0) = 1" "closed (buffer r0) = False"
  "exported r0 = []" "message (buffer r0) = []" "taken r0 = []"
  by (simp_all add: r0_def start_run_def NewMessageBuffer_def one_line_def)

lemma r1_buffer: "buffer r1 = push tz (line ''a'') (buffer r0)"
  by (simp add: r1_def Add_cases r0_fields accepted_ab flushes_empty)

lemma r1_flushes: "flushes (line ''b'') (buffer r1)"
  by (simp add: r1_buffer flushes_def accepted_ab r0_fields)

lemma r_steps: "work_step tz r0 r1" "work_step tz r1 r2" "work_step tz r2 r3" "work_step tz r3 r4"
proof -
  show "work_step tz r0 r1" unfolding r1_def
    by (rule take_msg) (simp_all add: r0_fields flushes_empty)
  show "work_step tz r1 r2" unfolding r2_def
    by (rule take_sending) (simp_all add: r1_flushes, simp_all add: r1_def r0_fields)
  show "work_step tz r2 r3" unfolding r3_def
    by (rule hand_over) (simp_all add: r2_def r1_def r0_fields)
  show "work_step tz r3 r4" unfolding r4_def
    by (rule exported_batch) (simp add: r3_def)
qed

lemma r2_message: "message (buffer r2) = [line ''a'']"
  by (simp add: r2_def r1_buffer r0_fields)

lemma r4_final: "\<nexists>s'. work_step tz r4 s'"
  unfolding work_stuck_iff by (simp add: r4_def r3_def r2_def)

lemma r_run: "(work_step tz ^^ 4) r0 r4"
proof -
  have four: "(4::nat) = Suc (Suc (Suc (Suc 0)))" by simp
  show ?thesis unfolding four using r_steps by (auto intro!: relcomppI)
qed

lemma r_stopped_run: "(provider_step tz)\<^sup>*\<^sup>* r0 r_stopped"
proof -
  have "(provider_step tz)\<^sup>*\<^sup>* r0 r2"
    using provider_step.work [OF r_steps(1)] provider_step.work [OF r_steps(2)] by simp
  moreover have "provider_step tz r2 (r2\<lparr>cancelled := True\<rparr>)"
    by (rule provider_step.cancel) (simp add: r2_def r1_def r0_fields)
  moreover have "provider_step tz (r2\<lparr>cancelled := True\<rparr>) (r2\<lparr>cancelled := True\<rparr>\<lparr>exporter := Exporter_done\<rparr>)"
    by (rule provider_step.exporter_quits) (simp_all add: r2_def r1_def r0_fields)
  ultimately show ?thesis by (simp add: r_stopped_def)
qed

theorem provider_refines_buffer_witness:
  "taken r_stopped @ offered r_stopped = [line ''a'', line ''b''] \<and>
   concat (exported r_stopped @ in_hand r_stopped) @ message (buffer r_stopped) @ pending r_stopped =
     filter accepted (taken r_stopped)"
  using provider_refines_buffer [OF r_stopped_run [unfolded r0_def]] by simp

text \<open>Of two messages, in batches of one, the first is exported and the second stays.\<close>

theorem provider_delivers_witness:
  "concat (exported r4) @ message (buffer r4) = [line ''a'', line ''b''] \<and> exported r4 = [[line ''a'']]"
proof -
  have "concat (exported r4) @ message (buffer r4) = filter accepted [line ''a'', line ''b'']"
    using provider_delivers [OF r_run [unfolded r0_def]] r4_final by blast
  moreover have "exported r4 = [[line ''a'']]"
    by (simp add: r4_def r3_def r2_message) (simp add: r2_def r1_def r0_fields)
  ultimately show ?thesis by (simp add: accepted_ab)
qed

text \<open>Stopped while the reader is sending: the reader never ends.\<close>

theorem provider_stopped_witness:
  "reader r_stopped = Reader_sending (line ''b'') \<and> cancelled r_stopped \<and> (\<nexists>s'. provider_step tz r_stopped s')"
proof -
  have r: "reader r_stopped = Reader_sending (line ''b'')" "cancelled r_stopped" "exporter r_stopped = Exporter_done"
    "exported r_stopped = []" "message (buffer r_stopped) = [line ''a'']" "taken r_stopped = [line ''a'', line ''b'']"
    using r2_message by (simp_all add: r_stopped_def) (simp_all add: r2_def r1_def r0_fields)
  then show ?thesis
    using provider_stopped [OF r_stopped_run [unfolded r0_def]] by (simp add: accepted_ab)
qed

end
