(* ===== verification/Log_Journal.thy ===== *)
theory Log_Journal
imports Log_Message Sys_Proc
begin

text \<open>
  \<open>pkg/log/journal_reader.go\<close>: choosing a systemd journal, following it, and the subscriptions by the value of
  one field of the entries.

  The journal library is an argument: what opening a directory, asking for its usage and seeking
  give, and the names of the fields.
\<close>

type_synonym chan = nat

record JournalEntry =
  je_Fields :: "bytes \<rightharpoonup> bytes"
  je_RealtimeTimestamp :: u64

record 'j sd_api =
  NewJournalFromDir :: "bytes \<Rightarrow> err + 'j"        \<comment> \<open>the journal is nil with an error\<close>
  GetUsage :: "'j \<Rightarrow> err + u64"
  SeekRealtimeUsec :: "'j \<Rightarrow> u64 \<Rightarrow> err option"
  FIELD_MESSAGE :: bytes
  FIELD_PRIORITY :: bytes
  FIELD_HOSTNAME :: bytes
  FIELD_MACHINE_ID :: bytes
  FIELD_TRANSPORT :: bytes
  FIELD_SYSTEMD_UNIT :: bytes

record 'j JournalReader =
  journal :: "'j option"
  jr_subscribers :: "bytes \<rightharpoonup> chan"

section \<open>Opening\<close>

text \<open>The loop over the paths: what \<open>j.journal\<close> is after it, or the error of seeking.\<close>

fun open_journal :: "'j sd_api \<Rightarrow> u64 \<Rightarrow> bytes list \<Rightarrow> 'j option \<Rightarrow> err + 'j option" where
  "open_journal api usec [] j = Inr j"
| "open_journal api usec (path # paths) j =
     (case NewJournalFromDir api path of
        Inl err \<Rightarrow> open_journal api usec paths None
      | Inr h \<Rightarrow>
          (case GetUsage api h of
             Inl err \<Rightarrow> open_journal api usec paths (Some h)
           | Inr usage \<Rightarrow>
               if usage = 0 then open_journal api usec paths (Some h)
               else (case SeekRealtimeUsec api h usec of
                       Some err \<Rightarrow> Inl err
                     | None \<Rightarrow> Inr (Some h))))"

text \<open>\<open>usec\<close> is the time in microseconds a millisecond from now.\<close>

definition NewJournalReader :: "'j sd_api \<Rightarrow> u64 \<Rightarrow> bytes \<Rightarrow> bytes list \<Rightarrow> err + 'j JournalReader" where
  "NewJournalReader api usec journalFieldFilter journalPath =
     (if journalPath = [] \<or> journalFieldFilter = '''' then
        Inl ''The JournalReader can't be created because the journalFieldFilter or journalPathdoes not exist.''
      else case open_journal api usec journalPath None of
        Inl err \<Rightarrow> Inl err
      | Inr None \<Rightarrow>
          Inl (''systemd journal not found in path : '' @ join_char (CHR '';'') journalPath @ '' '')
      | Inr (Some h) \<Rightarrow> Inr \<lparr>journal = Some h, jr_subscribers = Map.empty\<rparr>)"

section \<open>Entries\<close>

fun attr_loop :: "JournalEntry \<Rightarrow> bytes list \<Rightarrow> (bytes \<times> bytes) list \<Rightarrow> (bytes \<times> bytes) list" where
  "attr_loop entry [] a = a"
| "attr_loop entry (field # fs) a =
     attr_loop entry fs (case je_Fields entry field of None \<Rightarrow> a | Some val \<Rightarrow> AList.update field val a)"

definition attr :: "JournalEntry \<Rightarrow> bytes list \<Rightarrow> str_map" where
  "attr entry fs = Some (attr_loop entry fs [])"

text \<open>The message made of an entry, if its text is not empty.\<close>

definition entry_message :: "'j sd_api \<Rightarrow> JournalEntry \<Rightarrow> Message option" where
  "entry_message api entry =
     (let msg = map_get '''' (je_Fields entry) (FIELD_MESSAGE api)
      in if msg = '''' then None
         else Some \<lparr>m_Content = msg,
           m_Level = Level_string (map_get 0 priority2Levels (map_get '''' (je_Fields entry) (FIELD_PRIORITY api))),
           m_Timestamp = sint (je_RealtimeTimestamp entry),
           m_Fields = None,
           m_Meta = attr entry [FIELD_HOSTNAME api, FIELD_MACHINE_ID api, FIELD_TRANSPORT api, FIELD_SYSTEMD_UNIT api]\<rparr>)"

section \<open>Subscriptions\<close>

definition Subscribe :: "bytes \<Rightarrow> chan \<Rightarrow> 'j JournalReader \<Rightarrow> err option \<times> 'j JournalReader" where
  "Subscribe v ch j =
     (case jr_subscribers j v of
        Some _ \<Rightarrow> (Some (''duplicate subscriber for group '' @ v), j)
      | None \<Rightarrow> (None, j\<lparr>jr_subscribers := (jr_subscribers j)(v \<mapsto> ch)\<rparr>))"

text \<open>The flag tells whether the notice of an unknown group is printed.\<close>

definition Unsubscribe :: "bytes \<Rightarrow> 'j JournalReader \<Rightarrow> bool \<times> 'j JournalReader" where
  "Unsubscribe v j =
     (jr_subscribers j v \<noteq> None, j\<lparr>jr_subscribers := map_delete (jr_subscribers j) v\<rparr>)"

section \<open>Following\<close>

text \<open>One round of the loop: what the journal gives.\<close>

datatype journal_read =
    Next_error
  | No_entry
  | Entry_error
  | Read_entry JournalEntry

datatype journal_act =
    Round journal_read
  | Subscribe_call bytes chan
  | Unsubscribe_call bytes

text \<open>What an entry sends: the value of its filter field, the channel, the message.\<close>

definition follow_entry ::
  "'j sd_api \<Rightarrow> bytes \<Rightarrow> 'j JournalReader \<Rightarrow> JournalEntry \<Rightarrow> (bytes \<times> chan \<times> Message) list" where
  "follow_entry api journalFieldFilter j entry =
     (case entry_message api entry of
        None \<Rightarrow> []
      | Some log \<Rightarrow>
          let v = map_get '''' (je_Fields entry) journalFieldFilter
          in case jr_subscribers j v of None \<Rightarrow> [] | Some ch \<Rightarrow> [(v, ch, log)])"

text \<open>
  The follower's rounds and the calls of others, in the order in which they get the lock. The first flag tells
  whether the follower still runs.
\<close>

fun follow ::
  "'j sd_api \<Rightarrow> bytes \<Rightarrow> bool \<Rightarrow> 'j JournalReader \<Rightarrow> journal_act list \<Rightarrow> (bytes \<times> chan \<times> Message) list" where
  "follow api flt running j [] = []"
| "follow api flt running j (Subscribe_call v ch # as) = follow api flt running (snd (Subscribe v ch j)) as"
| "follow api flt running j (Unsubscribe_call v # as) = follow api flt running (snd (Unsubscribe v j)) as"
| "follow api flt running j (Round r # as) =
     (if \<not> running then follow api flt running j as
      else case r of
        Next_error \<Rightarrow> follow api flt False j as
      | No_entry \<Rightarrow> follow api flt running j as
      | Entry_error \<Rightarrow> follow api flt running j as
      | Read_entry entry \<Rightarrow> follow_entry api flt j entry @ follow api flt running j as)"

section \<open>The contract of a subscription table\<close>

text \<open>
  A table with at most one subscriber per key: a subscription takes a free key and nothing else, and a
  deletion frees its key and nothing else. Then the subscriber of a key depends on the calls
  for that key alone.
\<close>

locale subscription_table =
  fixes subscriber :: "'s \<Rightarrow> 'k \<Rightarrow> 'c option"
    and subscribe :: "'k \<Rightarrow> 'c \<Rightarrow> 's \<Rightarrow> 'e option \<times> 's"
    and unsubscribe :: "'k \<Rightarrow> 's \<Rightarrow> 's"
  assumes subscribe_free: "subscriber s k = None \<Longrightarrow> fst (subscribe k c s) = None \<and>
      subscriber (snd (subscribe k c s)) = (subscriber s)(k \<mapsto> c)"
    and subscribe_taken: "subscriber s k = Some d \<Longrightarrow> fst (subscribe k c s) \<noteq> None \<and>
      subscriber (snd (subscribe k c s)) = subscriber s"
    and unsubscribe_key: "subscriber (unsubscribe k s) = (subscriber s)(k := None)"
begin

lemma subscriber_subscribe:
  "subscriber (snd (subscribe k c s)) k' =
    (if k' = k \<and> subscriber s k = None then Some c else subscriber s k')"
  using subscribe_free [of s k c] subscribe_taken [of s k _ c] by (cases "subscriber s k") auto

lemma subscribe_error: "fst (subscribe k c s) \<noteq> None \<longleftrightarrow> subscriber s k \<noteq> None"
  using subscribe_free [of s k c] subscribe_taken [of s k _ c] by (cases "subscriber s k") auto

lemma resubscribe: "subscriber (snd (subscribe k c (unsubscribe k s))) k = Some c"
  by (simp add: subscriber_subscribe unsubscribe_key)

end

interpretation journal_table: subscription_table jr_subscribers Subscribe "\<lambda>v j. snd (Unsubscribe v j)"
  by unfold_locales (auto simp: Subscribe_def Unsubscribe_def map_delete_def)

section \<open>Properties\<close>

text \<open>
  The deliveries for one value of the filter field, specified by the calls and the entries for that value:
  \<open>c\<close> is the value's subscriber so far.
\<close>

fun deliveries ::
  "'j sd_api \<Rightarrow> bytes \<Rightarrow> bytes \<Rightarrow> chan option \<Rightarrow> journal_act list \<Rightarrow> (chan \<times> Message) list" where
  "deliveries api flt v c [] = []"
| "deliveries api flt v c (Subscribe_call w ch # as) =
     deliveries api flt v (if w = v \<and> c = None then Some ch else c) as"
| "deliveries api flt v c (Unsubscribe_call w # as) = deliveries api flt v (if w = v then None else c) as"
| "deliveries api flt v c (Round (Read_entry e) # as) =
     (case (c, entry_message api e) of
        (Some ch, Some log) \<Rightarrow> if map_get '''' (je_Fields e) flt = v then [(ch, log)] else []
      | _ \<Rightarrow> []) @ deliveries api flt v c as"
| "deliveries api flt v c (Round _ # as) = deliveries api flt v c as"

lemma follow_stopped [simp]: "follow api flt False j as = []"
proof (induction as arbitrary: j)
  case (Cons a as)
  then show ?case by (cases a) simp_all
qed simp

lemma attr_loop_lookup:
  "map_of (attr_loop entry fs a) f =
    (if f \<in> set fs \<and> je_Fields entry f \<noteq> None then je_Fields entry f else map_of a f)"
  by (induction fs arbitrary: a) (auto simp: update_conv' split: option.splits)

lemma attr_loop_distinct: "distinct (map fst a) \<Longrightarrow> distinct (map fst (attr_loop entry fs a))"
  by (induction fs arbitrary: a) (auto simp: distinct_update split: option.splits)

lemma attr_lookup: "str_lookup (attr entry fs) f = (if f \<in> set fs then je_Fields entry f else None)"
  by (auto simp: attr_def str_lookup_def attr_loop_lookup)

text \<open>
  A message of the journal has no map of fields: adding a field to it panics.
\<close>

lemma journal_message_fields:
  "entry_message api e = Some m \<Longrightarrow> AddFields k v m = Inl NilMapWrite"
  by (auto simp: entry_message_def Let_def AddFields_def str_write_def split: if_split_asm)

lemma follow_entry_value:
  "map snd (filter (\<lambda>d. fst d = v) (follow_entry api flt j e)) =
    (case (jr_subscribers j v, entry_message api e) of
        (Some ch, Some log) \<Rightarrow> if map_get '''' (je_Fields e) flt = v then [(ch, log)] else []
      | _ \<Rightarrow> [])"
  by (auto simp: follow_entry_def Let_def split: option.splits)

lemma follow_value:
  "map snd (filter (\<lambda>d. fst d = v) (follow api flt True j as)) =
    deliveries api flt v (jr_subscribers j v) (takeWhile (\<lambda>a. a \<noteq> Round Next_error) as)"
proof (induction as arbitrary: j)
  case (Cons a as)
  show ?case
  proof (cases a)
    case (Round r)
    then show ?thesis by (cases r) (simp_all add: Cons.IH follow_entry_value)
  next
    case (Subscribe_call w ch)
    then show ?thesis by (simp add: Cons.IH journal_table.subscriber_subscribe)
  next
    case (Unsubscribe_call w)
    then show ?thesis using journal_table.unsubscribe_key [of w j] by (simp add: Cons.IH)
  qed
qed simp

text \<open>C40: Each subscriber gets the entries of its value, and no others. Whatever calls and entries come in what
  order, the deliveries for a value of the filter field are those of the specification that
  looks at this value alone: every entry with a text and this value that is read while the
  value has a subscriber goes to it, in order, and the first failing read ends all
  deliveries. The first subscriber of a value stays until it is removed; a second one is
  refused.\<close>
theorem journal_delivery:
  "map snd (filter (\<lambda>d. fst d = v) (follow api flt True j as)) =
    deliveries api flt v (jr_subscribers j v) (takeWhile (\<lambda>a. a \<noteq> Round Next_error) as)"
  by (rule follow_value)

section \<open>The choice of the journal\<close>

definition usable :: "'j sd_api \<Rightarrow> bytes \<Rightarrow> bool" where
  "usable api path =
     (case NewJournalFromDir api path of
        Inl e \<Rightarrow> False
      | Inr h \<Rightarrow> (case GetUsage api h of Inl e \<Rightarrow> False | Inr u \<Rightarrow> u \<noteq> 0))"

definition opened :: "'j sd_api \<Rightarrow> bytes \<Rightarrow> 'j option" where
  "opened api path = (case NewJournalFromDir api path of Inl e \<Rightarrow> None | Inr h \<Rightarrow> Some h)"

text \<open>Which journal is followed. It is that of the first directory whose journal opens and is not empty,
  positioned shortly after now; an error of seeking there is final. When no directory has such a
  journal, what counts is the last directory alone: if its journal opens, although it is
  empty or its usage is unknown, it is followed from its start, without having been positioned; if it
  does not open, the reader is refused, even when an earlier directory's journal opened.\<close>
theorem journal_selection:
  "open_journal api usec paths j =
    (case find (usable api) paths of
       Some path \<Rightarrow>
         (case SeekRealtimeUsec api (the (opened api path)) usec of
            Some e \<Rightarrow> Inl e | None \<Rightarrow> Inr (opened api path))
     | None \<Rightarrow> Inr (if paths = [] then j else opened api (last paths)))"
proof (induction paths arbitrary: j)
  case (Cons p ps)
  show ?case
  proof (cases "NewJournalFromDir api p")
    case (Inl e)
    then show ?thesis using Cons by (simp add: usable_def opened_def split: option.split)
  next
    case (Inr h)
    show ?thesis
    proof (cases "GetUsage api h")
      case (Inl e)
      with Inr show ?thesis using Cons by (simp add: usable_def opened_def split: option.split)
    next
      case u: (Inr u)
      with Inr show ?thesis using Cons by (simp add: usable_def opened_def split: option.split)
    qed
  qed
qed simp

end
