(* ===== verification/Log_Exporter.thy ===== *)
theory Log_Exporter
imports Log_Provider Log_Journal
begin

text \<open>
  \<open>pkg/exporter/log/otel_exporter.go\<close>: log messages as OpenTelemetry records, and the contract of an
  exporter towards the provider.

  The OpenTelemetry library is an argument where its answer matters (creating the exporter); a
  record handed to \<open>Emit\<close> is kept as it was built, with pointers as addresses.
\<close>

section \<open>Severities\<close>

text \<open>The severity numbers of the OpenTelemetry log model that the code uses, in their order.\<close>

datatype SeverityNumber = UNSPECIFIED | DEBUG | INFO | WARN | ERROR | FATAL

instantiation SeverityNumber :: linorder
begin

definition severity_rank :: "SeverityNumber \<Rightarrow> nat" where
  "severity_rank s =
     (case s of UNSPECIFIED \<Rightarrow> 0 | DEBUG \<Rightarrow> 1 | INFO \<Rightarrow> 2 | WARN \<Rightarrow> 3 | ERROR \<Rightarrow> 4 | FATAL \<Rightarrow> 5)"

definition less_eq_SeverityNumber :: "SeverityNumber \<Rightarrow> SeverityNumber \<Rightarrow> bool" where
  "less_eq_SeverityNumber a b \<longleftrightarrow> severity_rank a \<le> severity_rank b"

definition less_SeverityNumber :: "SeverityNumber \<Rightarrow> SeverityNumber \<Rightarrow> bool" where
  "less_SeverityNumber a b \<longleftrightarrow> severity_rank a < severity_rank b"

instance
proof
  fix a b :: SeverityNumber
  show "a \<le> b \<Longrightarrow> b \<le> a \<Longrightarrow> a = b"
    by (cases a; cases b) (simp_all add: less_eq_SeverityNumber_def severity_rank_def)
qed (auto simp: less_eq_SeverityNumber_def less_SeverityNumber_def)

end

definition Level2OtelLogsLevel :: "bytes \<Rightarrow> SeverityNumber" where
  "Level2OtelLogsLevel levelText =
     (let level = String2Level levelText
      in if level = LevelDebug then DEBUG
         else if level = LevelInfo then INFO
         else if level = LevelWarning then WARN
         else if level = LevelError then ERROR
         else if level = LevelCritical then FATAL
         else UNSPECIFIED)"

section \<open>Attributes\<close>

text \<open>A key and a string value; the zero value of an attribute has an empty key and an invalid value.\<close>

type_synonym KeyValue = "bytes \<times> bytes option"

definition zero_attribute :: KeyValue where
  "zero_attribute = ('''', None)"

definition map2Attribute :: "str_map \<Rightarrow> KeyValue list" where
  "map2Attribute resource =
     (let kvs = (case resource of None \<Rightarrow> [] | Some kvs \<Rightarrow> kvs)
      in fold (\<lambda>(k, v) a. a @ [(k, Some v)]) kvs (replicate (length kvs) zero_attribute))"

section \<open>The exporter\<close>

text \<open>
  A record as \<open>Emit\<close> gets it. \<open>Body\<close> points to a field of the loop variable, which the language (Go 1.21) shares
  among the iterations of one loop: \<open>lr_Body\<close> is the address of that variable. The other pointers
  are to variables of one iteration, so their values are kept.
\<close>

record LogRecord =
  ObservedTimestamp :: int
  SeverityText :: bytes
  lr_SeverityNumber :: SeverityNumber
  lr_Body :: nat
  Resource :: "KeyValue list"
  Attributes :: "KeyValue list"

record otelExporter =
  emitted :: "LogRecord list"
  variables :: "bytes list"       \<comment> \<open>the content of each loop variable made so far\<close>

definition otel_NewExporter :: "(bytes \<Rightarrow> err option) \<Rightarrow> bytes \<Rightarrow> err + otelExporter" where
  "otel_NewExporter otlp_NewExporter endpoint =
     (if endpoint = '''' then Inl ''OpenTelemetry logs collector endpoint is nil''
      else case otlp_NewExporter endpoint of
        Some err \<Rightarrow> Inl err
      | None \<Rightarrow> Inr \<lparr>emitted = [], variables = []\<rparr>)"

definition log_record :: "nat \<Rightarrow> Message \<Rightarrow> LogRecord" where
  "log_record addr msg =
     \<lparr>ObservedTimestamp = m_Timestamp msg, SeverityText = m_Level msg,
      lr_SeverityNumber = Level2OtelLogsLevel (m_Level msg), lr_Body = addr,
      Resource = map2Attribute (m_Meta msg), Attributes = map2Attribute (m_Fields msg)\<rparr>"

fun export_loop :: "nat \<Rightarrow> Message list \<Rightarrow> otelExporter \<Rightarrow> otelExporter" where
  "export_loop addr [] s = s"
| "export_loop addr (msg # messages) s =
     export_loop addr messages
       (s\<lparr>variables := (variables s)[addr := m_Content msg], emitted := emitted s @ [log_record addr msg]\<rparr>)"

definition Export :: "otelExporter \<Rightarrow> Message list \<Rightarrow> otelExporter" where
  "Export s messages = export_loop (length (variables s)) messages (s\<lparr>variables := variables s @ ['''']\<rparr>)"

text \<open>What the body of a record reads as in a state.\<close>

definition body :: "otelExporter \<Rightarrow> LogRecord \<Rightarrow> bytes" where
  "body s r = variables s ! lr_Body r"

section \<open>The contract of an exporter\<close>

text \<open>
  What the provider needs of its exporter: exporting a batch adds the records of its messages, in order. Then how
  the messages were cut into batches cannot be seen in what has been received.
\<close>

locale log_exporter =
  fixes export :: "'s \<Rightarrow> Message list \<Rightarrow> 's"
    and received :: "'s \<Rightarrow> 'r list"
    and record_of :: "Message \<Rightarrow> 'r"
  assumes export_batch: "received (export s ms) = received s @ map record_of ms"
begin

lemma export_batches: "received (foldl export s bs) = received s @ map record_of (concat bs)"
  by (induction bs arbitrary: s) (simp_all add: export_batch)

lemma batching_invisible: "concat bs = concat cs \<Longrightarrow> received (foldl export s bs) = received (foldl export s cs)"
  by (simp add: export_batches)

end

text \<open>All of a record but its body.\<close>

definition header :: "LogRecord \<Rightarrow> LogRecord" where
  "header r = r\<lparr>lr_Body := 0\<rparr>"

lemma export_loop_emitted: "emitted (export_loop addr ms s) = emitted s @ map (log_record addr) ms"
  by (induction ms arbitrary: s) simp_all

lemma header_log_record: "header (log_record addr msg) = log_record 0 msg"
  by (simp add: header_def log_record_def)

interpretation otel: log_exporter Export "\<lambda>s. map header (emitted s)" "log_record 0"
  by unfold_locales (simp add: Export_def export_loop_emitted header_log_record)

section \<open>Lemmas\<close>

lemma severity_of_level:
  "l \<in> {LevelCritical..LevelDebug} \<Longrightarrow>
   Level2OtelLogsLevel (Level_string l) =
     (if l = -1 then FATAL else if l = 0 then ERROR else if l = 1 then WARN else if l = 2 then INFO else DEBUG)"
  by (auto simp: Level2OtelLogsLevel_def String2Level_string Let_def level_defs)

text \<open>A smaller level number is a higher severity, against the comment on the type.\<close>

lemma severity_antimono:
  assumes "l \<in> {LevelCritical..LevelDebug}" and "k \<in> {LevelCritical..LevelDebug}"
  shows "Level2OtelLogsLevel (Level_string l) \<le> Level2OtelLogsLevel (Level_string k) \<longleftrightarrow> k \<le> l"
  using assms unfolding severity_of_level [OF assms(1)] severity_of_level [OF assms(2)]
  by (auto simp: level_defs less_eq_SeverityNumber_def severity_rank_def)

lemma severity_specified: "Level2OtelLogsLevel s \<noteq> UNSPECIFIED"
  by (simp add: Level2OtelLogsLevel_def String2Level_def Let_def level_defs)

lemma map2Attribute_eq:
  "map2Attribute (Some kvs) = replicate (length kvs) zero_attribute @ map (\<lambda>(k, v). (k, Some v)) kvs"
  "map2Attribute None = []"
proof -
  have "fold (\<lambda>(k, v) a. a @ [(k, Some v)]) kvs a = a @ map (\<lambda>(k, v). (k, Some v)) kvs" for a :: "KeyValue list"
    by (induction kvs arbitrary: a) auto
  then show "map2Attribute (Some kvs) = replicate (length kvs) zero_attribute @ map (\<lambda>(k, v). (k, Some v)) kvs"
    by (simp add: map2Attribute_def)
qed (simp add: map2Attribute_def)

lemma export_loop_variables:
  "addr < length (variables s) \<Longrightarrow>
   variables (export_loop addr ms s) =
     (variables s)[addr := (if ms = [] then variables s ! addr else m_Content (last ms))]"
proof (induction ms arbitrary: s)
  case (Cons m ms)
  then show ?case by (cases "ms = []") simp_all
qed simp

section \<open>Properties\<close>

text \<open>The severity a journal entry is exported with. It follows the syslog priority: emergency, alert and critical
  become fatal, although their level is exported with an empty text; an entry without a
  priority, or with an unknown one, is exported as an error, because a missing key of the
  table reads as the level zero.\<close>
theorem journal_severity:
  "Level2OtelLogsLevel (Level_string (map_get 0 priority2Levels p)) =
    (if p \<in> {''0'', ''1'', ''2''} then FATAL
     else if p = ''4'' then WARN
     else if p \<in> {''5'', ''6''} then INFO
     else if p = ''7'' then DEBUG
     else ERROR)"
  by (simp add: map_get_def priority2Levels_def Level2OtelLogsLevel_def Level_string_def String2Level_def
      Let_def level_defs)

text \<open>The attributes of a record. A map of n pairs becomes n zero attributes, with an empty key and an invalid
  value, followed by the n pairs: the list is made with its final length and then appended to.
  Restricted to valid attributes the conversion loses nothing.\<close>
theorem attributes_of_map:
  "map2Attribute (Some kvs) = replicate (length kvs) ('''', None) @ map (\<lambda>(k, v). (k, Some v)) kvs \<and>
   length (map2Attribute (Some kvs)) = 2 * length kvs \<and>
   map_of (List.map_filter (\<lambda>(k, v). map_option (Pair k) v) (map2Attribute (Some kvs))) = str_lookup (Some kvs)"
proof -
  have r: "List.map_filter (\<lambda>(k, v). map_option (Pair k) v) (replicate n zero_attribute) = []" for n
    by (induction n) (simp_all add: map_filter_simps zero_attribute_def)
  have m: "List.map_filter (\<lambda>(k, v). map_option (Pair k) v) (map (\<lambda>(k, v). (k, Some v)) kvs) = kvs"
    for kvs :: "(bytes \<times> bytes) list"
    by (induction kvs) (auto simp: map_filter_simps)
  have a: "List.map_filter f (xs @ ys) = List.map_filter f xs @ List.map_filter f ys"
    for f :: "KeyValue \<Rightarrow> (bytes \<times> bytes) option" and xs ys
    by (induction xs) (auto simp: map_filter_simps split: option.split)
  show ?thesis by (simp add: map2Attribute_eq a r m str_lookup_def) (simp add: zero_attribute_def)
qed

text \<open>C39: The bodies of a batch. Exporting a batch emits one record per message, in order, with the message's time,
  level, severity and attributes. The body of a record reads right until the next iteration of the loop:
  after it, all records of the batch read as the content of the last message of the batch, because
  they point to the one loop variable.\<close>
theorem export_bodies:
  assumes "messages \<noteq> []" and "i < length messages"
  shows "let s' = Export s messages; r = emitted s' ! (length (emitted s) + i);
             si = export_loop (length (variables s)) (take (Suc i) messages) (s\<lparr>variables := variables s @ ['''']\<rparr>)
    in header r = log_record 0 (messages ! i) \<and>
       last (emitted si) = r \<and> body si r = m_Content (messages ! i) \<and>
       body s' r = m_Content (last messages)"
proof -
  let ?a = "length (variables s)" and ?s = "s\<lparr>variables := variables s @ ['''']\<rparr>"
  have e: "emitted (Export s messages) ! (length (emitted s) + i) = log_record ?a (messages ! i)"
    using assms(2) by (simp add: Export_def export_loop_emitted nth_append)
  have tk: "take (Suc i) messages = take i messages @ [messages ! i]"
    using assms(2) by (rule take_Suc_conv_app_nth)
  have "body (export_loop ?a (take (Suc i) messages) ?s) (log_record ?a (messages ! i)) = m_Content (messages ! i)"
    using tk by (simp add: body_def export_loop_variables log_record_def)
  moreover have "body (Export s messages) (log_record ?a (messages ! i)) = m_Content (last messages)"
    using assms(1) by (simp add: body_def Export_def export_loop_variables log_record_def)
  moreover have "last (emitted (export_loop ?a (take (Suc i) messages) ?s)) = log_record ?a (messages ! i)"
    by (simp add: export_loop_emitted tk)
  ultimately show ?thesis by (simp only: Let_def e header_log_record simp_thms)
qed

section \<open>From the journal to the collector\<close>

text \<open>The messages of the entries with one value of the filter field, and the deliveries while it is subscribed.\<close>

definition entry_messages :: "'j sd_api \<Rightarrow> bytes \<Rightarrow> bytes \<Rightarrow> journal_act list \<Rightarrow> Message list" where
  "entry_messages api flt v as =
     List.map_filter (\<lambda>a. case a of
         Round (Read_entry e) \<Rightarrow> if map_get '''' (je_Fields e) flt = v then entry_message api e else None
       | _ \<Rightarrow> None) as"

lemma deliveries_subscribed:
  assumes "list_all (\<lambda>a. a \<noteq> Unsubscribe_call v) as"
  shows "deliveries api flt v (Some ch) as = map (Pair ch) (entry_messages api flt v as)"
  using assms
proof (induction as)
  case (Cons a as)
  then have ih: "deliveries api flt v (Some ch) as = map (Pair ch) (entry_messages api flt v as)"
    and a: "a \<noteq> Unsubscribe_call v" by simp_all
  show ?case
  proof (cases a)
    case (Round r)
    with ih show ?thesis by (cases r) (auto simp: entry_messages_def map_filter_simps split: option.split)
  qed (use ih a in \<open>auto simp: entry_messages_def map_filter_simps\<close>)
qed (simp add: entry_messages_def map_filter_simps)

text \<open>What a channel subscribed at once to a value receives from the follower.\<close>

definition channel_messages :: "(bytes \<times> chan \<times> Message) list \<Rightarrow> bytes \<Rightarrow> Message list" where
  "channel_messages ds v = map (snd \<circ> snd) (filter (\<lambda>d. fst d = v) ds)"

text \<open>C34: From the journal to the collector. A channel is subscribed to a value and feeds the provider, and the
  provider exports to OpenTelemetry, in batches of any configuration and under any schedule. When
  everything has come to rest, the records emitted, but for their bodies, followed by those of the
  messages still in the buffer, are exactly the records of the acceptable messages of the
  entries with this value, each once and in the journal's order.\<close>
theorem log_pipeline:
  assumes "jr_subscribers j v = None"
    and "list_all (\<lambda>a. a \<noteq> Unsubscribe_call v \<and> a \<noteq> Round Next_error) acts"
    and "msgs = channel_messages (follow api flt True j (Subscribe_call v ch # acts)) v"
    and "(work_step tj ^^ n) (start_run config msgs) s" and "\<nexists>s'. work_step tj s s'"
  shows "map header (emitted (foldl Export x (exported s))) @ map (log_record 0) (message (buffer s)) =
    map header (emitted x) @ map (log_record 0) (filter accepted (entry_messages api flt v acts))"
proof -
  have unsub: "list_all (\<lambda>a. a \<noteq> Unsubscribe_call v) acts"
    and "\<forall>a \<in> set acts. a \<noteq> Round Next_error"
    using assms(2) by (simp_all add: list_all_iff)
  then have tw: "takeWhile (\<lambda>a. a \<noteq> Round Next_error) (Subscribe_call v ch # acts) = Subscribe_call v ch # acts"
    by (simp add: takeWhile_eq_all_conv)
  have "map snd (filter (\<lambda>d. fst d = v) (follow api flt True j (Subscribe_call v ch # acts))) =
      map (Pair ch) (entry_messages api flt v acts)"
    by (simp only: follow_value tw assms(1) deliveries.simps simp_thms if_True deliveries_subscribed [OF unsub])
  then have "map snd (map snd (filter (\<lambda>d. fst d = v) (follow api flt True j (Subscribe_call v ch # acts)))) =
      entry_messages api flt v acts" by (simp add: comp_def)
  then have msgs: "msgs = entry_messages api flt v acts" by (simp add: assms(3) channel_messages_def)
  show ?thesis
    using completed_run(3) [OF assms(4,5)]
    by (simp only: otel.export_batches msgs append_assoc map_append [symmetric])
qed

text \<open>Two entries of a unit, in batches of one line.\<close>

definition sample_sd :: "nat sd_api" where
  "sample_sd = \<lparr>NewJournalFromDir = (\<lambda>_. Inr 1), GetUsage = (\<lambda>_. Inr 1), SeekRealtimeUsec = (\<lambda>_ _. None),
     FIELD_MESSAGE = ''MESSAGE'', FIELD_PRIORITY = ''PRIORITY'', FIELD_HOSTNAME = ''HOST'',
     FIELD_MACHINE_ID = ''ID'', FIELD_TRANSPORT = ''TRANSPORT'', FIELD_SYSTEMD_UNIT = ''UNIT''\<rparr>"

definition sample_entry :: "bytes \<Rightarrow> JournalEntry" where
  "sample_entry s = \<lparr>je_Fields = [''MESSAGE'' \<mapsto> s, ''UNIT'' \<mapsto> ''u'', ''PRIORITY'' \<mapsto> ''2''], je_RealtimeTimestamp = 7\<rparr>"

definition sample_message :: "bytes \<Rightarrow> Message" where
  "sample_message s = \<lparr>m_Content = s, m_Level = '''', m_Timestamp = 7, m_Fields = None, m_Meta = Some [(''UNIT'', ''u'')]\<rparr>"

lemma sample_entry_message: "entry_message sample_sd (sample_entry (c # s)) = Some (sample_message (c # s))"
  by (simp add: entry_message_def sample_sd_def sample_entry_def sample_message_def map_get_def attr_def
      priority2Levels_def Level_string_def level_defs)

abbreviation (input) sample_acts :: "journal_act list" where
  "sample_acts \<equiv> [Round (Read_entry (sample_entry ''a'')), Round No_entry, Round (Read_entry (sample_entry ''b''))]"

lemma sample_entries: "entry_messages sample_sd ''UNIT'' ''u'' sample_acts = [sample_message ''a'', sample_message ''b'']"
  by (simp add: entry_messages_def map_filter_simps sample_entry_message) (simp add: sample_entry_def map_get_def)

lemma sample_accepted: "filter accepted [sample_message ''a'', sample_message ''b''] = [sample_message ''a'', sample_message ''b'']"
  by (simp add: accepted_def sample_message_def byte_val_def)

theorem log_pipeline_witness:
  "\<exists>n s. (work_step tz ^^ n) (start_run one_line (channel_messages
        (follow sample_sd ''UNIT'' True \<lparr>journal = Some 1, jr_subscribers = Map.empty\<rparr> (Subscribe_call ''u'' 3 # sample_acts)) ''u'')) s \<and>
     map header (emitted (foldl Export \<lparr>emitted = [], variables = []\<rparr> (exported s))) @ map (log_record 0) (message (buffer s)) =
     map (log_record 0) [sample_message ''a'', sample_message ''b'']"
proof -
  obtain n s where s: "(work_step tz ^^ n) (start_run one_line (channel_messages
        (follow sample_sd ''UNIT'' True \<lparr>journal = Some 1, jr_subscribers = Map.empty\<rparr> (Subscribe_call ''u'' 3 # sample_acts)) ''u'')) s"
    "\<nexists>t. work_step tz s t"
    using work_completes by blast
  have "map header (emitted (foldl Export \<lparr>emitted = [], variables = []\<rparr> (exported s))) @ map (log_record 0) (message (buffer s)) =
      map header (emitted \<lparr>emitted = [], variables = []\<rparr>) @
      map (log_record 0) (filter accepted (entry_messages sample_sd ''UNIT'' ''u'' sample_acts))"
    by (rule log_pipeline [OF _ _ refl s]) simp_all
  also have "\<dots> = map (log_record 0) [sample_message ''a'', sample_message ''b'']"
    by (simp only: sample_entries sample_accepted otelExporter.simps list.map append_Nil)
  finally show ?thesis using s(1) by blast
qed

theorem export_bodies_witness:
  "map (body (Export \<lparr>emitted = [], variables = []\<rparr> [line ''a'', line ''b'']))
     (emitted (Export \<lparr>emitted = [], variables = []\<rparr> [line ''a'', line ''b''])) = [''b'', ''b'']"
proof -
  let ?e = "\<lparr>emitted = [], variables = []\<rparr>"
  have "body (Export ?e [line ''a'', line ''b'']) (emitted (Export ?e [line ''a'', line ''b'']) ! i) = ''b''" if "i < 2" for i
    using export_bodies [of "[line ''a'', line ''b'']" i ?e] that by (simp add: Let_def line_def)
  from this [of 0] this [of 1] show ?thesis by (simp add: Export_def)
qed

end
