(* ===== verification/Exporters.thy ===== *)
theory Exporters
imports Log_Provider Net_Addr "HOL-Library.List_Lexorder" "HOL-Library.Char_ord"
begin

text \<open>
  The exporters of metrics and traces, \<open>pkg/exporter/metrics\<close> and \<open>pkg/exporter/trace\<close>, and the
  context around the exporters.

  The Prometheus and OpenTelemetry libraries are arguments where their answers matter.
\<close>

section \<open>Maps in JSON\<close>

text \<open>The text of a map of strings, as \<open>json.Marshal\<close> writes it: its keys sorted.\<close>

fun json_members :: "(bytes \<times> bytes) list \<Rightarrow> bytes" where
  "json_members [] = []"
| "json_members [(k, v)] = json_string k @ '':'' @ json_string v"
| "json_members ((k, v) # kvs) = json_string k @ '':'' @ json_string v @ '','' @ json_members kvs"

definition json_object :: "(bytes \<times> bytes) list \<Rightarrow> bytes" where
  "json_object kvs = ''{'' @ json_members (sort_key fst kvs) @ ''}''"

definition json_Marshal_map :: "str_map \<Rightarrow> bytes" where
  "json_Marshal_map m = (case m of None \<Rightarrow> ''null'' | Some kvs \<Rightarrow> json_object kvs)"

section \<open>Metrics\<close>

text \<open>A metric description: its name, help text and variable labels.\<close>

record Desc =
  d_name :: bytes
  d_help :: bytes
  d_labels :: "bytes list"

definition metricDesc :: "bytes \<Rightarrow> bytes \<Rightarrow> bytes list \<Rightarrow> Desc" where
  "metricDesc name help labels = \<lparr>d_name = name, d_help = help, d_labels = labels\<rparr>"

definition ContainerInfo :: Desc where
  "ContainerInfo = metricDesc ''container_info'' ''Meta information about the container''
     [''image'', ''name'', ''labels'', ''annotations'']"

text \<open>\<open>MustNewConstMetric\<close> makes a gauge of a value and label values, or panics.\<close>

definition NewMetrics ::
  "(Desc \<Rightarrow> int \<Rightarrow> bytes list \<Rightarrow> 'm go) \<Rightarrow> Desc \<Rightarrow> int \<Rightarrow> bytes list \<Rightarrow> 'm go" where
  "NewMetrics MustNewConstMetric desc value labelValues = MustNewConstMetric desc value labelValues"

text \<open>The part of a container's metadata that the exporter reads; nil maps are told from empty ones.\<close>

record metric_metadata =
  mm_Image :: bytes
  mm_Name :: bytes
  mm_Labels :: str_map
  mm_Annotations :: str_map

definition map_label :: "str_map \<Rightarrow> bytes" where
  "map_label m = (if m \<noteq> None then json_Marshal_map m else '''')"

text \<open>The metrics sent on the channel.\<close>

definition Collect_metrics ::
  "(Desc \<Rightarrow> int \<Rightarrow> bytes list \<Rightarrow> 'm go) \<Rightarrow> metric_metadata option \<Rightarrow> 'm list go" where
  "Collect_metrics MustNewConstMetric metadata =
     (case metadata of
        None \<Rightarrow> Inr []
      | Some md \<Rightarrow>
          let labels = map_label (mm_Labels md);
              annotations = map_label (mm_Annotations md);
              dls = [mm_Image md, mm_Name md, labels, annotations]
          in go_bind (NewMetrics MustNewConstMetric ContainerInfo 1 dls) (\<lambda>m. Inr [m]))"

section \<open>Traces\<close>

datatype attribute_value = String_value bytes | Int_value int

record 'ip Trace =
  tr_containerId :: bytes
  tr_destination :: "'ip IPPort"
  tr_commonAttrs :: "(bytes \<times> attribute_value) list"

text \<open>The keys of the semantic conventions.\<close>

record semconv =
  key_ContainerID :: bytes
  key_NetPeerName :: bytes
  key_NetPeerPort :: bytes

record tracer_exporter =
  te_endpoint :: bytes        \<comment> \<open>the target of its connection\<close>

record TraceProvider =
  traceExporter :: "tracer_exporter option"

definition NewTrace ::
  "semconv \<Rightarrow> ('ip \<Rightarrow> bytes) \<Rightarrow> TraceProvider \<Rightarrow> bytes \<Rightarrow> 'ip IPPort \<Rightarrow> 'ip Trace option" where
  "NewTrace sc IP_String t containerId destination =
     (if traceExporter t = None then None
      else Some \<lparr>tr_containerId = containerId, tr_destination = destination,
        tr_commonAttrs =
          [(key_ContainerID sc, String_value containerId),
           (key_NetPeerName sc, String_value (IP_String (fst destination))),
           (key_NetPeerPort sc, Int_value (uint (snd destination)))]\<rparr>)"

text \<open>\<open>dial\<close> is the blocking connection to a target, within a second, and \<open>new\<close> the exporter on it.\<close>

definition trace_NewExporter ::
  "(bytes \<Rightarrow> bytes option) \<Rightarrow> (bytes \<Rightarrow> bytes option) \<Rightarrow> bytes \<Rightarrow> bytes + tracer_exporter" where
  "trace_NewExporter dial new endpoint =
     (if endpoint = '''' then Inl ''OpenTelemetry logs collector endpoint is nil''
      else case dial ''endpoint'' of
        Some err \<Rightarrow> Inl (''failed to create gRPC connection to collector: '' @ err)
      | None \<Rightarrow>
          (case new ''endpoint'' of
             Some err \<Rightarrow> Inl (''failed to create trace exporter: '' @ err)
           | None \<Rightarrow> Inr \<lparr>te_endpoint = ''endpoint''\<rparr>))"

text \<open>Both operations of the trace exporter are empty: nothing it is told is exported.\<close>

definition createSpan :: "bytes \<Rightarrow> int \<Rightarrow> bool \<Rightarrow> (bytes \<times> attribute_value) list \<Rightarrow> tracer_exporter \<Rightarrow> tracer_exporter" where
  "createSpan name duration error attrs t = t"

definition HttpRequest :: "bytes \<Rightarrow> bytes \<Rightarrow> int \<Rightarrow> int \<Rightarrow> tracer_exporter \<Rightarrow> tracer_exporter" where
  "HttpRequest meth path status duration t = t"

section \<open>Lemmas\<close>

text \<open>The metric always has a value for each label of its description.\<close>

lemma Collect_metrics_arity:
  assumes "\<And>d v ls. length ls = length (d_labels d) \<Longrightarrow> \<exists>m. MustNewConstMetric d v ls = Inr m"
  shows "\<exists>ms. Collect_metrics MustNewConstMetric md = Inr ms \<and> length ms = (if md = None then 0 else 1)"
proof (cases md)
  case (Some x)
  let ?ls = "[mm_Image x, mm_Name x, map_label (mm_Labels x), map_label (mm_Annotations x)]"
  obtain m where "MustNewConstMetric ContainerInfo 1 ?ls = Inr m"
    using assms [of ?ls ContainerInfo 1] by (auto simp: ContainerInfo_def metricDesc_def)
  with Some show ?thesis by (simp add: Collect_metrics_def NewMetrics_def Let_def)
qed (simp add: Collect_metrics_def)

text \<open>The connection does not depend on the configured endpoint.\<close>

lemma trace_endpoint_ignored:
  "e \<noteq> '''' \<Longrightarrow> e' \<noteq> '''' \<Longrightarrow> trace_NewExporter dial new e = trace_NewExporter dial new e'"
  by (simp add: trace_NewExporter_def)

text \<open>The length of a map in JSON does not depend on the order of its keys; it is the text's.\<close>

lemma length_json_members:
  "kvs \<noteq> [] \<Longrightarrow> length (json_members kvs) + 1 = sum_list (map (\<lambda>(k, v). json_member_len k (json_string_len v)) kvs) + length kvs"
  by (induction kvs rule: json_members.induct) (simp_all add: json_member_len_def length_json_string)

lemma sum_list_insort: "sum_list (map f (insort_key g x xs)) = f x + (sum_list (map f xs) :: nat)"
  by (induction xs) simp_all

lemma sum_list_sort_key: "sum_list (map f (sort_key g xs)) = (sum_list (map f xs) :: nat)"
  by (induction xs) (simp_all add: sum_list_insort)

lemma length_json_map: "length (json_Marshal_map m) = json_map_len m"
proof (cases m)
  case (Some kvs)
  show ?thesis
  proof (cases "kvs = []")
    case False
    then have "sort_key fst kvs \<noteq> []" by (metis length_0_conv length_sort)
    from length_json_members [OF this] have "length (json_members (sort_key fst kvs)) + 1 =
        sum_list (map (\<lambda>(k, v). json_member_len k (json_string_len v)) kvs) + length kvs"
      by (simp add: sum_list_sort_key)
    with Some False show ?thesis
      by (simp add: json_Marshal_map_def json_object_def json_map_len_def json_seq_len_def)
  qed (simp add: Some json_Marshal_map_def json_object_def json_map_len_def json_seq_len_def)
qed (simp add: json_Marshal_map_def json_map_len_def)

section \<open>The context of the exporters\<close>

text \<open>
  \<open>exporter_context.go\<close>: a struct around the log provider, which nothing creates, and a function without
  parameters, results and statements.
\<close>

record ExporterContext =
  LogProvider :: ExportProvider

definition NewExporterContext :: "unit \<Rightarrow> unit" where
  "NewExporterContext u = u"

end
