(* ===== verification/Spec2Isabelle.thy ===== *)
theory Spec2Isabelle
imports L7_Text L7_Http2 L7_Mysql L7_Postgres K8s_Volumes Connection_Tables Agent_Start Open_Files Tracer_Tls
  Log_Exporter Exporters
begin

text \<open>
  \<^bold>\<open>A model of sense-agent.\<close> The agent (Go, below \<open>src/pkg\<close>) watches a host through eBPF programs: perf
  records of the kernel become events, events are attributed to containers, application-layer
  payloads are parsed, and the host's journal is exported as logs. Every theory translates the
  Go code it names, function by function, in the code's order of checks; the definitions
  compute, and the code's early returns, errors and panics are values.

  \<^bold>\<open>Conventions\<close> (\<open>Prelude\<close>). A byte string is a list of characters; machine integers are words of their
  width, with the wrap-around of the code; a struct is a record, a pointer that may be nil an
  option, a map a partial function (an association list where the order of its traversal
  matters). A function that can panic returns \<open>'a go\<close>, that is \<open>panic + 'a\<close>, sequenced with
  \<open>go_bind\<close>; an error return is a sum or an option beside it. Code of other repositories and of
  the operating system is an argument: a record of functions (\<open>os_api\<close>, \<open>netaddr_api\<close>, \<open>hpack_api\<close>,
  \<open>ebpf_api\<close>, \<open>tls_api\<close>, \<open>sd_api\<close>, \<open>netns_api\<close>) or a single one. Where Go's map iteration has no order,
  the order is an argument too.

  \<^bold>\<open>The language's library.\<close> \<open>Go_Strings\<close> (prefixes, cut, split, fields), \<open>Go_Numbers\<close> (strconv, hex),
  \<open>Go_Path\<close> (path.Join and Clean), \<open>Go_Regexp\<close> (a backtracking matcher with groups, proved sound and
  complete for the language of an expression), \<open>Go_Utf8\<close> (runes, JSON strings).

  \<^bold>\<open>Application protocols\<close> (\<open>ebpftracer/l7\<close>). \<open>L7_Types\<close>: the enumerations and their texts. \<open>L7_Text\<close>: HTTP/1,
  Memcached, Redis and MongoDB requests. \<open>Prepared_Statements\<close>: the contract (locale) of a parser
  that remembers prepared statements, over any type of captured messages and their meaning for a table of
  statements, interpreted by \<open>L7_Mysql\<close> and \<open>L7_Postgres\<close> on captured packets, whole or cut, whose runs refine
  that table. \<open>L7_Http2\<close>: frames, header blocks, matching of responses to requests,
  collection of expired requests.

  \<^bold>\<open>Tracer\<close> (\<open>ebpftracer\<close>). \<open>Tracer_Events\<close>: the four kernel structures and their decoding. \<open>Event_Bus\<close>: the
  contract (locale) of subscriptions, interpreted in \<open>Tracer_Reader\<close>, which holds the loop over perf
  records and \<open>SubscribeEvents\<close>. \<open>Tracer_Program\<close>: choice, loading, attaching and closing of the kernel
  programs, with what is open afterwards and the panics on the way. \<open>Open_Files\<close>: the files and sockets open
  at the start, with the cache of socket tables
  proved equal to a pass without one. \<open>Tracer_Tls\<close>: probes on OpenSSL and Go's TLS, with
  the search for return instructions as a partial function, since it may not end; next to the links
  that are returned, those created before a failure are kept.

  \<^bold>\<open>Host\<close> (\<open>system\<close>, \<open>cgroup\<close>, \<open>kubernetes\<close>). \<open>Sys_Proc\<close>: paths below /proc, descriptors, kernel release.
  \<open>Sys_Net\<close> over \<open>Net_Addr\<close>: socket tables, network namespaces, connection tracking. \<open>Cgroup\<close>: control
  groups and the containers they name. \<open>K8s_Volumes\<close>, \<open>K8s_Labels\<close>: volumes of
  pods, and the names of labels. \<open>Connections\<close>: opening namespaces,
  the tracker and the daemons' clients.

  \<^bold>\<open>Containers\<close> (\<open>container\<close>). \<open>Container_Meta\<close>: the metadata from containerd and Docker, with the contract
  (locale) of a client and its two interpretations. \<open>Container\<close>: the context, which keeps containers
  by process, control group and name (pointers into a heap), and its event loop. \<open>Container_Props\<close>:
  the invariant of the tables, exact conditions for panics, exact connection counts, refinement of
  an abstract table of processes. \<open>Agent_Schedule\<close>: the goroutines around the channel of events as a step
  relation: an invariant and delivery for every schedule, and exactly the contexts in which a
  run can end. The readers run only when the start has sent its announcements. \<open>Connection_Tables\<close>:
  exactly which connections a container's tables hold. \<open>Agent_Start\<close>: \<open>NewContainerContext\<close>,
  composed of \<open>InitCgroup\<close>, the clients' provider, \<open>NewTracer\<close>, the connection tracker and the subscriptions,
  with exactly when it panics.

  \<^bold>\<open>Logs and exporters\<close> (\<open>log\<close>, \<open>exporter\<close>). \<open>Log_Message\<close>: levels, messages, the length of a batch in JSON.
  \<open>Log_Buffer\<close>: the batching buffer, refined to greedy batching. \<open>Log_Journal\<close>: the journal's follower
  and its subscriptions (a locale with its interpretation). \<open>Log_Provider\<close>: the two goroutines
  between channel, buffer and exporter as a step relation, with an invariant for every schedule,
  a decreasing measure for delivery and the states reached by stopping. \<open>Log_Exporter\<close>:
  OpenTelemetry records, the contract of an exporter (locale) and the pipeline from the journal
  to the records. \<open>Exporters\<close>: metrics and traces.

  \<^bold>\<open>How the parts meet.\<close> The start of the agent creates the tracer and the container context, which subscribes one
  channel to all ten types of events. The tracer's readers decode perf records and send events to the channels
  subscribed to their type; the context handles its events one at a time. \<open>agent_pipeline\<close> below composes these parts, from the perf
  records of several readers to connection counters, whatever the schedule; \<open>log_pipeline\<close> composes
  journal, provider and exporter.

  \<^bold>\<open>What the lemmas show.\<close> For parsers: round trips with encoders of the protocol, truncation, exact
  conditions for panics. For stateful parts: invariants kept by every operation, refinement of
  abstract tables, and what is delivered to whom. Findings are stated as theorems that the
  code does what it does (a panic, a leak, a message that stays), on concrete states where a
  witness shows that they can be reached.

  \<^bold>\<open>Bounds and termination.\<close> There is no fuel in the models of loops: they are structural, have a measure, or, for
  the x86 decoder, are a partial function whose termination is proved to depend on the
  decoder's progress. The provider's delivery is bounded by three steps per message, the event
  channel's by two per event, for any capacity above zero (the code's is 10000). Lengths are assumed below the limits of Go's integers where an addition could otherwise overflow.

  \<^bold>\<open>Not modelled.\<close> The C code of the kernel programs and their compiled bytes (\<open>ebpf/\<close>, the generated \<open>ebpf.go\<close>);
  what third-party libraries do behind their documented results (HPACK, BSON, netlink, conntrack,
  containerd, Docker, systemd, Prometheus, OpenTelemetry); logging and printing;
  tests. Data races are out of scope: an operation that holds a lock, the handling of an event, and a send
  or a receive on a channel are one step each.
\<close>

section \<open>From perf records to counters\<close>

text \<open>The events that perf records decode to, in order.\<close>

definition decoded_events :: "'ip netaddr_api \<Rightarrow> (u8 \<times> (string + perf_record)) list \<Rightarrow> 'ip Event list" where
  "decoded_events na samples =
     List.map_filter (\<lambda>(pt, read). case reader_event na pt read of Inr (Some e) \<Rightarrow> Some e | _ \<Rightarrow> None) samples"

abbreviation samples_acts :: "(u8 \<times> (string + perf_record)) list \<Rightarrow> tracer_act list" where
  "samples_acts \<equiv> map (\<lambda>(pt, read). Sample pt read)"

lemma bus_acts_samples: "bus_acts na (samples_acts samples) = map Pub (decoded_events na samples)"
  by (induction samples)
    (auto simp: decoded_events_def map_filter_simps split: sum.split option.split)

lemma expected_inbox_pubs:
  "expected_inbox kind c n (map Pub es) = concat (map (\<lambda>e. replicate (n (kind e)) e) es)"
  by (induction es) simp_all

lemma concat_replicate_filter: "concat (map (\<lambda>e. replicate (if P e then 1 else 0) e) es) = filter P es"
  by (induction es) simp_all

lemma reader_inbox:
  assumes "snd (NewContainerContext na h events kv st) = Inr (Inr (ctx, ct, t', first))"
    and "tracer_run na t' (samples_acts samples) = Inr (ds, t'')"
  shows "inbox events ds = filter (\<lambda>e. Type e \<in> {1, 2, 3, 4, 5, 6, 7, 8, 9, 10}) (decoded_events na samples)"
proof -
  have count: "count_list (tracer_listeners t' ty) events = (if ty \<in> {1, 2, 3, 4, 5, 6, 7, 8, 9, 10} then 1 else 0)" for ty
    unfolding NewContainerContext_success(5) [OF assms(1)] by simp
  have "inbox events ds =
      expected_inbox Type events (\<lambda>ty. count_list (tracer_listeners t' ty) events) (map Pub (decoded_events na samples))"
    using tracer_bus.bus_run_inbox [of events t' "bus_acts na (samples_acts samples)",
        unfolded tracer_run_bus [OF assms(2)], unfolded bus_acts_samples]
    by simp
  also have "\<dots> = filter (\<lambda>e. Type e \<in> {1, 2, 3, 4, 5, 6, 7, 8, 9, 10}) (decoded_events na samples)"
    unfolding expected_inbox_pubs count by (rule concat_replicate_filter)
  finally show ?thesis .
qed

text \<open>C1: From the kernel's records to the counters of the containers, under every schedule. The agent starts
  without an error: it creates its tracer, subscribes its channel to it, and announces the processes that run; then any number of readers,
  each with its own perf buffer, decode their records and send to the channel, while one loop
  handles what it receives. At every moment the channel holds at most 10000 events; what each
  reader has sent and still has to send are exactly the events that its records decode to and
  whose type is one of the ten, each once and in the records' order, and likewise the announced
  processes; and as long as no handler has panicked, the tables of containers are consistent
  and each container's counters of successful and failed connections count exactly the
  connections to other than loopback addresses that its processes opened, or failed to open, according to the
  events handled. The counters are 64-bit integers and count modulo \<open>2 ^ 64\<close>.\<close>
theorem agent_pipeline:
  assumes "snd (NewContainerContext na h events kv st) = Inr (Inr (ctx, ct, t', first))"
    and "list_all2 (\<lambda>samples ds. \<exists>t''. tracer_run na t' (samples_acts samples) = Inr (ds, t'')) sss dss"
    and "(agent_step na events_capacity)\<^sup>*\<^sup>* (agent_start (provider ctx) (first # map (inbox events) dss)) s"
    and "context_now s = Inr ctx'"
  shows "length (channel s) \<le> events_capacity \<and>
    left_sender s 0 @ to_send s ! 0 = initContainer na (h_os h) \<and>
    map (\<lambda>i. left_sender s (Suc i) @ to_send s ! Suc i) [0..<length sss] =
      map (\<lambda>samples. filter (\<lambda>e. Type e \<in> {1, 2, 3, 4, 5, 6, 7, 8, 9, 10}) (decoded_events na samples)) sss \<and>
    ctx_ok na ctx' \<and>
    successes ctx' c (src, dst) =
      logged (conn_log na (empty_context (host_provider h)) (map snd (handled s))) (\<lambda>x. x = (c, False, src, dst)) \<and>
    failures ctx' c dst =
      logged (conn_log na (empty_context (host_provider h)) (map snd (handled s)))
        (\<lambda>x. fst x = c \<and> fst (snd x) \<and> snd (snd (snd x)) = dst)"
proof -
  let ?todo = "first # map (inbox events) dss" and ?p = "host_provider h"
  note ctx = NewContainerContext_success [OF assms(1)]
  have p: "provider ctx = ?p" by (simp add: ctx(1) empty_context_def)
  have inv: "schedule_inv na events_capacity ?p ?todo s"
    using assms(3) [unfolded p] schedule_inv_start by (rule schedule_inv_steps)
  have len: "length dss = length sss" using list_all2_lengthD [OF assms(2)] by simp
  have run: "handleEvents na (empty_context ?p) (map snd (handled s)) = Inr ctx'"
    using inv assms(4) by (simp add: schedule_inv_def)
  have zero: "successes (empty_context ?p) c (src, dst) = 0" "failures (empty_context ?p) c dst = 0"
    by (simp_all add: successes_def failures_def empty_context_def)
  have sent: "left_sender s i @ to_send s ! i = ?todo ! i" if "i < Suc (length sss)" for i
    using inv that by (simp add: schedule_inv_def len)
  have start: "left_sender s 0 @ to_send s ! 0 = initContainer na (h_os h)"
    using sent [of 0] ctx(2) by simp
  have "left_sender s (Suc i) @ to_send s ! Suc i =
      filter (\<lambda>e. Type e \<in> {1, 2, 3, 4, 5, 6, 7, 8, 9, 10}) (decoded_events na (sss ! i))" if i: "i < length sss" for i
  proof -
    obtain t'' where "tracer_run na t' (samples_acts (sss ! i)) = Inr (dss ! i, t'')"
      using list_all2_nthD [OF assms(2) i] by blast
    from reader_inbox [OF assms(1) this] sent [of "Suc i"] i show ?thesis by (simp only: len nth_Cons_Suc nth_map)
  qed
  then have readers: "map (\<lambda>i. left_sender s (Suc i) @ to_send s ! Suc i) [0..<length sss] =
      map (\<lambda>samples. filter (\<lambda>e. Type e \<in> {1, 2, 3, 4, 5, 6, 7, 8, 9, 10}) (decoded_events na samples)) sss"
    by (intro nth_equalityI) simp_all
  have "length (channel s) \<le> events_capacity" using inv by (simp add: schedule_inv_def)
  with start readers show ?thesis
    using handleEvents_ok [OF ctx_ok_empty run] handleEvents_counters [OF ctx_ok_empty run, of c src dst]
    by (simp only: zero add_0 simp_thms)
qed

text \<open>A record of the start of a process.\<close>

definition sample_start :: "u8 \<times> (string + perf_record)" where
  "sample_start = (perfMapTypeProcEvents,
     Inr \<lparr>RawSample = procEvent_bytes \<lparr>proc_Type = 1, proc_Pid = 42, proc_Reason = 0\<rparr>,
          Spare = [], LostSamples = 0\<rparr>)"

lemma sample_start_event: "reader_event bytes_netaddr (fst sample_start) (snd sample_start) = Inr (Some start_42)"
  using read_procEvent_bytes [of _ "[]"]
  by (simp add: sample_start_def reader_event_simps proc_event_def start_event_def zero_Event_def)

theorem agent_pipeline_witness:
  "\<exists>ct t' ds t'' s.
    snd (NewContainerContext bytes_netaddr sample_host 9 ''5.4.0'' (1, ''/'')) =
      Inr (Inr (empty_context (Some DockerdClient), ct, t', [])) \<and>
    tracer_run bytes_netaddr t' (samples_acts [sample_start]) = Inr ((ds :: (handle \<times> bytes Event) list), t'') \<and>
    (agent_step bytes_netaddr events_capacity)\<^sup>*\<^sup>* (agent_start (Some DockerdClient) [[], inbox 9 ds]) s \<and>
    left_sender s 1 @ to_send s ! 1 = [start_42] \<and>
    context_now s = Inr with_42 \<and> ctx_ok bytes_netaddr with_42 \<and> containersByPid with_42 42 = Some (Some 0)"
proof -
  let ?ctx = "empty_context (Some DockerdClient) :: bytes ContainerContext"
  obtain ct t' where start: "snd (NewContainerContext bytes_netaddr sample_host 9 ''5.4.0'' (1, ''/'')) =
      Inr (Inr (?ctx, ct, t', []))"
    using sample_host_start by blast
  note l = NewContainerContext_success(5) [OF start]
  have ty: "Type start_42 = 1" by (simp add: start_event_def)
  have pub: "publish t' start_42 = [(9, start_42)]"
    using tracer_bus.publish_all [of t' start_42] l by (simp add: ty)
  have run: "tracer_run bytes_netaddr t' (samples_acts [sample_start]) = Inr ([(9, start_42)], t')"
    using sample_start_event by (simp add: split_beta Reader_step_def pub)
  have i: "inbox (9::handle) [(9, start_42)] = [start_42]" by (simp add: inbox_def)
  have m: "merge_of [[], [start_42]] [(1, sample_world pod_labels, start_42)]"
    by (simp add: merge_of_def less_Suc_eq announced_first_Cons)
  have h: "handleEvents bytes_netaddr (empty_context (Some DockerdClient))
      (map snd [(1, sample_world pod_labels, start_42)]) = Inr with_42"
    by (simp add: start_42_handled)
  have cap: "0 < events_capacity" by (simp add: events_capacity_def)
  obtain s where s: "(agent_step bytes_netaddr events_capacity)\<^sup>*\<^sup>* (agent_start (Some DockerdClient) [[], [start_42]]) s"
    and now: "context_now s = Inr with_42" using outcome_of_order [OF m h cap] by blast
  have readers: "list_all2 (\<lambda>samples ds. \<exists>t''. tracer_run bytes_netaddr t' (samples_acts samples) = Inr (ds, t''))
      [[sample_start]] [[(9, start_42)]]" using run by simp
  have p: "provider ?ctx = Some DockerdClient" by (simp add: empty_context_def)
  have s': "(agent_step bytes_netaddr events_capacity)\<^sup>*\<^sup>*
      (agent_start (provider ?ctx) ([] # map (inbox (9::handle)) [[(9, start_42)]])) s" using s i p by simp
  have d: "decoded_events bytes_netaddr [sample_start] = [start_42]"
    using sample_start_event by (simp add: decoded_events_def map_filter_simps split_beta)
  from agent_pipeline [OF start readers s' now] have "ctx_ok bytes_netaddr with_42"
    and "left_sender s 1 @ to_send s ! 1 = [start_42]" by (simp_all add: d ty)
  then show ?thesis using start run s i now with_42_pid
    by (intro exI [of _ ct] exI [of _ t'] exI [of _ "[(9, start_42)]"] exI [of _ t'] exI [of _ s]) simp
qed

end
